(* ===== verification/Prelude.thy ===== *)
theory Prelude
  imports Main "HOL-Library.AList" "HOL-Library.Word" "HOL-Library.List_Lexorder" "HOL-Library.Char_ord"
begin

text \<open>
  The prelude of the development: Go's error values, time and 64-bit arithmetic, Go maps as
  association lists with distinct keys, and the generic facts on lists and maps that the component
  theories share.  The collections \<open>frame\<close> (an operation leaves a field of the process state
  alone), \<open>gmap\<close> (Go map operations) and \<open>gstr\<close> (string functions) are filled by the
  component theories and used with \<open>simp add:\<close>.
\<close>

named_theorems frame
named_theorems gmap
named_theorems gstr

section \<open>Error values\<close>

text \<open>
  A Go error is modelled by its text and by the sentinel errors that \<open>errors.Is\<close> finds in its
  chain.  \<open>fmt.Errorf\<close> with the verb \<open>%w\<close> keeps the chain (\<open>errorf_w\<close>), without it
  the chain is dropped (\<open>new_error\<close>).
\<close>

datatype sentinel =
    Canceled                  \<comment> \<open>context.Canceled\<close>
  | DeadlineExceeded          \<comment> \<open>context.DeadlineExceeded\<close>
  | NoCredentials             \<comment> \<open>consent.ErrNoCredentials\<close>
  | ParticipantNotRegistered  \<comment> \<open>consent.ErrParticipantNotRegistered\<close>
  | ParticipantUnauthorized   \<comment> \<open>consent.errParticipantUnauthorized\<close>
  | ClaimPathUnset            \<comment> \<open>plugin.errClaimPathUnset\<close>

record gerror =
  err_text :: string
  err_chain :: "sentinel list"

definition new_error :: "string \<Rightarrow> gerror" where
  "new_error t = \<lparr>err_text = t, err_chain = []\<rparr>"

definition sentinel_error :: "sentinel \<Rightarrow> string \<Rightarrow> gerror" where
  "sentinel_error s t = \<lparr>err_text = t, err_chain = [s]\<rparr>"

definition errorf_w :: "string \<Rightarrow> gerror \<Rightarrow> gerror" where
  "errorf_w prefix e = \<lparr>err_text = prefix @ err_text e, err_chain = err_chain e\<rparr>"

definition errors_is :: "gerror \<Rightarrow> sentinel \<Rightarrow> bool" where
  "errors_is e s \<longleftrightarrow> List.member (err_chain e) s"

lemma errors_is_simps [simp]:
  "errors_is (new_error t) s \<longleftrightarrow> False"
  "errors_is (sentinel_error s' t) s \<longleftrightarrow> s' = s"
  "errors_is (errorf_w p e) s \<longleftrightarrow> errors_is e s"
  by (auto simp: errors_is_def new_error_def sentinel_error_def errorf_w_def)

lemma err_text_simps [simp]:
  "err_text (new_error t) = t"
  "err_text (sentinel_error s t) = t"
  "err_text (errorf_w p e) = p @ err_text e"
  by (simp_all add: new_error_def sentinel_error_def errorf_w_def)

section \<open>Time and 64-bit integers\<close>

text \<open>
  Instants and durations are nanoseconds.  \<open>i64\<close> reduces an integer to Go's two's complement
  int64, so an overflowing multiplication wraps as it does in the code; \<open>time_sub\<close> is
  \<open>time.Time.Sub\<close>, which saturates.
\<close>

type_synonym time = int
type_synonym duration = int

definition i64 :: "int \<Rightarrow> int" where
  "i64 x = sint (word_of_int x :: 64 word)"

definition nanosecond :: duration where "nanosecond = 1"
definition millisecond :: duration where "millisecond = 1000000"
definition second :: duration where "second = 1000000000"

definition time_sub :: "time \<Rightarrow> time \<Rightarrow> duration" where
  "time_sub a b = max (- (2 ^ 63)) (min (2 ^ 63 - 1) (a - b))"

lemma i64_signed_take_bit: "i64 x = signed_take_bit 63 x"
  by (simp add: i64_def sint_sbintrunc')

lemma i64_range: "- (2 ^ 63) \<le> i64 x" "i64 x < 2 ^ 63"
  unfolding i64_signed_take_bit
  using signed_take_bit_int_greater_eq_minus_exp [of 63 x] signed_take_bit_int_less_exp [of 63 x]
  by auto

lemma i64_id: "- (2 ^ 63) \<le> x \<Longrightarrow> x < 2 ^ 63 \<Longrightarrow> i64 x = x"
  unfolding i64_signed_take_bit by (rule signed_take_bit_int_eq_self) auto

lemma time_sub_gt_iff:
  "0 \<le> d \<Longrightarrow> d < 2 ^ 63 - 1 \<Longrightarrow> time_sub a b > d \<longleftrightarrow> a - b > d"
  by (auto simp: time_sub_def)

lemma time_sub_lt_iff:
  "0 < d \<Longrightarrow> d \<le> 2 ^ 63 - 1 \<Longrightarrow> time_sub a b < d \<longleftrightarrow> a - b < d"
  by (auto simp: time_sub_def)

section \<open>Go maps\<close>

text \<open>
  A Go map is an association list whose keys are distinct (\<open>wf_map\<close>).  The order of the list
  is the order in which \<open>range\<close> happens to enumerate the map; every theorem quantifies over
  all lists, hence over all enumeration orders.
\<close>

definition wf_map :: "('k \<times> 'v) list \<Rightarrow> bool" where
  "wf_map m \<longleftrightarrow> distinct (map fst m)"

definition gset :: "'k \<Rightarrow> 'v \<Rightarrow> ('k \<times> 'v) list \<Rightarrow> ('k \<times> 'v) list" where
  "gset k v m = AList.update k v m"

definition gdel :: "'k \<Rightarrow> ('k \<times> 'v) list \<Rightarrow> ('k \<times> 'v) list" where
  "gdel k m = AList.delete k m"

lemma map_of_gset [simp, gmap]: "map_of (gset k v m) = (map_of m)(k \<mapsto> v)"
  by (simp add: gset_def update_conv')

lemma map_of_gdel [simp, gmap]: "map_of (gdel k m) = (map_of m)(k := None)"
  by (simp add: gdel_def delete_conv')

lemma wf_map_Nil [simp]: "wf_map []"
  by (simp add: wf_map_def)

lemma wf_map_gset [simp, intro]: "wf_map m \<Longrightarrow> wf_map (gset k v m)"
  by (simp add: wf_map_def gset_def distinct_update)

lemma wf_map_gdel [simp, intro]: "wf_map m \<Longrightarrow> wf_map (gdel k m)"
  by (simp add: wf_map_def gdel_def distinct_delete)

lemma wf_map_filter [simp, intro]: "wf_map m \<Longrightarrow> wf_map (filter P m)"
  by (simp add: wf_map_def distinct_map_filter)

lemma map_of_filter_wf:
  "wf_map m \<Longrightarrow> map_of (filter P m) k = (case map_of m k of None \<Rightarrow> None | Some v \<Rightarrow> if P (k, v) then Some v else None)"
proof (induction m)
  case Nil
  then show ?case by simp
next
  case (Cons x m)
  obtain k' v' where x: "x = (k', v')" by (cases x)
  from Cons.prems x have wf: "wf_map m" and nk: "k' \<notin> fst ` set m"
    by (auto simp: wf_map_def)
  from nk have "map_of m k' = None" by (simp add: map_of_eq_None_iff)
  with Cons.IH [OF wf] x nk show ?case
    by (auto split: option.splits)
qed

lemma length_gdel: "wf_map m \<Longrightarrow> map_of m k \<noteq> None \<Longrightarrow> Suc (length (gdel k m)) = length m"
proof (induction m)
  case Nil
  then show ?case by simp
next
  case (Cons x m)
  show ?case
  proof (cases "fst x = k")
    case True
    with Cons.prems have "k \<notin> fst ` set m" by (auto simp: wf_map_def)
    then have "gdel k m = m" by (simp add: gdel_def delete_id)
    with True show ?thesis by (simp add: gdel_def)
  next
    case False
    with Cons show ?thesis by (cases x) (auto simp: gdel_def wf_map_def)
  qed
qed

lemma keys_gdel [gmap]: "fst ` set (gdel k m) = fst ` set m - {k}"
proof -
  have "set (map fst (gdel k m)) = set (map fst m) - {k}" by (simp add: gdel_def delete_keys)
  then show ?thesis by simp
qed

lemma length_gdel_le: "length (gdel k m) \<le> length m"
  by (simp add: gdel_def length_delete_le)

lemma length_gset_old: "map_of m k \<noteq> None \<Longrightarrow> length (gset k v m) = length m"
  by (induction m) (auto simp: gset_def)

lemma length_gset_new: "map_of m k = None \<Longrightarrow> length (gset k v m) = Suc (length m)"
  by (induction m) (auto simp: gset_def split: if_splits)

lemma length_gset_le: "length (gset k v m) \<le> Suc (length m)"
  using length_gset_old [of m k v] length_gset_new [of m k v] by (cases "map_of m k") auto

end
