(* ===== verification/Go_Crypto.thy ===== *)
theory Go_Crypto
  imports Go_Strings
begin

text \<open>
  \<open>crypto/sha256\<close> (\<open>Sum256\<close>), \<open>encoding/hex\<close> (\<open>EncodeToString\<close>) and \<open>encoding/base64\<close>
  (\<open>RawURLEncoding.DecodeString\<close>), the standard library routines behind credential fingerprints,
  redacted identifiers and JWT payloads.
\<close>

unbundle bit_operations_syntax

section \<open>SHA-256\<close>

definition sha_k :: "32 word list" where
  "sha_k = [
    1116352408, 1899447441, 3049323471, 3921009573, 961987163, 1508970993, 2453635748, 2870763221,
    3624381080, 310598401, 607225278, 1426881987, 1925078388, 2162078206, 2614888103, 3248222580,
    3835390401, 4022224774, 264347078, 604807628, 770255983, 1249150122, 1555081692, 1996064986,
    2554220882, 2821834349, 2952996808, 3210313671, 3336571891, 3584528711, 113926993, 338241895,
    666307205, 773529912, 1294757372, 1396182291, 1695183700, 1986661051, 2177026350, 2456956037,
    2730485921, 2820302411, 3259730800, 3345764771, 3516065817, 3600352804, 4094571909, 275423344,
    430227734, 506948616, 659060556, 883997877, 958139571, 1322822218, 1537002063, 1747873779,
    1955562222, 2024104815, 2227730452, 2361852424, 2428436474, 2756734187, 3204031479, 3329325298]"

definition sha_init :: "32 word list" where
  "sha_init = [
    1779033703, 3144134277, 1013904242, 2773480762, 1359893119, 2600822924, 528734635, 1541459225]"

definition small_sigma0 :: "32 word \<Rightarrow> 32 word" where
  "small_sigma0 x = word_rotr 7 x XOR word_rotr 18 x XOR drop_bit 3 x"

definition small_sigma1 :: "32 word \<Rightarrow> 32 word" where
  "small_sigma1 x = word_rotr 17 x XOR word_rotr 19 x XOR drop_bit 10 x"

definition big_sigma0 :: "32 word \<Rightarrow> 32 word" where
  "big_sigma0 x = word_rotr 2 x XOR word_rotr 13 x XOR word_rotr 22 x"

definition big_sigma1 :: "32 word \<Rightarrow> 32 word" where
  "big_sigma1 x = word_rotr 6 x XOR word_rotr 11 x XOR word_rotr 25 x"

text \<open>The message schedule, built backwards: the newest word is the head.\<close>

fun sha_extend :: "nat \<Rightarrow> 32 word list \<Rightarrow> 32 word list" where
  "sha_extend 0 ws = ws"
| "sha_extend (Suc n) ws =
     sha_extend n ((small_sigma1 (ws ! 1) + ws ! 6 + small_sigma0 (ws ! 14) + ws ! 15) # ws)"

definition sha_schedule :: "32 word list \<Rightarrow> 32 word list" where
  "sha_schedule block = rev (sha_extend 48 (rev block))"

fun sha_round :: "32 word list \<Rightarrow> 32 word \<times> 32 word \<Rightarrow> 32 word list" where
  "sha_round [a, b, c, d, e, f, g, h] (k, w) =
     (let t1 = h + big_sigma1 e + ((e AND f) XOR (NOT e AND g)) + k + w;
          t2 = big_sigma0 a + ((a AND b) XOR (a AND c) XOR (b AND c))
      in [t1 + t2, a, b, c, d + t1, e, f, g])"
| "sha_round st _ = st"

definition sha_block :: "32 word list \<Rightarrow> 32 word list \<Rightarrow> 32 word list" where
  "sha_block st block = map2 (+) st (foldl sha_round st (zip sha_k (sha_schedule block)))"

fun word_of_bytes :: "nat list \<Rightarrow> 32 word list" where
  "word_of_bytes (a # b # c # d # bs) =
     word_of_nat (a * 16777216 + b * 65536 + c * 256 + d) # word_of_bytes bs"
| "word_of_bytes _ = []"

fun sha_blocks :: "nat \<Rightarrow> 32 word list \<Rightarrow> 32 word list \<Rightarrow> 32 word list" where
  "sha_blocks 0 st ws = st"
| "sha_blocks (Suc n) st ws = sha_blocks n (sha_block st (take 16 ws)) (drop 16 ws)"

definition sha_pad :: "nat list \<Rightarrow> nat list" where
  "sha_pad bs =
     (let n = length bs; z = (119 - n mod 64) mod 64; bits = 8 * n
      in bs @ [0x80] @ replicate z 0 @ map (\<lambda>i. bits div 256 ^ (7 - i) mod 256) [0..<8])"

definition bytes_of_word :: "32 word \<Rightarrow> string" where
  "bytes_of_word w = map (\<lambda>i. byte (unat w div 256 ^ (3 - i) mod 256)) [0..<4]"

text \<open>\<open>sha256.Sum256\<close>: the 32-byte digest.\<close>

definition sha256 :: "string \<Rightarrow> string" where
  "sha256 s =
     (let ws = word_of_bytes (sha_pad (map code s))
      in concat (map bytes_of_word (sha_blocks (length ws div 16) sha_init ws)))"

section \<open>Hexadecimal\<close>

definition hex_digit :: "nat \<Rightarrow> char" where
  "hex_digit n = (if n < 10 then char_of (48 + n) else char_of (87 + n))"

definition hex_encode :: "string \<Rightarrow> string" where
  "hex_encode s = concat (map (\<lambda>c. [hex_digit (code c div 16), hex_digit (code c mod 16)]) s)"

section \<open>Base64\<close>

text \<open>The value of a character of the URL-safe alphabet.\<close>

definition b64_val :: "char \<Rightarrow> nat option" where
  "b64_val c =
     (let n = code c in
      if in_range 65 90 n then Some (n - 65)
      else if in_range 97 122 n then Some (n - 71)
      else if in_range 48 57 n then Some (n + 4)
      else if n = 45 then Some 62
      else if n = 95 then Some 63
      else None)"

text \<open>
  \<open>RawURLEncoding.DecodeString\<close>: carriage returns and newlines are skipped, four characters give
  three bytes, a final group of two or three gives one or two, a final group of one is an error.
  The decoder is not strict, so the unused low bits of a short final group are ignored.
\<close>

fun b64_groups :: "nat list \<Rightarrow> string option" where
  "b64_groups [] = Some []"
| "b64_groups [a] = None"
| "b64_groups [a, b] = Some [byte (a * 4 + b div 16)]"
| "b64_groups [a, b, c] = Some [byte (a * 4 + b div 16), byte (b mod 16 * 16 + c div 4)]"
| "b64_groups (a # b # c # d # rest) =
     map_option (\<lambda>bs. byte (a * 4 + b div 16) # byte (b mod 16 * 16 + c div 4) # byte (c mod 4 * 64 + d) # bs)
       (b64_groups rest)"

definition is_newline :: "char \<Rightarrow> bool" where
  "is_newline c \<longleftrightarrow> code c = 10 \<or> code c = 13"

fun b64_vals :: "string \<Rightarrow> nat list option" where
  "b64_vals [] = Some []"
| "b64_vals (c # cs) =
     (case b64_val c of None \<Rightarrow> None | Some v \<Rightarrow> map_option (\<lambda>vs. v # vs) (b64_vals cs))"

definition b64url_decode :: "string \<Rightarrow> string option" where
  "b64url_decode s = Option.bind (b64_vals (filter (\<lambda>c. \<not> is_newline c) s)) b64_groups"

section \<open>Facts\<close>

lemma length_sha_round [simp]: "length (sha_round st kw) = length st"
  by (induction st kw rule: sha_round.induct) (auto simp: Let_def)

lemma length_foldl_sha_round [simp]: "length (foldl sha_round st kws) = length st"
  by (induction kws arbitrary: st) auto

lemma length_sha_blocks [simp]: "length (sha_blocks n st ws) = length st"
  by (induction n arbitrary: st ws) (auto simp: sha_block_def)

lemma length_concat_bytes: "length (concat (map bytes_of_word ws)) = 4 * length ws"
  by (induction ws) (auto simp: bytes_of_word_def)

lemma length_sha256 [simp]: "length (sha256 s) = 32"
  by (simp add: sha256_def Let_def length_concat_bytes) (simp add: sha_init_def)

lemma length_hex_encode [simp]: "length (hex_encode s) = 2 * length s"
  by (induction s) (auto simp: hex_encode_def)

lemma code_byte [simp]: "n < 256 \<Longrightarrow> code (byte n) = n"
  by (simp add: code_def byte_def)

lemma byte_code [simp]: "byte (code c) = c"
  by (simp add: code_def byte_def)

lemma code_less [simp]: "code c < 256"
  by (simp add: code_def)

text \<open>Every character of a hexadecimal string is printable ASCII; in particular it holds no NUL.\<close>

lemma code_hex_digit: "n < 16 \<Longrightarrow> 48 \<le> code (hex_digit n) \<and> code (hex_digit n) \<le> 102"
  by (auto simp: hex_digit_def code_def)

lemma hex_encode_printable: "c \<in> set (hex_encode s) \<Longrightarrow> 48 \<le> code c \<and> code c \<le> 102"
proof -
  assume "c \<in> set (hex_encode s)"
  then obtain x where "c = hex_digit (code x div 16) \<or> c = hex_digit (code x mod 16)"
    by (auto simp: hex_encode_def)
  moreover have "code x div 16 < 16" using code_less [of x] by (simp add: less_mult_imp_div_less)
  ultimately show ?thesis using code_hex_digit [of "code x div 16"] code_hex_digit [of "code x mod 16"] by auto
qed

text \<open>
  The encoder that a token issuer uses, as the specification of the decoder: decoding inverts it.
\<close>

definition b64_char :: "nat \<Rightarrow> char" where
  "b64_char v = byte (if v < 26 then v + 65 else if v < 52 then v + 71 else if v < 62 then v - 4
     else if v = 62 then 45 else 95)"

fun b64url_encode :: "string \<Rightarrow> string" where
  "b64url_encode [] = []"
| "b64url_encode [x] = [b64_char (code x div 4), b64_char (code x mod 4 * 16)]"
| "b64url_encode [x, y] =
     [b64_char (code x div 4), b64_char (code x mod 4 * 16 + code y div 16), b64_char (code y mod 16 * 4)]"
| "b64url_encode (x # y # z # rest) =
     b64_char (code x div 4) # b64_char (code x mod 4 * 16 + code y div 16)
       # b64_char (code y mod 16 * 4 + code z div 64) # b64_char (code z mod 64) # b64url_encode rest"

lemma b64_val_char [simp]: "v < 64 \<Longrightarrow> b64_val (b64_char v) = Some v"
  by (auto simp: b64_val_def b64_char_def in_range_def Let_def)

lemma b64_char_not_newline [simp]: "v < 64 \<Longrightarrow> \<not> is_newline (b64_char v)"
  by (auto simp: is_newline_def b64_char_def)

lemma quot_bounds:
  "code x div 4 < 64" "code x div 16 < 16" "code x div 64 < 4"
  using code_less [of x] by (simp_all add: less_mult_imp_div_less)

lemma six_bits:
  "code x div 4 < 64" "code x mod 4 * 16 < 64" "code x mod 16 * 4 < 64" "code x mod 64 < 64"
  "code x mod 4 * 16 + code y div 16 < 64" "code x mod 16 * 4 + code y div 64 < 64"
proof -
  have m: "code x mod 4 < 4" "code x mod 16 < 16" by simp_all
  note q = quot_bounds [of x] quot_bounds [of y]
  show "code x div 4 < 64" "code x mod 64 < 64" using q by simp_all
  show "code x mod 4 * 16 < 64" "code x mod 16 * 4 < 64"
    "code x mod 4 * 16 + code y div 16 < 64" "code x mod 16 * 4 + code y div 64 < 64"
    using m q by linarith+
qed

lemma quot_collapse [simp]:
  "code x div 16 div 16 = 0" "code x div 16 mod 16 = code x div 16"
  "code x div 64 div 4 = 0" "code x div 64 mod 4 = code x div 64"
  using quot_bounds [of x] by simp_all

lemma b64_roundtrip_filtered:
  "filter (\<lambda>c. \<not> is_newline c) (b64url_encode s) = b64url_encode s \<and>
   Option.bind (b64_vals (b64url_encode s)) b64_groups = Some s"
proof (induction s rule: b64url_encode.induct)
  case 1
  then show ?case by simp
next
  case (2 x)
  then show ?case by (simp add: six_bits)
next
  case (3 x y)
  then show ?case by (simp add: six_bits)
next
  case (4 x y z rest)
  then show ?case by (auto simp: six_bits bind_eq_Some_conv)
qed

lemma b64_roundtrip: "b64url_decode (b64url_encode s) = Some s"
  using b64_roundtrip_filtered [of s] by (simp add: b64url_decode_def)

end
