(* ===== verification/Go_Json.thy ===== *)
theory Go_Json
  imports Go_Crypto
begin

text \<open>
  The parts of \<open>encoding/json\<close> that the program uses: the syntax check and the parsed value of a
  text (\<open>json_parse\<close>, \<open>json_valid\<close>), and the rules by which \<open>json.Unmarshal\<close> fills a typed
  variable (\<open>null\<close> leaves it alone, a value of another kind is an error, struct keys match without
  regard to case, a later duplicate key wins).  The parser spends one unit of fuel per call; the fuel
  \<open>json_parse\<close> gives is enough for every input (\<open>p_val_fuel\<close>), so \<open>None\<close> always means a
  syntax error.  As in Go, a text nested deeper than 10000 levels is refused.
\<close>

datatype json =
    JNull
  | JBool bool
  | JNum string
  | JStr string
  | JArr "json list"
  | JObj "(string \<times> json) list"

section \<open>Lexical elements\<close>

definition is_ws :: "char \<Rightarrow> bool" where
  "is_ws c \<longleftrightarrow> c = CHR '' '' \<or> c = CHR 0x09 \<or> c = CHR 0x0A \<or> c = CHR 0x0D"

definition skip_ws :: "string \<Rightarrow> string" where
  "skip_ws = dropWhile is_ws"

definition hex_val :: "char \<Rightarrow> nat option" where
  "hex_val c =
     (let n = code c in
      if in_range 48 57 n then Some (n - 48)
      else if in_range 97 102 n then Some (n - 87)
      else if in_range 65 70 n then Some (n - 55)
      else None)"

definition hex4 :: "string \<Rightarrow> (nat \<times> string) option" where
  "hex4 s = (case s of
       a # b # c # d # r \<Rightarrow>
         (case (hex_val a, hex_val b, hex_val c, hex_val d) of
            (Some w, Some x, Some y, Some z) \<Rightarrow> Some (((w * 16 + x) * 16 + y) * 16 + z, r)
          | _ \<Rightarrow> None)
     | _ \<Rightarrow> None)"

text \<open>A low surrogate after a high one, written as a second escape.\<close>

definition low_surrogate :: "string \<Rightarrow> (nat \<times> string) option" where
  "low_surrogate s = (case s of
       b # u # r \<Rightarrow>
         if b = CHR 0x5C \<and> u = CHR ''u'' then
           (case hex4 r of
              Some (v, r') \<Rightarrow> if in_range 0xDC00 0xDFFF v then Some (v, r') else None
            | None \<Rightarrow> None)
         else None
     | _ \<Rightarrow> None)"

text \<open>The escape after a backslash: the bytes it denotes and the rest.\<close>

definition p_escape :: "string \<Rightarrow> (string \<times> string) option" where
  "p_escape s = (case s of
       [] \<Rightarrow> None
     | e # r \<Rightarrow>
         if e = CHR 0x22 \<or> e = CHR 0x5C \<or> e = CHR ''/'' then Some ([e], r)
         else if e = CHR ''b'' then Some ([CHR 0x08], r)
         else if e = CHR ''f'' then Some ([CHR 0x0C], r)
         else if e = CHR ''n'' then Some ([CHR 0x0A], r)
         else if e = CHR ''r'' then Some ([CHR 0x0D], r)
         else if e = CHR ''t'' then Some ([CHR 0x09], r)
         else if e = CHR ''u'' then
           (case hex4 r of
              None \<Rightarrow> None
            | Some (v, r1) \<Rightarrow>
                if in_range 0xD800 0xDFFF v then
                  (case (if v < 0xDC00 then low_surrogate r1 else None) of
                     Some (v2, r2) \<Rightarrow> Some (encode_rune (0x10000 + (v - 0xD800) * 0x400 + (v2 - 0xDC00)), r2)
                   | None \<Rightarrow> Some (encode_rune rune_error, r1))
                else Some (encode_rune v, r1))
         else None)"

lemma hex4_length: "hex4 s = Some (v, r) \<Longrightarrow> length s = length r + 4"
  by (auto simp: hex4_def split: list.splits option.splits)

lemma low_surrogate_length: "low_surrogate s = Some (v, r) \<Longrightarrow> length r < length s"
  by (auto simp: low_surrogate_def dest: hex4_length split: list.splits if_splits option.splits)

lemma p_escape_length: "p_escape s = Some (out, r) \<Longrightarrow> length r < length s"
  by (auto simp: p_escape_def dest!: hex4_length low_surrogate_length split: list.splits if_splits option.splits)

text \<open>The contents of a string after its opening quote; invalid UTF-8 becomes RuneError.\<close>

function p_str :: "string \<Rightarrow> (string \<times> string) option" where
  "p_str s = (case s of
       [] \<Rightarrow> None
     | c # cs \<Rightarrow>
         if c = CHR 0x22 then Some ([], cs)
         else if code c < 0x20 then None
         else if c = CHR 0x5C then
           (case p_escape cs of
              None \<Rightarrow> None
            | Some (out, r) \<Rightarrow> map_option (\<lambda>(t, r'). (out @ t, r')) (p_str r))
         else (case decode_rune c cs of
              (rn, w) \<Rightarrow> map_option (\<lambda>(t, r'). (encode_rune rn @ t, r')) (p_str (drop (w - 1) cs))))"
  by pat_completeness auto
termination
  by (relation "measure length") (auto dest!: p_escape_length)

declare p_str.simps [simp del]

lemma p_str_Nil [simp]: "p_str [] = None"
  by (subst p_str.simps) simp

lemma p_str_Cons:
  "p_str (c # cs) =
     (if c = CHR 0x22 then Some ([], cs)
      else if code c < 0x20 then None
      else if c = CHR 0x5C then
        (case p_escape cs of
           None \<Rightarrow> None
         | Some (out, r) \<Rightarrow> map_option (\<lambda>(t, r'). (out @ t, r')) (p_str r))
      else (case decode_rune c cs of
           (rn, w) \<Rightarrow> map_option (\<lambda>(t, r'). (encode_rune rn @ t, r')) (p_str (drop (w - 1) cs))))"
  by (subst p_str.simps) simp

text \<open>A number is kept as its literal text.\<close>

definition p_int :: "string \<Rightarrow> (string \<times> string) option" where
  "p_int s = (case s of
       [] \<Rightarrow> None
     | c # cs \<Rightarrow>
         if c = CHR ''0'' then Some ([c], cs)
         else if is_digit c then Some (takeWhile is_digit s, dropWhile is_digit s)
         else None)"

definition p_digits1 :: "string \<Rightarrow> (string \<times> string) option" where
  "p_digits1 s = (if takeWhile is_digit s = [] then None else Some (takeWhile is_digit s, dropWhile is_digit s))"

definition p_frac :: "string \<Rightarrow> (string \<times> string) option" where
  "p_frac s = (case s of
       [] \<Rightarrow> Some ([], s)
     | c # cs \<Rightarrow>
         if c = CHR ''.'' then map_option (\<lambda>(d, r). (c # d, r)) (p_digits1 cs) else Some ([], s))"

definition p_exp :: "string \<Rightarrow> (string \<times> string) option" where
  "p_exp s = (case s of
       [] \<Rightarrow> Some ([], s)
     | c # cs \<Rightarrow>
         if c = CHR ''e'' \<or> c = CHR ''E'' then
           (case cs of
              [] \<Rightarrow> None
            | g # r \<Rightarrow>
                if g = CHR ''+'' \<or> g = CHR ''-'' then map_option (\<lambda>(d, r'). (c # g # d, r')) (p_digits1 r)
                else map_option (\<lambda>(d, r'). (c # d, r')) (p_digits1 cs))
         else Some ([], s))"

definition p_num :: "string \<Rightarrow> (string \<times> string) option" where
  "p_num s =
     (let (sg, s0) = (case s of [] \<Rightarrow> ([], s) | c # cs \<Rightarrow> if c = CHR ''-'' then ([c], cs) else ([], s)) in
      case p_int s0 of
        None \<Rightarrow> None
      | Some (i, s1) \<Rightarrow>
          (case p_frac s1 of
             None \<Rightarrow> None
           | Some (f, s2) \<Rightarrow> map_option (\<lambda>(e, s3). (sg @ i @ f @ e, s3)) (p_exp s2)))"

section \<open>Values\<close>

definition max_depth :: nat where
  "max_depth = 10000"

definition p_literal :: "string \<Rightarrow> (json \<times> string) option" where
  "p_literal s =
     (if has_prefix s ''null'' then Some (JNull, drop 4 s)
      else if has_prefix s ''true'' then Some (JBool True, drop 4 s)
      else if has_prefix s ''false'' then Some (JBool False, drop 5 s)
      else map_option (\<lambda>(n, r). (JNum n, r)) (p_num s))"

fun p_val :: "nat \<Rightarrow> nat \<Rightarrow> string \<Rightarrow> (json \<times> string) option"
and p_elems :: "nat \<Rightarrow> nat \<Rightarrow> string \<Rightarrow> (json list \<times> string) option"
and p_members :: "nat \<Rightarrow> nat \<Rightarrow> string \<Rightarrow> ((string \<times> json) list \<times> string) option" where
  "p_val 0 d s = None"
| "p_val (Suc n) d s = (case skip_ws s of
       [] \<Rightarrow> None
     | c # cs \<Rightarrow>
         if c = CHR ''{'' then
           (if max_depth \<le> d then None
            else if has_prefix (skip_ws cs) ''}'' then Some (JObj [], drop 1 (skip_ws cs))
            else map_option (\<lambda>(ms, r). (JObj ms, r)) (p_members n (Suc d) cs))
         else if c = CHR ''['' then
           (if max_depth \<le> d then None
            else if has_prefix (skip_ws cs) '']'' then Some (JArr [], drop 1 (skip_ws cs))
            else map_option (\<lambda>(vs, r). (JArr vs, r)) (p_elems n (Suc d) cs))
         else if c = CHR 0x22 then map_option (\<lambda>(t, r). (JStr t, r)) (p_str cs)
         else p_literal (c # cs))"
| "p_elems 0 d s = None"
| "p_elems (Suc n) d s = (case p_val n d s of
       None \<Rightarrow> None
     | Some (v, r) \<Rightarrow>
         (case skip_ws r of
            [] \<Rightarrow> None
          | c # cs \<Rightarrow>
              if c = CHR '','' then map_option (\<lambda>(vs, r'). (v # vs, r')) (p_elems n d cs)
              else if c = CHR '']'' then Some ([v], cs)
              else None))"
| "p_members 0 d s = None"
| "p_members (Suc n) d s = (case skip_ws s of
       [] \<Rightarrow> None
     | q # qs \<Rightarrow>
         if q \<noteq> CHR 0x22 then None
         else (case p_str qs of
            None \<Rightarrow> None
          | Some (k, r1) \<Rightarrow>
              (case skip_ws r1 of
                 [] \<Rightarrow> None
               | cl # r2 \<Rightarrow>
                   if cl \<noteq> CHR '':'' then None
                   else (case p_val n d r2 of
                      None \<Rightarrow> None
                    | Some (v, r3) \<Rightarrow>
                        (case skip_ws r3 of
                           [] \<Rightarrow> None
                         | c # cs \<Rightarrow>
                             if c = CHR '','' then map_option (\<lambda>(ms, r'). ((k, v) # ms, r')) (p_members n d cs)
                             else if c = CHR ''}'' then Some ([(k, v)], cs)
                             else None)))))"

definition json_parse :: "string \<Rightarrow> json option" where
  "json_parse s = (case p_val (2 * length s + 2) 0 s of
       None \<Rightarrow> None
     | Some (v, r) \<Rightarrow> if skip_ws r = [] then Some v else None)"

definition json_valid :: "string \<Rightarrow> bool" where
  "json_valid s \<longleftrightarrow> json_parse s \<noteq> None"

section \<open>The parser consumes its input and never runs out of fuel\<close>

lemma skip_ws_length: "length (skip_ws s) \<le> length s"
  by (simp add: skip_ws_def length_dropWhile_le)

lemma skip_ws_Cons_length: "skip_ws s = c # cs \<Longrightarrow> length cs < length s"
  using skip_ws_length [of s] by simp

lemma dropWhile_less: "takeWhile P s \<noteq> [] \<Longrightarrow> length (dropWhile P s) < length s"
  by (cases s) (auto simp: length_dropWhile_le le_imp_less_Suc split: if_splits)

lemma p_digits1_length: "p_digits1 s = Some (d, r) \<Longrightarrow> length r < length s"
  by (auto simp: p_digits1_def dropWhile_less split: if_splits)

lemma p_int_length: "p_int s = Some (d, r) \<Longrightarrow> length r < length s"
  using length_dropWhile_le [of is_digit] by (fastforce simp: p_int_def le_imp_less_Suc split: list.splits if_splits)

lemma p_frac_length: "p_frac s = Some (d, r) \<Longrightarrow> length r \<le> length s"
  by (fastforce simp: p_frac_def dest: p_digits1_length split: list.splits if_splits)

lemma p_exp_length: "p_exp s = Some (d, r) \<Longrightarrow> length r \<le> length s"
  by (fastforce simp: p_exp_def dest: p_digits1_length split: list.splits if_splits)

lemma p_num_length: "p_num s = Some (d, r) \<Longrightarrow> length r < length s"
  by (fastforce simp: p_num_def Let_def dest!: p_int_length p_frac_length p_exp_length
      split: list.splits if_splits option.splits)

lemma p_literal_length: "p_literal s = Some (v, r) \<Longrightarrow> length r < length s"
  by (auto simp: p_literal_def has_prefix_iff dest: p_num_length split: if_splits)

lemma p_str_length: "p_str s = Some (t, r) \<Longrightarrow> length r < length s"
proof (induction s arbitrary: t r rule: p_str.induct)
  case (1 s)
  show ?case
  proof (cases s)
    case Nil
    with "1.prems" show ?thesis by (simp add: p_str.simps)
  next
    case (Cons c cs)
    show ?thesis
    proof (cases "c = CHR 0x5C")
      case True
      with "1.prems" Cons obtain out r1 t1 where e: "p_escape cs = Some (out, r1)" and p: "p_str r1 = Some (t1, r)"
        by (auto simp: p_str_Cons split: option.splits if_splits)
      from True p have "length r < length r1" using "1.IH"(1) [OF Cons] e
        by (cases "c = CHR 0x22"; cases "code c < 0x20") (auto simp: code_def)
      with p_escape_length [OF e] Cons show ?thesis by simp
    next
      case False
      show ?thesis
      proof (cases "c = CHR 0x22 \<or> code c < 0x20")
        case True
        with "1.prems" Cons show ?thesis by (auto simp: p_str_Cons split: if_splits)
      next
        case no: False
        obtain rn w where d: "decode_rune c cs = (rn, w)" by (cases "decode_rune c cs")
        with "1.prems" Cons False no obtain t1 where p: "p_str (drop (w - 1) cs) = Some (t1, r)"
          by (auto simp: p_str_Cons)
        have "length r < length (drop (w - 1) cs)"
          using "1.IH"(2) [OF Cons] no False d p by auto
        with Cons show ?thesis by simp
      qed
    qed
  qed
qed

lemma p_length:
  "p_val n d s = Some (v, r) \<Longrightarrow> length r < length s"
  "p_elems n d s = Some (vs, r) \<Longrightarrow> length r + 1 < length s"
  "p_members n d s = Some (ms, r) \<Longrightarrow> length r + 1 < length s"
proof (induction n arbitrary: d s v vs ms r)
  case 0
  { case 1 then show ?case by simp next case 2 then show ?case by simp next case 3 then show ?case by simp }
next
  case (Suc n)
  { case 1
    then show ?case
      using Suc.IH(2,3) skip_ws_length [of s]
      by (fastforce dest!: p_str_length p_literal_length skip_ws_Cons_length
          simp: has_prefix_iff skip_ws_length split: list.splits if_splits) }
  { case 2
    then show ?case
      using Suc.IH(1,2)
      by (fastforce dest!: skip_ws_Cons_length split: list.splits if_splits option.splits) }
  { case 3
    then show ?case
      using Suc.IH(1,3)
      by (fastforce dest!: skip_ws_Cons_length p_str_length split: list.splits if_splits option.splits) }
qed

lemma skip_ws_rest_length: "skip_ws r = c # cs \<Longrightarrow> length r < n \<Longrightarrow> length cs + 1 < n"
  using skip_ws_Cons_length [of r c cs] by simp

text \<open>With enough fuel for the text, more fuel makes no difference.\<close>

lemma p_fuel:
  "2 * length s + 1 \<le> n \<Longrightarrow> 2 * length s + 1 \<le> m \<Longrightarrow> p_val n d s = p_val m d s"
  "2 * length s + 2 \<le> n \<Longrightarrow> 2 * length s + 2 \<le> m \<Longrightarrow> p_elems n d s = p_elems m d s"
  "2 * length s + 2 \<le> n \<Longrightarrow> 2 * length s + 2 \<le> m \<Longrightarrow> p_members n d s = p_members m d s"
proof (induction n arbitrary: d s m)
  case 0
  { case 1 then show ?case by simp next case 2 then show ?case by simp next case 3 then show ?case by simp }
next
  case (Suc n)
  { case 1
    then obtain k where m: "m = Suc k" by (cases m) auto
    show ?case
    proof (cases "skip_ws s")
      case Nil
      then show ?thesis by (simp add: m)
    next
      case (Cons c cs)
      then have "length cs < length s" by (rule skip_ws_Cons_length)
      then have "p_members n (Suc d) cs = p_members k (Suc d) cs" "p_elems n (Suc d) cs = p_elems k (Suc d) cs"
        using 1 m by (auto intro!: Suc.IH)
      with Cons show ?thesis by (simp add: m)
    qed }
  { case 2
    then obtain k where m: "m = Suc k" by (cases m) auto
    have v: "p_val n d s = p_val k d s" using 2 m by (auto intro!: Suc.IH)
    have e: "p_elems n d cs = p_elems k d cs" if "p_val k d s = Some (v, r)" "skip_ws r = c # cs" for v r c cs
      using 2 m skip_ws_Cons_length [OF that(2)] p_length(1) [OF that(1)] by (auto intro!: Suc.IH)
    show ?case
      by (auto simp: m v e split: option.splits list.splits) }
  { case 3
    then obtain k where m: "m = Suc k" by (cases m) auto
    have v: "p_val n d r2 = p_val k d r2" if "length r2 < length s" for r2
      using 3 m that by (auto intro!: Suc.IH)
    have e: "p_members n d cs = p_members k d cs" if "length cs < length s" for cs
      using 3 m that by (auto intro!: Suc.IH)
    have l1: "length r2 < length s" if "skip_ws s = q # qs" "p_str qs = Some (ky, r1)" "skip_ws r1 = cl # r2" for q qs ky r1 cl r2
      using skip_ws_Cons_length [OF that(1)] p_str_length [OF that(2)] skip_ws_Cons_length [OF that(3)] by simp
    have l2: "length cs < length s" if "length r2 < length s" "p_val k d r2 = Some (v, r3)" "skip_ws r3 = c # cs" for r2 v r3 c cs
      using that(1) p_length(1) [OF that(2)] skip_ws_Cons_length [OF that(3)] by simp
    show ?case
    proof (cases "skip_ws s")
      case Nil
      then show ?thesis by (simp add: m)
    next
      case q: (Cons q qs)
      show ?thesis
      proof (cases "q = CHR 0x22 \<and> p_str qs \<noteq> None")
        case False
        with q show ?thesis by (auto simp: m split: option.splits)
      next
        case True
        then obtain ky r1 where ky: "q = CHR 0x22" "p_str qs = Some (ky, r1)" by auto
        show ?thesis
        proof (cases "skip_ws r1")
          case Nil
          with q ky show ?thesis by (simp add: m)
        next
          case cl: (Cons cl r2)
          have lr2: "length r2 < length s" using l1 [OF q ky(2) cl] .
          have vv: "p_val n d r2 = p_val k d r2" by (rule v [OF lr2])
          show ?thesis
          proof (cases "p_val k d r2")
            case None
            with q ky cl vv show ?thesis by (simp add: m)
          next
            case (Some x)
            obtain w r3 where x: "x = (w, r3)" by (cases x)
            have "p_members n d cs = p_members k d cs" if "skip_ws r3 = c # cs" for c cs
              using e l2 [OF lr2 Some [unfolded x] that] by blast
            with q ky cl vv Some x show ?thesis by (auto simp: m split: list.splits)
          qed
        qed
      qed
    qed }
qed

theorem p_val_fuel: "2 * length s + 1 \<le> n \<Longrightarrow> p_val n d s = p_val (2 * length s + 2) d s"
  by (rule p_fuel(1)) auto

section \<open>Filling typed variables\<close>

text \<open>
  A decoder takes the value and the variable's present content and gives the new content, \<open>None\<close>
  for an error.  \<open>null\<close> leaves a string, number, Boolean or struct as it is and makes a slice or a
  map nil.  A struct is filled key by key, in the order of the text; unknown keys are skipped.  Keys
  match under case folding, where the long s and the Kelvin sign fold to ASCII letters.
\<close>

type_synonym 'a decoder = "json \<Rightarrow> 'a \<Rightarrow> 'a option"

definition dec_string :: "string decoder" where
  "dec_string v old = (case v of JNull \<Rightarrow> Some old | JStr s \<Rightarrow> Some s | _ \<Rightarrow> None)"

definition dec_bool :: "bool decoder" where
  "dec_bool v old = (case v of JNull \<Rightarrow> Some old | JBool b \<Rightarrow> Some b | _ \<Rightarrow> None)"

text \<open>A 64-bit integer: a literal with a fraction, an exponent or out of range is an error.\<close>

definition dec_int :: "int decoder" where
  "dec_int v old = (case v of JNull \<Rightarrow> Some old | JNum n \<Rightarrow> atoi n | _ \<Rightarrow> None)"

text \<open>A pointer: \<open>null\<close> makes it nil, anything else is decoded into a fresh variable.\<close>

definition dec_ptr :: "'a \<Rightarrow> 'a decoder \<Rightarrow> ('a option) decoder" where
  "dec_ptr zero dec v old = (case v of JNull \<Rightarrow> Some None
     | _ \<Rightarrow> map_option Some (dec v (case old of None \<Rightarrow> zero | Some x \<Rightarrow> x)))"

text \<open>
  A slice: its elements and what the backing array holds behind them.  An array is decoded over the backing
  array, so an element that a repeated member decodes again keeps the fields it does not name; \<open>null\<close> and
  the empty array start a new one.
\<close>

type_synonym 'a slice = "'a list \<times> 'a list"

fun dec_elems :: "'a \<Rightarrow> 'a decoder \<Rightarrow> json list \<Rightarrow> 'a list \<Rightarrow> 'a slice option" where
  "dec_elems zero dec [] back = Some ([], back)"
| "dec_elems zero dec (v # vs) back =
     (case dec v (case back of [] \<Rightarrow> zero | x # _ \<Rightarrow> x) of
        None \<Rightarrow> None
      | Some x \<Rightarrow> map_option (\<lambda>(xs, spare). (x # xs, spare)) (dec_elems zero dec vs (drop 1 back)))"

definition dec_slice :: "'a \<Rightarrow> 'a decoder \<Rightarrow> ('a slice) decoder" where
  "dec_slice zero dec v old =
     (case v of
        JNull \<Rightarrow> Some ([], [])
      | JArr vs \<Rightarrow> if vs = [] then Some ([], []) else dec_elems zero dec vs (fst old @ snd old)
      | _ \<Rightarrow> None)"

text \<open>Decoding into a fresh variable, of which the program sees the elements.\<close>

definition visible :: "('a slice) decoder \<Rightarrow> ('a list) decoder" where
  "visible dec v old = map_option fst (dec v (old, []))"

fun fold_key :: "string \<Rightarrow> string" where
  "fold_key [] = []"
| "fold_key (c # cs) =
     (if in_range 97 122 (code c) then byte (code c - 32) # fold_key cs
      else if code c = 0xC5 \<and> map code (take 1 cs) = [0xBF] then CHR ''S'' # fold_key (drop 1 cs)
      else if code c = 0xE2 \<and> map code (take 2 cs) = [0x84, 0xAA] then CHR ''K'' # fold_key (drop 2 cs)
      else c # fold_key cs)"

definition key_is :: "string \<Rightarrow> string \<Rightarrow> bool" where
  "key_is key name \<longleftrightarrow> key = name \<or> fold_key key = fold_key name"

fun dec_members :: "(string \<Rightarrow> json \<Rightarrow> 'a \<Rightarrow> 'a option) \<Rightarrow> (string \<times> json) list \<Rightarrow> 'a \<Rightarrow> 'a option" where
  "dec_members f [] old = Some old"
| "dec_members f ((k, v) # ms) old = (case f k v old of None \<Rightarrow> None | Some x \<Rightarrow> dec_members f ms x)"

definition dec_struct :: "(string \<Rightarrow> json \<Rightarrow> 'a \<Rightarrow> 'a option) \<Rightarrow> 'a decoder" where
  "dec_struct f v old = (case v of JNull \<Rightarrow> Some old | JObj ms \<Rightarrow> dec_members f ms old | _ \<Rightarrow> None)"

text \<open>A \<open>map[string]string\<close>: entries are added to the map that is there.\<close>

fun dec_entries :: "(string \<times> json) list \<Rightarrow> (string \<times> string) list \<Rightarrow> (string \<times> string) list option" where
  "dec_entries [] m = Some m"
| "dec_entries ((k, v) # ms) m =
     (case dec_string v [] of None \<Rightarrow> None | Some s \<Rightarrow> dec_entries ms (gset k s m))"

definition dec_string_map :: "((string \<times> string) list) decoder" where
  "dec_string_map v old = (case v of JNull \<Rightarrow> Some [] | JObj ms \<Rightarrow> dec_entries ms old | _ \<Rightarrow> None)"

text \<open>The value whose encoding \<open>json.Marshal\<close> writes for a Go string: an invalid byte becomes U+FFFD.\<close>

definition json_string :: "string \<Rightarrow> json" where
  "json_string s = JStr (map_runes (\<lambda>r. r) s)"

text \<open>\<open>json.Unmarshal\<close> into a variable whose content is \<open>old\<close>.\<close>

definition unmarshal :: "'a decoder \<Rightarrow> string \<Rightarrow> 'a \<Rightarrow> 'a option" where
  "unmarshal dec s old = (case json_parse s of None \<Rightarrow> None | Some v \<Rightarrow> dec v old)"

text \<open>A lower-case member name is only matched by itself, up to case.\<close>

definition plain_key :: "string \<Rightarrow> bool" where
  "plain_key s \<longleftrightarrow> list_all (\<lambda>c. in_range 97 122 (code c) \<or> code c = 95) s"

lemma fold_plain: "plain_key s \<Longrightarrow> fold_key s = map (\<lambda>c. if code c = 95 then c else byte (code c - 32)) s"
  by (induction s) (auto simp: plain_key_def in_range_def)

lemma key_is_plain: "plain_key k \<Longrightarrow> plain_key n \<Longrightarrow> key_is k n \<longleftrightarrow> k = n"
proof
  assume k: "plain_key k" and n: "plain_key n" and "key_is k n"
  have inj: "c = d" if "in_range 97 122 (code c) \<or> code c = 95" and "in_range 97 122 (code d) \<or> code d = 95"
    and "(if code c = 95 then c else byte (code c - 32)) = (if code d = 95 then d else byte (code d - 32))" for c d
  proof -
    have u: "code (if code x = 95 then x else byte (code x - 32)) = (if code x = 95 then 95 else code x - 32)" for x
      by (simp add: less_imp_diff_less)
    have "(if code c = 95 then 95 else code c - 32) = (if code d = 95 then 95 else code d - 32)"
      using arg_cong [OF that(3), of code] unfolding u .
    with that(1,2) have "code c = code d" by (auto simp: in_range_def split: if_splits)
    then show ?thesis by (metis byte_code)
  qed
  from \<open>key_is k n\<close> have "map (\<lambda>c. if code c = 95 then c else byte (code c - 32)) k
      = map (\<lambda>c. if code c = 95 then c else byte (code c - 32)) n \<or> k = n"
    using fold_plain [OF k] fold_plain [OF n] by (auto simp: key_is_def)
  then show "k = n"
  proof
    assume e: "map (\<lambda>c. if code c = 95 then c else byte (code c - 32)) k = map (\<lambda>c. if code c = 95 then c else byte (code c - 32)) n"
    have "inj_on (\<lambda>c. if code c = 95 then c else byte (code c - 32)) (set k \<union> set n)"
    proof (rule inj_onI)
      fix c d
      assume c: "c \<in> set k \<union> set n" and d: "d \<in> set k \<union> set n"
        and e: "(if code c = 95 then c else byte (code c - 32)) = (if code d = 95 then d else byte (code d - 32))"
      show "c = d"
      proof (rule inj [OF _ _ e])
        show "in_range 97 122 (code c) \<or> code c = 95" using c k n by (auto simp: plain_key_def list_all_iff)
        show "in_range 97 122 (code d) \<or> code d = 95" using d k n by (auto simp: plain_key_def list_all_iff)
      qed
    qed
    with e show ?thesis by (rule map_inj_on)
  qed
next
  assume "k = n"
  then show "key_is k n" by (simp add: key_is_def)
qed

lemma dec_string_simps [simp]:
  "dec_string JNull old = Some old" "dec_string (JStr s) old = Some s"
  "dec_string (JBool b) old = None" "dec_string (JNum n) old = None"
  "dec_string (JArr vs) old = None" "dec_string (JObj ms) old = None"
  by (simp_all add: dec_string_def)

lemma dec_slice_simps [simp]:
  "dec_slice z d JNull old = Some ([], [])" "dec_slice z d (JArr []) old = Some ([], [])"
  "dec_slice z d (JArr (v # vs)) old = dec_elems z d (v # vs) (fst old @ snd old)"
  "dec_slice z d (JStr s) old = None" "dec_slice z d (JObj ms) old = None"
  by (simp_all add: dec_slice_def)

lemma dec_struct_simps [simp]:
  "dec_struct f JNull old = Some old" "dec_struct f (JObj ms) old = dec_members f ms old"
  "dec_struct f (JStr s) old = None" "dec_struct f (JArr vs) old = None"
  by (simp_all add: dec_struct_def)

lemma unmarshal_invalid: "\<not> json_valid s \<Longrightarrow> unmarshal dec s old = None"
  by (simp add: unmarshal_def json_valid_def)

lemma length_dec_elems: "dec_elems z d vs old = Some (xs, spare) \<Longrightarrow> length xs = length vs"
  by (induction vs arbitrary: xs old spare) (auto split: option.splits)

text \<open>A member that occurs twice: the second array's element keeps what it does not name.\<close>

lemma dec_elems_reuse: "dec_elems z d [v] [x, y] = map_option (\<lambda>a. ([a], [y])) (d v x)"
  by (simp add: option.map_comp o_def split: option.split)

end
