(* ===== verification/Runtime.thy ===== *)
theory Runtime
  imports Go_Json
begin

text \<open>
  What the program takes from its surroundings.  An environment gives the clock, the network, the
  process environment variables and the few tables of the standard library that are data (which runes
  print, which strings \<open>net/url\<close> refuses, the texts of \<open>encoding/json\<close> errors).  Its state \<open>'w\<close> is
  part of the process state and every call may change it, so answers may differ from call to call.
  The process state is a chain of records: each component extends it by its own package variables.
\<close>

section \<open>HTTP calls\<close>

record http_request =
  rq_method :: string
  rq_url :: string
  rq_host :: string
  rq_headers :: "(string \<times> string) list"
  rq_body :: "json option"
  rq_timeout :: duration

text \<open>
  \<open>http.Client.Do\<close> fails (a transport error, the timeout or a cancelled context), the body cannot
  be read to its end after the status arrived, or there is a status and a body.
\<close>

datatype http_result = Do_Error gerror | Read_Error int gerror | Response int string

record 'w env =
  now_of :: "'w \<Rightarrow> time \<times> 'w"
  http_of :: "http_request \<Rightarrow> 'w \<Rightarrow> http_result \<times> 'w"
  getenv :: "string \<Rightarrow> string"
  is_print :: "nat \<Rightarrow> bool"
  uri_error :: "string \<Rightarrow> gerror option"
  url_error :: "string \<Rightarrow> gerror option"
  json_error :: "string \<Rightarrow> string \<Rightarrow> string"

record 'w proc =
  world :: 'w

definition time_now :: "'w env \<Rightarrow> ('w, 'z) proc_scheme \<Rightarrow> time \<times> ('w, 'z) proc_scheme" where
  "time_now env s = (case now_of env (world s) of (t, w) \<Rightarrow> (t, s\<lparr>world := w\<rparr>))"

definition http_do :: "'w env \<Rightarrow> http_request \<Rightarrow> ('w, 'z) proc_scheme \<Rightarrow> http_result \<times> ('w, 'z) proc_scheme" where
  "http_do env rq s = (case http_of env rq (world s) of (r, w) \<Rightarrow> (r, s\<lparr>world := w\<rparr>))"

text \<open>\<open>json.Unmarshal\<close> with Go's error value; the text of the error is the library's.\<close>

definition json_unmarshal :: "'w env \<Rightarrow> string \<Rightarrow> 'a decoder \<Rightarrow> string \<Rightarrow> 'a \<Rightarrow> gerror + 'a" where
  "json_unmarshal env target dec body zero =
     (case unmarshal dec body zero of
        None \<Rightarrow> Inl (new_error (json_error env target body))
      | Some x \<Rightarrow> Inr x)"

text \<open>\<open>http.NewRequestWithContext\<close> fails when the URL does not parse.\<close>

definition new_request :: "'w env \<Rightarrow> string \<Rightarrow> string \<Rightarrow> json option \<Rightarrow> gerror + http_request" where
  "new_request env meth url body =
     (case url_error env url of
        Some e \<Rightarrow> Inl e
      | None \<Rightarrow> Inr \<lparr>rq_method = meth, rq_url = url, rq_host = [], rq_headers = [], rq_body = body, rq_timeout = 0\<rparr>)"

definition set_header :: "string \<Rightarrow> string \<Rightarrow> http_request \<Rightarrow> http_request" where
  "set_header k v rq = rq\<lparr>rq_headers := gset k v (rq_headers rq)\<rparr>"

section \<open>URLs\<close>

definition is_letter :: "char \<Rightarrow> bool" where
  "is_letter c \<longleftrightarrow> in_range 65 90 (code c) \<or> in_range 97 122 (code c)"

definition to_lower :: "char \<Rightarrow> char" where
  "to_lower c = (if in_range 65 90 (code c) then byte (code c + 32) else c)"

text \<open>The lower-cased scheme \<open>net/url\<close> reads off a URL it accepts.\<close>

definition url_scheme :: "string \<Rightarrow> string" where
  "url_scheme s = (case cut CHR '':'' s of (b, _, found) \<Rightarrow>
     (case b of
        [] \<Rightarrow> []
      | c # cs \<Rightarrow>
          if found \<and> is_letter c
             \<and> list_all (\<lambda>x. is_letter x \<or> is_digit x \<or> x = CHR ''+'' \<or> x = CHR ''-'' \<or> x = CHR ''.'') cs
          then map to_lower b else []))"

definition parse_request_uri :: "'w env \<Rightarrow> string \<Rightarrow> gerror + string" where
  "parse_request_uri env s = (case uri_error env s of Some e \<Rightarrow> Inl e | None \<Rightarrow> Inr (url_scheme s))"

text \<open>\<open>url.PathEscape\<close>: every byte outside the segment alphabet becomes a percent escape.\<close>

definition hex_upper :: "nat \<Rightarrow> char" where
  "hex_upper n = (if n < 10 then byte (48 + n) else byte (55 + n))"

definition segment_char :: "char \<Rightarrow> bool" where
  "segment_char c \<longleftrightarrow> is_letter c \<or> is_digit c \<or> c \<in> set ''-_.~$&+:=@''"

definition path_escape :: "string \<Rightarrow> string" where
  "path_escape s = concat (map (\<lambda>c. if segment_char c then [c]
     else [CHR ''%'', hex_upper (code c div 16), hex_upper (code c mod 16)]) s)"

section \<open>Quoted strings in messages\<close>

definition hex_digits :: "nat \<Rightarrow> nat \<Rightarrow> string" where
  "hex_digits k n = map (\<lambda>i. hex_digit (n div 16 ^ (k - 1 - i) mod 16)) [0..<k]"

text \<open>\<open>strconv.Quote\<close>, the verb \<open>%q\<close>.\<close>

definition quote_rune :: "(nat \<Rightarrow> bool) \<Rightarrow> nat \<times> string \<Rightarrow> string" where
  "quote_rune isp rb = (case rb of (r, b) \<Rightarrow>
     if length b = 1 \<and> r = rune_error then CHR 0x5C # CHR ''x'' # hex_digits 2 (code (hd b))
     else if r = 0x22 \<or> r = 0x5C then CHR 0x5C # b
     else if isp r then b
     else if r = 7 then [CHR 0x5C, CHR ''a'']
     else if r = 8 then [CHR 0x5C, CHR ''b'']
     else if r = 12 then [CHR 0x5C, CHR ''f'']
     else if r = 10 then [CHR 0x5C, CHR ''n'']
     else if r = 13 then [CHR 0x5C, CHR ''r'']
     else if r = 9 then [CHR 0x5C, CHR ''t'']
     else if r = 11 then [CHR 0x5C, CHR ''v'']
     else if r < 32 \<or> r = 127 then CHR 0x5C # CHR ''x'' # hex_digits 2 r
     else if r < 0x10000 then CHR 0x5C # CHR ''u'' # hex_digits 4 r
     else CHR 0x5C # CHR ''U'' # hex_digits 8 r)"

definition quote :: "'w env \<Rightarrow> string \<Rightarrow> string" where
  "quote env s = CHR 0x22 # concat (map (quote_rune (is_print env)) (runes s)) @ [CHR 0x22]"

section \<open>Facts\<close>

lemma time_now_split: "time_now env s = (t, s') \<Longrightarrow> \<exists>w. s' = s\<lparr>world := w\<rparr>"
  by (auto simp: time_now_def split: prod.splits)

lemma http_do_split: "http_do env rq s = (r, s') \<Longrightarrow> \<exists>w. s' = s\<lparr>world := w\<rparr>"
  by (auto simp: http_do_def split: prod.splits)

lemma url_scheme_prefix:
  assumes "url_scheme s = sch" and "sch \<noteq> []"
  shows "\<exists>b a. s = b @ CHR '':'' # a \<and> map to_lower b = sch"
proof -
  obtain b a f where c: "cut CHR '':'' s = (b, a, f)" by (cases "cut CHR '':'' s") auto
  with assms have "f" and "map to_lower b = sch"
    by (auto simp: url_scheme_def split: list.splits if_splits)
  with c show ?thesis using cut_found [of "CHR '':''" s b a] by auto
qed

text \<open>An escaped path segment cannot leave its segment or start a query.\<close>

lemma hex_upper_segment: "n < 16 \<Longrightarrow> segment_char (hex_upper n)"
  by (auto simp: hex_upper_def segment_char_def is_digit_def is_letter_def in_range_def code_def byte_def)

lemma path_escape_chars: "c \<in> set (path_escape s) \<Longrightarrow> segment_char c \<or> c = CHR ''%''"
proof -
  assume "c \<in> set (path_escape s)"
  then obtain x where x: "c = x \<and> segment_char x \<or> c = CHR ''%'' \<or> c = hex_upper (code x div 16) \<or> c = hex_upper (code x mod 16)"
    by (auto simp: path_escape_def split: if_splits)
  have "code x div 16 < 16" by (rule quot_bounds(2))
  with x show ?thesis using hex_upper_segment [of "code x div 16"] hex_upper_segment [of "code x mod 16"] by auto
qed

lemma path_escape_safe: "CHR ''/'' \<notin> set (path_escape s)" "CHR ''?'' \<notin> set (path_escape s)" "CHR ''#'' \<notin> set (path_escape s)"
  using path_escape_chars [of _ s]
  by (fastforce simp: segment_char_def is_letter_def is_digit_def in_range_def code_def)+

end
