(* ===== verification/Logging.thy ===== *)
theory Logging
  imports Runtime
begin

text \<open>
  \<open>internal/logging\<close>: the rate limiter (\<open>allow\<close> and the Every variants), \<open>Redact\<close> and
  \<open>Sanitize\<close>.  The limiter's map is the field \<open>supp\<close>; a line handed to the runner's logger is
  appended to \<open>log_lines\<close>.  The lemmas show that a limited key logs at most once per interval, that
  every suppressed line is accounted for in a later suffix, that the map stays bounded, and that a
  sanitised text is short and free of control bytes.
\<close>

section \<open>Log lines\<close>

datatype level = Debug | Info | Warn | Error

record suppression =
  last_logged :: "time option"   \<comment> \<open>None is the zero time\<close>
  suppressed :: "64 word"

record 'w log_proc = "'w proc" +
  supp :: "(string \<times> suppression) list"
  log_lines :: "(level \<times> string) list"

definition log_prefix :: string where
  "log_prefix = ''[consent-filter] ''"

definition logf :: "level \<Rightarrow> string \<Rightarrow> ('w, 'z) log_proc_scheme \<Rightarrow> ('w, 'z) log_proc_scheme" where
  "logf lvl msg s = s\<lparr>log_lines := log_lines s @ [(lvl, log_prefix @ msg)]\<rparr>"

section \<open>Rate limiting\<close>

definition suppression_interval :: duration where
  "suppression_interval = 10 * second"

definition suppression_key_cap :: nat where
  "suppression_key_cap = 1024"

definition fresh_suppression :: suppression where
  "fresh_suppression = \<lparr>last_logged = None, suppressed = 0\<rparr>"

text \<open>
  The decision of \<open>allow\<close> for a key whose state exists: refuse and count within the interval, else
  report the count and restart.
\<close>

definition allow_state :: "time \<Rightarrow> suppression \<Rightarrow> (bool \<times> 64 word) \<times> suppression" where
  "allow_state now st =
     (if (case last_logged st of None \<Rightarrow> False | Some t \<Rightarrow> time_sub now t < suppression_interval)
      then ((False, 0), st\<lparr>suppressed := suppressed st + 1\<rparr>)
      else ((True, suppressed st), st\<lparr>suppressed := 0, last_logged := Some now\<rparr>))"

definition state_of_key :: "string \<Rightarrow> (string \<times> suppression) list \<Rightarrow> suppression" where
  "state_of_key key m = (case map_of m key of None \<Rightarrow> fresh_suppression | Some st \<Rightarrow> st)"

definition untracked :: "string \<Rightarrow> (string \<times> suppression) list \<Rightarrow> bool" where
  "untracked key m \<longleftrightarrow> map_of m key = None \<and> suppression_key_cap \<le> length m"

definition allow_at :: "string \<Rightarrow> time \<Rightarrow> (string \<times> suppression) list
    \<Rightarrow> (bool \<times> 64 word) \<times> (string \<times> suppression) list" where
  "allow_at key now m =
     (if untracked key m then ((True, 0), m)
      else (case allow_state now (state_of_key key m) of (answer, st) \<Rightarrow> (answer, gset key st m)))"

text \<open>\<open>allow\<close> itself; an untracked key of a full map is answered before the clock is read.\<close>

definition allow :: "'w env \<Rightarrow> string \<Rightarrow> ('w, 'z) log_proc_scheme
    \<Rightarrow> (bool \<times> 64 word) \<times> ('w, 'z) log_proc_scheme" where
  "allow env key s =
     (if untracked key (supp s) then ((True, 0), s)
      else (case time_now env s of
         (now, s1) \<Rightarrow> (case allow_at key now (supp s1) of (answer, m) \<Rightarrow> (answer, s1\<lparr>supp := m\<rparr>))))"

definition suppressed_suffix :: "64 word \<Rightarrow> string" where
  "suppressed_suffix n =
     (if n = 0 then [] else '' ('' @ itoa (uint n) @ '' further occurrence(s) suppressed)'')"

definition log_every :: "'w env \<Rightarrow> level \<Rightarrow> string \<Rightarrow> string
    \<Rightarrow> ('w, 'z) log_proc_scheme \<Rightarrow> ('w, 'z) log_proc_scheme" where
  "log_every env lvl key msg s =
     (case allow env key s of
        ((ok, n), s1) \<Rightarrow> if ok then logf lvl (msg @ suppressed_suffix n) s1 else s1)"

definition ResetSuppression :: "('w, 'z) log_proc_scheme \<Rightarrow> ('w, 'z) log_proc_scheme" where
  "ResetSuppression s = s\<lparr>supp := []\<rparr>"

section \<open>Redaction\<close>

definition Redact :: "string \<Rightarrow> string" where
  "Redact identifier = (if identifier = [] then [] else ''id:'' @ take 8 (hex_encode (sha256 identifier)))"

section \<open>Sanitisation\<close>

definition max_sanitized_length :: nat where
  "max_sanitized_length = 200"

definition sanitized_redaction :: string where
  "sanitized_redaction = ''...(redacted)''"

definition Sanitize :: "string \<Rightarrow> string" where
  "Sanitize message =
     (let cleaned = join '' '' (words_of (map_runes (\<lambda>r. if is_control r then 32 else r) message))
      in if length cleaned > max_sanitized_length
         then take (max_sanitized_length - length sanitized_redaction) cleaned @ sanitized_redaction
         else cleaned)"

section \<open>Logging touches the log, the limiter and the clock only\<close>

lemma allow_split:
  assumes "allow env key s = (a, s')"
  shows "\<exists>w m. s' = s\<lparr>world := w, supp := m\<rparr>"
proof (cases "untracked key (supp s)")
  case True
  with assms have "s' = s\<lparr>world := world s, supp := supp s\<rparr>" by (simp add: allow_def)
  then show ?thesis by blast
next
  case False
  obtain now s1 where t: "time_now env s = (now, s1)" by fastforce
  obtain b m where m: "allow_at key now (supp s1) = (b, m)" by fastforce
  obtain w where "s1 = s\<lparr>world := w\<rparr>" using time_now_split [OF t] by blast
  with assms False t m have "s' = s\<lparr>world := w, supp := m\<rparr>" by (simp add: allow_def)
  then show ?thesis by blast
qed

lemma log_every_split:
  "\<exists>w m l. log_every env lvl key msg s = s\<lparr>world := w, supp := m, log_lines := l\<rparr>"
proof -
  obtain ok n s1 where a: "allow env key s = ((ok, n), s1)" by (metis prod.exhaust)
  then obtain w m where s1: "s1 = s\<lparr>world := w, supp := m\<rparr>" using allow_split by blast
  have "log_every env lvl key msg s = s\<lparr>world := w, supp := m,
      log_lines := (if ok then log_lines s @ [(lvl, log_prefix @ msg @ suppressed_suffix n)] else log_lines s)\<rparr>"
    using a s1 by (simp add: log_every_def logf_def)
  then show ?thesis by blast
qed

section \<open>The rate limiter\<close>

text \<open>A sequence of calls with the instants at which they read the clock, and their answers.\<close>

fun allow_calls :: "(string \<times> time) list \<Rightarrow> (string \<times> suppression) list
    \<Rightarrow> (string \<times> time \<times> bool \<times> 64 word) list \<times> (string \<times> suppression) list" where
  "allow_calls [] m = ([], m)"
| "allow_calls ((k, t) # cs) m =
     (case allow_at k t m of
        ((ok, n), m1) \<Rightarrow> (case allow_calls cs m1 of (os, m2) \<Rightarrow> ((k, t, ok, n) # os, m2)))"

fun logged_times :: "string \<Rightarrow> (string \<times> time \<times> bool \<times> 64 word) list \<Rightarrow> time list" where
  "logged_times k [] = []"
| "logged_times k ((k', t, ok, n) # os) = (if k' = k \<and> ok then t # logged_times k os else logged_times k os)"

fun suppressed_calls :: "string \<Rightarrow> (string \<times> time \<times> bool \<times> 64 word) list \<Rightarrow> 64 word" where
  "suppressed_calls k [] = 0"
| "suppressed_calls k ((k', t, ok, n) # os) = (if k' = k \<and> \<not> ok then 1 else 0) + suppressed_calls k os"

fun reported :: "string \<Rightarrow> (string \<times> time \<times> bool \<times> 64 word) list \<Rightarrow> 64 word" where
  "reported k [] = 0"
| "reported k ((k', t, ok, n) # os) = (if k' = k then n else 0) + reported k os"

lemma allow_state_logs:
  "allow_state now st = ((True, n), st') \<Longrightarrow>
   n = suppressed st \<and> st' = \<lparr>last_logged = Some now, suppressed = 0\<rparr> \<and>
   (\<forall>t. last_logged st = Some t \<longrightarrow> suppression_interval \<le> now - t)"
  using time_sub_lt_iff [of suppression_interval now]
  by (cases st) (auto simp: allow_state_def suppression_interval_def second_def split: if_splits option.splits)

lemma allow_state_suppresses:
  "allow_state now st = ((False, n), st') \<Longrightarrow>
   n = 0 \<and> st' = st\<lparr>suppressed := suppressed st + 1\<rparr>"
  by (auto simp: allow_state_def split: if_splits)

lemma allow_at_other: "k' \<noteq> k \<Longrightarrow> map_of (snd (allow_at k t m)) k' = map_of m k'"
  by (auto simp: allow_at_def split: prod.splits)

lemma allow_at_tracked:
  "map_of m k = Some st \<Longrightarrow> allow_at k t m = (case allow_state t st of (a, st') \<Rightarrow> (a, gset k st' m))"
  by (simp add: allow_at_def untracked_def state_of_key_def)

lemma allow_calls_tracked:
  assumes "map_of m k = Some st"
  shows "successively (\<lambda>a b. suppression_interval \<le> b - a)
           ((case last_logged st of None \<Rightarrow> [] | Some t \<Rightarrow> [t]) @ logged_times k (fst (allow_calls cs m)))
       \<and> suppressed_calls k (fst (allow_calls cs m)) + suppressed st
           = reported k (fst (allow_calls cs m)) + suppressed (state_of_key k (snd (allow_calls cs m)))"
  using assms
proof (induction cs arbitrary: m st)
  case Nil
  then show ?case
    by (auto simp: state_of_key_def split: option.splits)
next
  case (Cons c cs)
  obtain k' t where c: "c = (k', t)" by (cases c)
  obtain ok n m1 where a: "allow_at k' t m = ((ok, n), m1)" by (metis prod.exhaust)
  show ?case
  proof (cases "k' = k")
    case False
    with a Cons.prems have m1: "map_of m1 k = Some st" using allow_at_other [of k k' t m] by simp
    from Cons.IH [OF m1] a c False show ?thesis
      by (auto split: prod.splits)
  next
    case True
    obtain st' where al: "allow_state t st = ((ok, n), st')" and m1: "map_of m1 k = Some st'"
      using a True allow_at_tracked [OF Cons.prems] by (auto split: prod.splits)
    note ih = Cons.IH [OF m1]
    show ?thesis
    proof (cases ok)
      case True
      with al have st': "n = suppressed st" "st' = \<lparr>last_logged = Some t, suppressed = 0\<rparr>"
        and gap: "\<forall>t'. last_logged st = Some t' \<longrightarrow> suppression_interval \<le> t - t'"
        using allow_state_logs by auto
      show ?thesis using ih a c True \<open>k' = k\<close> st' gap
        by (auto simp: algebra_simps
            split: prod.splits option.splits)
    next
      case False
      with al have st': "n = 0" "st' = st\<lparr>suppressed := suppressed st + 1\<rparr>"
        using allow_state_suppresses by auto
      show ?thesis using ih a c False \<open>k' = k\<close> st'
        by (auto simp: algebra_simps
            split: prod.splits option.splits)
    qed
  qed
qed

lemma allow_is_allow_at: "allow env key s = (a, s') \<Longrightarrow> \<exists>t. allow_at key t (supp s) = (a, supp s')"
proof -
  assume a: "allow env key s = (a, s')"
  show ?thesis
  proof (cases "untracked key (supp s)")
    case True
    with a show ?thesis by (simp add: allow_def allow_at_def)
  next
    case False
    obtain t w where "now_of env (world s) = (t, w)" by (cases "now_of env (world s)")
    with a False have "allow_at key t (supp s) = (a, supp s')"
      by (auto simp: allow_def time_now_def split: prod.splits)
    then show ?thesis ..
  qed
qed

lemma allow_at_bounded:
  assumes "wf_map m" and "length m \<le> suppression_key_cap"
  shows "wf_map (snd (allow_at k t m)) \<and> length (snd (allow_at k t m)) \<le> suppression_key_cap"
proof (cases "untracked k m")
  case True
  with assms show ?thesis by (simp add: allow_at_def)
next
  case False
  then have "map_of m k \<noteq> None \<or> length m < suppression_key_cap" by (auto simp: untracked_def)
  then have "length (gset k st m) \<le> suppression_key_cap" for st
    using assms(2) length_gset_old [of m k] length_gset_le [of k st m] by auto
  with assms(1) False show ?thesis by (auto simp: allow_at_def split: prod.splits)
qed

section \<open>Sanitised text\<close>

definition printable_byte :: "char \<Rightarrow> bool" where
  "printable_byte c \<longleftrightarrow> 0x20 \<le> code c \<and> code c \<noteq> 0x7F"

definition single_spaced :: "string \<Rightarrow> bool" where
  "single_spaced s \<longleftrightarrow> successively (\<lambda>x y. \<not> (x = CHR '' '' \<and> y = CHR '' '')) s"

lemma encode_rune_bytes:
  "c \<in> set (encode_rune r) \<Longrightarrow> 0x80 \<le> code c \<or> r < 0x80 \<and> code c = r"
proof -
  assume c: "c \<in> set (encode_rune r)"
  have d: "r < 0x800 \<Longrightarrow> r div 64 < 32" "r < 0x10000 \<Longrightarrow> r div 4096 < 16" "\<not> r > 0x10FFFF \<Longrightarrow> r div 262144 < 5"
    by (simp_all add: less_mult_imp_div_less)
  have m: "r mod 64 < 64" "r div 64 mod 64 < 64" "r div 4096 mod 64 < 64" by simp_all
  show ?thesis using c d m by (auto simp: encode_rune_def split: if_splits)
qed

lemma map_runes_printable:
  assumes "c \<in> set (map_runes (\<lambda>r. if is_control r then 32 else r) s)"
  shows "printable_byte c"
proof -
  obtain r where c: "c \<in> set (encode_rune (if is_control r then 32 else r))"
    using assms by (auto simp: map_runes_def)
  from encode_rune_bytes [OF c] show ?thesis
    by (auto simp: printable_byte_def is_control_def in_range_def split: if_splits)
qed

lemma decode_rune_width: "decode_rune c cs = (r, w) \<Longrightarrow> 1 \<le> w"
  by (auto simp: decode_rune_def Let_def decode2_def decode3_def decode4_def split: if_splits list.splits)

lemma runes_bytes: "(r, b) \<in> set (runes s) \<Longrightarrow> b \<noteq> [] \<and> set b \<subseteq> set s"
proof (induction s rule: runes.induct)
  case 1
  then show ?case by simp
next
  case (2 c cs)
  then show ?case by (auto split: prod.splits dest: in_set_takeD in_set_dropD)
qed

text \<open>The bytes a rune takes after its first are continuation bytes, never ASCII.\<close>

lemma decode2_tail:
  "decode2 b0 (map code (take 3 cs)) = (r, w) \<Longrightarrow> x \<in> set (take (w - 1) cs) \<Longrightarrow> 0x80 \<le> code x"
  by (cases cs) (auto simp: decode2_def in_range_def split: if_splits)

lemma decode3_tail:
  "decode3 lo hi b0 (map code (take 3 cs)) = (r, w) \<Longrightarrow> 0x80 \<le> lo \<Longrightarrow> x \<in> set (take (w - 1) cs) \<Longrightarrow> 0x80 \<le> code x"
  by (cases cs; cases "tl cs") (auto simp: decode3_def in_range_def numeral_3_eq_3 split: if_splits)

lemma decode4_tail:
  "decode4 lo hi b0 (map code (take 3 cs)) = (r, w) \<Longrightarrow> 0x80 \<le> lo \<Longrightarrow> x \<in> set (take (w - 1) cs) \<Longrightarrow> 0x80 \<le> code x"
  by (cases cs; cases "tl cs"; cases "tl (tl cs)")
     (auto simp: decode4_def in_range_def numeral_3_eq_3 split: if_splits)

lemma decode_rune_tail:
  assumes "decode_rune c cs = (r, w)" and "x \<in> set (take (w - 1) cs)"
  shows "0x80 \<le> code x"
proof -
  note d = assms(1) [unfolded decode_rune_def Let_def]
  show ?thesis using d assms(2) decode2_tail [of _ cs r w x] decode3_tail [of _ _ _ cs r w x] decode4_tail [of _ _ _ cs r w x]
    by (simp split: if_splits)
qed

lemma decode_rune_ascii: "code c < 0x80 \<Longrightarrow> decode_rune c cs = (code c, 1)"
  by (simp add: decode_rune_def Let_def)

lemma decode_rune_space:
  assumes "decode_rune c cs = (r, w)" and "CHR '' '' \<in> set (c # take (w - 1) cs)"
  shows "r = 32"
proof -
  have sp: "code (CHR '' '') = 32" by (simp add: code_def)
  with assms decode_rune_tail [OF assms(1), of "CHR '' ''"] have "c = CHR '' ''" by auto
  with assms(1) sp decode_rune_ascii [of c cs] show ?thesis by simp
qed

lemma runes_space: "(r, b) \<in> set (runes s) \<Longrightarrow> CHR '' '' \<in> set b \<Longrightarrow> r = 32"
proof (induction s rule: runes.induct)
  case 1
  then show ?case by simp
next
  case (2 c cs)
  obtain rn w where d: "decode_rune c cs = (rn, w)" by (cases "decode_rune c cs")
  with 2 decode_rune_space [OF d] show ?case by auto
qed

definition spaced_runes :: "(nat \<times> string) list \<Rightarrow> bool" where
  "spaced_runes rs \<longleftrightarrow> list_all (\<lambda>(r, b). b \<noteq> [] \<and> (CHR '' '' \<in> set b \<longrightarrow> r = 32)) rs"

lemma words_acc_parts:
  "spaced_runes rs \<Longrightarrow> CHR '' '' \<notin> set cur \<Longrightarrow> p \<in> set (words_acc rs cur) \<Longrightarrow>
   p \<noteq> [] \<and> CHR '' '' \<notin> set p \<and> set p \<subseteq> set cur \<union> (\<Union>rb\<in>set rs. set (snd rb))"
proof (induction rs cur rule: words_acc.induct)
  case (1 cur)
  then show ?case by (simp split: if_splits)
next
  case (2 r b rs cur)
  from "2.prems"(1) have rs: "spaced_runes rs" and b: "CHR '' '' \<in> set b \<Longrightarrow> r = 32"
    by (auto simp: spaced_runes_def)
  show ?case
  proof (cases "is_space r")
    case True
    then have "p \<in> set (words_acc rs []) \<or> p = cur \<and> cur \<noteq> []"
      using "2.prems"(3) by (auto split: if_splits)
    moreover have "p \<noteq> [] \<and> CHR '' '' \<notin> set p \<and> set p \<subseteq> (\<Union>rb\<in>set rs. set (snd rb))"
      if "p \<in> set (words_acc rs [])"
      using "2.IH"(1,2) True rs that by (cases "cur = []") auto
    ultimately show ?thesis using "2.prems"(2) by auto
  next
    case False
    then have "CHR '' '' \<notin> set (cur @ b)" using b "2.prems"(2) by (auto simp: is_space_def)
    with "2.IH"(3) [OF False rs] "2.prems"(3) False show ?thesis by auto
  qed
qed

lemma spaced_runes_runes: "spaced_runes (runes s)"
  using runes_bytes [of _ _ s] runes_space [of _ _ s] by (auto simp: spaced_runes_def list_all_iff)

lemma words_of_parts:
  assumes "p \<in> set (words_of s)"
  shows "p \<noteq> [] \<and> CHR '' '' \<notin> set p \<and> set p \<subseteq> set s"
proof -
  have "(\<Union>rb\<in>set (runes s). set (snd rb)) \<subseteq> set s" using runes_bytes [of _ _ s] by fastforce
  with words_acc_parts [OF spaced_runes_runes, of "[]" p s] assms show ?thesis
    by (auto simp: words_of_def)
qed

lemma single_spaced_word: "CHR '' '' \<notin> set p \<Longrightarrow> single_spaced p"
  by (induction p rule: induct_list012) (auto simp: single_spaced_def)

lemma single_spaced_join:
  "\<forall>p\<in>set ps. p \<noteq> [] \<and> CHR '' '' \<notin> set p \<Longrightarrow>
   single_spaced (join '' '' ps) \<and> (ps \<noteq> [] \<longrightarrow> hd (join '' '' ps) \<noteq> CHR '' '')"
proof (induction ps)
  case Nil
  then show ?case by (simp add: single_spaced_def)
next
  case (Cons x xs)
  then have x: "x \<noteq> []" "CHR '' '' \<notin> set x" by auto
  then have hx: "hd x \<noteq> CHR '' ''" "last x \<noteq> CHR '' ''" using hd_in_set last_in_set by metis+
  show ?case
  proof (cases "xs = []")
    case True
    with x hx show ?thesis by (simp add: single_spaced_word)
  next
    case False
    with Cons x hx single_spaced_word [OF x(2)] show ?thesis
      by (auto simp: join_Cons single_spaced_def successively_append_iff successively_Cons)
  qed
qed

lemma single_spaced_take: "single_spaced s \<Longrightarrow> single_spaced (take n s)"
  unfolding single_spaced_def by (metis append_take_drop_id successively_append_iff)

lemma cleaned_facts:
  fixes m :: string
  defines "c \<equiv> join '' '' (words_of (map_runes (\<lambda>r. if is_control r then 32 else r) m))"
  shows "single_spaced c" and "\<forall>x\<in>set c. printable_byte x"
proof -
  let ?ws = "words_of (map_runes (\<lambda>r. if is_control r then 32 else r) m)"
  show "single_spaced c" unfolding c_def using single_spaced_join [of ?ws] words_of_parts by blast
  have sp: "printable_byte (CHR '' '')" by (simp add: printable_byte_def code_def)
  show "\<forall>x\<in>set c. printable_byte x"
  proof
    fix x assume "x \<in> set c"
    then have "x = CHR '' '' \<or> (\<exists>w\<in>set ?ws. x \<in> set w)"
      unfolding c_def using set_join [of "'' ''" ?ws] by auto
    then show "printable_byte x"
      using sp words_of_parts map_runes_printable by blast
  qed
qed

section \<open>Claims\<close>

text \<open>
  C40.  A sanitised message has at most 200 bytes, holds no ASCII control byte, and never two adjacent
  spaces, whatever bytes the error text it came from had.
\<close>

theorem Sanitize_safe:
  "length (Sanitize m) \<le> max_sanitized_length \<and> list_all printable_byte (Sanitize m) \<and> single_spaced (Sanitize m)"
proof -
  let ?c = "join '' '' (words_of (map_runes (\<lambda>r. if is_control r then 32 else r) m))"
  have red: "list_all printable_byte sanitized_redaction" "length sanitized_redaction = 13"
    by (simp_all add: sanitized_redaction_def printable_byte_def code_def)
  have tail: "single_spaced (take n ?c @ sanitized_redaction)" for n
    using single_spaced_take [OF cleaned_facts(1), of n m]
    by (auto simp: single_spaced_def sanitized_redaction_def successively_append_iff)
  show ?thesis
    using cleaned_facts [of m] red tail
    by (auto simp: Sanitize_def Let_def max_sanitized_length_def list_all_iff dest: in_set_takeD)
qed

text \<open>
  C38.  For a key the limiter tracks, two logged lines are at least one interval apart, whatever other
  keys are used in between, and the lines it swallowed are all reported in a suffix or still pending
  (as 64-bit counts).
\<close>

theorem rate_limiter_accounts:
  assumes "map_of m k = Some st"
  shows "successively (\<lambda>a b. suppression_interval \<le> b - a) (logged_times k (fst (allow_calls cs m)))
       \<and> suppressed_calls k (fst (allow_calls cs m)) + suppressed st
           = reported k (fst (allow_calls cs m)) + suppressed (state_of_key k (snd (allow_calls cs m)))"
  using allow_calls_tracked [OF assms, of cs]
  by (auto simp: successively_append_iff split: option.splits)

theorem rate_limiter_accounts_witness:
  "map_of [(''k'', fresh_suppression)] ''k'' = Some fresh_suppression \<and>
   logged_times ''k'' (fst (allow_calls [(''k'', 0), (''k'', 1), (''k'', 10 * second)] [(''k'', fresh_suppression)])) = [0, 10 * second] \<and>
   successively (\<lambda>a b. suppression_interval \<le> b - a)
     (logged_times ''k'' (fst (allow_calls [(''k'', 0), (''k'', 1), (''k'', 10 * second)] [(''k'', fresh_suppression)])))"
  using rate_limiter_accounts [of "[(''k'', fresh_suppression)]" "''k''" fresh_suppression "[(''k'', 0), (''k'', 1), (''k'', 10 * second)]"]
  by (simp add: allow_at_def untracked_def suppression_key_cap_def state_of_key_def allow_state_def
      fresh_suppression_def suppression_interval_def second_def time_sub_def gset_def)

end
