(* ===== verification/Consent_Match.thy ===== *)
theory Consent_Match
  imports Logging
begin

text \<open>
  The decision data of \<open>internal/consent\<close>: the question and the verdict (\<open>models.go\<close>), the consent
  receipts of the consent-manager with their JSON decoding, and the matching of one receipt against one
  question (\<open>client.go\<close>).  The lemmas relate the matching loop to a set-based specification of
  when a receipt authorises an access.
\<close>

section \<open>Question and verdict\<close>

datatype decision = DecisionAllow | DecisionDeny

record consent_request =
  Subject :: string
  Resource :: string
  Method :: string
  DataResource :: string
  Consumer :: string
  Purpose :: string

record consent_response =
  Decision :: decision
  Reason :: string

section \<open>Receipts\<close>

record participant_ref =
  ref_ID :: string
  ref_DID :: string
  ref_SelfDescriptionURL :: string
  ref_literal :: string

record purpose_ref =
  purpose_ID :: string
  purpose_Purpose :: string

record consent_record =
  Status :: string
  Data :: "string list"            \<comment> \<open>the resource of each data entry\<close>
  Data_spare :: "string list"      \<comment> \<open>what the slice's array holds behind its elements, while decoding\<close>
  rec_Consumer :: participant_ref
  DataConsumer :: participant_ref
  Recipients :: "string list"
  Recipients_spare :: "string list"
  Purposes :: "purpose_ref list"
  Purposes_spare :: "purpose_ref list"

definition zero_ref :: participant_ref where
  "zero_ref = \<lparr>ref_ID = [], ref_DID = [], ref_SelfDescriptionURL = [], ref_literal = []\<rparr>"

definition zero_purpose :: purpose_ref where
  "zero_purpose = \<lparr>purpose_ID = [], purpose_Purpose = []\<rparr>"

definition zero_record :: consent_record where
  "zero_record = \<lparr>Status = [], Data = [], Data_spare = [], rec_Consumer = zero_ref, DataConsumer = zero_ref,
     Recipients = [], Recipients_spare = [], Purposes = [], Purposes_spare = []\<rparr>"

definition ref_field :: "string \<Rightarrow> json \<Rightarrow> participant_ref \<Rightarrow> participant_ref option" where
  "ref_field k v p =
     (if key_is k ''_id'' then map_option (\<lambda>x. p\<lparr>ref_ID := x\<rparr>) (dec_string v (ref_ID p))
      else if key_is k ''did'' then map_option (\<lambda>x. p\<lparr>ref_DID := x\<rparr>) (dec_string v (ref_DID p))
      else if key_is k ''selfDescriptionURL''
        then map_option (\<lambda>x. p\<lparr>ref_SelfDescriptionURL := x\<rparr>) (dec_string v (ref_SelfDescriptionURL p))
      else Some p)"

text \<open>
  \<open>participantRef.UnmarshalJSON\<close>: a bare string (or null) sets the literal and keeps the rest, an
  object replaces the whole reference.
\<close>

definition dec_participant_ref :: "participant_ref decoder" where
  "dec_participant_ref v p =
     (case dec_string v [] of
        Some lit \<Rightarrow> Some (p\<lparr>ref_literal := lit\<rparr>)
      | None \<Rightarrow> dec_struct ref_field v zero_ref)"

definition resource_field :: "string \<Rightarrow> json \<Rightarrow> string \<Rightarrow> string option" where
  "resource_field k v r = (if key_is k ''resource'' then dec_string v r else Some r)"

definition purpose_field :: "string \<Rightarrow> json \<Rightarrow> purpose_ref \<Rightarrow> purpose_ref option" where
  "purpose_field k v p =
     (if key_is k ''_id'' then map_option (\<lambda>x. p\<lparr>purpose_ID := x\<rparr>) (dec_string v (purpose_ID p))
      else if key_is k ''purpose'' then map_option (\<lambda>x. p\<lparr>purpose_Purpose := x\<rparr>) (dec_string v (purpose_Purpose p))
      else Some p)"

definition record_field :: "string \<Rightarrow> json \<Rightarrow> consent_record \<Rightarrow> consent_record option" where
  "record_field k v r =
     (if key_is k ''status'' then map_option (\<lambda>x. r\<lparr>Status := x\<rparr>) (dec_string v (Status r))
      else if key_is k ''data''
        then map_option (\<lambda>(x, y). r\<lparr>Data := x, Data_spare := y\<rparr>) (dec_slice [] (dec_struct resource_field) v (Data r, Data_spare r))
      else if key_is k ''consumer''
        then map_option (\<lambda>x. r\<lparr>rec_Consumer := x\<rparr>) (dec_participant_ref v (rec_Consumer r))
      else if key_is k ''dataConsumer''
        then map_option (\<lambda>x. r\<lparr>DataConsumer := x\<rparr>) (dec_participant_ref v (DataConsumer r))
      else if key_is k ''recipients''
        then map_option (\<lambda>(x, y). r\<lparr>Recipients := x, Recipients_spare := y\<rparr>) (dec_slice [] dec_string v (Recipients r, Recipients_spare r))
      else if key_is k ''purposes''
        then map_option (\<lambda>(x, y). r\<lparr>Purposes := x, Purposes_spare := y\<rparr>)
          (dec_slice zero_purpose (dec_struct purpose_field) v (Purposes r, Purposes_spare r))
      else Some r)"

text \<open>The reply of the consents lookup is its list of receipts.\<close>

definition consents_field :: "string \<Rightarrow> json \<Rightarrow> consent_record slice \<Rightarrow> consent_record slice option" where
  "consents_field k v rs =
     (if key_is k ''consents'' then dec_slice zero_record (dec_struct record_field) v rs else Some rs)"

definition dec_consents :: "consent_record list decoder" where
  "dec_consents = visible (dec_struct consents_field)"

section \<open>Matching a receipt\<close>

fun matches_any :: "string \<Rightarrow> string list \<Rightarrow> bool" where
  "matches_any identity [] = False"
| "matches_any identity (c # cs) = (if c \<noteq> [] \<and> c = identity then True else matches_any identity cs)"

definition ref_matches :: "participant_ref \<Rightarrow> string \<Rightarrow> bool" where
  "ref_matches p identity =
     (if identity = [] then False
      else matches_any identity [ref_SelfDescriptionURL p, ref_ID p, ref_DID p, ref_literal p])"

definition grantedTo :: "consent_record \<Rightarrow> string \<Rightarrow> bool" where
  "grantedTo r consumer =
     (if ref_matches (rec_Consumer r) consumer \<or> ref_matches (DataConsumer r) consumer then True
      else (case Recipients r of [] \<Rightarrow> False | x # _ \<Rightarrow> x \<noteq> [] \<and> x = consumer))"

fun covers_loop :: "('a \<Rightarrow> bool) \<Rightarrow> 'a list \<Rightarrow> bool" where
  "covers_loop P [] = False"
| "covers_loop P (x # xs) = (if P x then True else covers_loop P xs)"

definition coversPurpose :: "consent_record \<Rightarrow> string \<Rightarrow> bool" where
  "coversPurpose r purpose =
     (if purpose = [] then True
      else covers_loop (\<lambda>p. purpose_Purpose p = purpose \<or> purpose_ID p = purpose) (Purposes r))"

definition coversResource :: "consent_record \<Rightarrow> string \<Rightarrow> bool" where
  "coversResource r dataResource =
     (if dataResource = [] then True else covers_loop (\<lambda>d. d = dataResource) (Data r))"

definition granted_status :: string where
  "granted_status = ''granted''"

text \<open>The loop of \<open>hasGrantedConsent\<close> over the decoded receipts.\<close>

fun any_granted :: "consent_request \<Rightarrow> consent_record list \<Rightarrow> bool" where
  "any_granted req [] = False"
| "any_granted req (r # rs) =
     (if Status r \<noteq> granted_status then any_granted req rs
      else if grantedTo r (Consumer req) \<and> coversPurpose r (Purpose req) \<and> coversResource r (DataResource req)
      then True
      else any_granted req rs)"

definition noGrantedConsentReason :: "consent_request \<Rightarrow> string" where
  "noGrantedConsentReason req =
     ''no granted consent for consumer '' @ Consumer req
       @ (if Purpose req \<noteq> [] then '' and purpose '' @ Purpose req else [])
       @ (if DataResource req \<noteq> [] then '' covering resource '' @ DataResource req else [])"

section \<open>Specification\<close>

text \<open>
  The identities a receipt names as its consumer, and when it authorises a question: granted, naming
  the consumer, and covering the purpose and the resource when the question is scoped by them.
\<close>

definition ref_identities :: "participant_ref \<Rightarrow> string set" where
  "ref_identities p = {ref_SelfDescriptionURL p, ref_ID p, ref_DID p, ref_literal p} - {[]}"

definition consumer_identities :: "consent_record \<Rightarrow> string set" where
  "consumer_identities r =
     ref_identities (rec_Consumer r) \<union> ref_identities (DataConsumer r) \<union> (set (take 1 (Recipients r)) - {[]})"

definition authorizes :: "consent_request \<Rightarrow> consent_record \<Rightarrow> bool" where
  "authorizes req r \<longleftrightarrow>
     Status r = granted_status
     \<and> Consumer req \<in> consumer_identities r
     \<and> (Purpose req = [] \<or> (\<exists>p\<in>set (Purposes r). Purpose req \<in> {purpose_Purpose p, purpose_ID p}))
     \<and> (DataResource req = [] \<or> DataResource req \<in> set (Data r))"

lemma matches_any_iff: "matches_any identity cs \<longleftrightarrow> identity \<noteq> [] \<and> identity \<in> set cs"
  by (induction cs) auto

lemma covers_loop_iff: "covers_loop P xs \<longleftrightarrow> (\<exists>x\<in>set xs. P x)"
  by (induction xs) auto

lemma ref_matches_iff: "ref_matches p identity \<longleftrightarrow> identity \<in> ref_identities p"
  by (auto simp: ref_matches_def matches_any_iff ref_identities_def)

lemma grantedTo_iff: "grantedTo r consumer \<longleftrightarrow> consumer \<in> consumer_identities r"
  by (auto simp: grantedTo_def ref_matches_iff consumer_identities_def split: list.splits)

lemma coversPurpose_iff:
  "coversPurpose r purpose \<longleftrightarrow>
   purpose = [] \<or> (\<exists>p\<in>set (Purposes r). purpose \<in> {purpose_Purpose p, purpose_ID p})"
  by (auto simp: coversPurpose_def covers_loop_iff)

lemma coversResource_iff: "coversResource r d \<longleftrightarrow> d = [] \<or> d \<in> set (Data r)"
  by (auto simp: coversResource_def covers_loop_iff)

lemma any_granted_iff: "any_granted req rs \<longleftrightarrow> (\<exists>r\<in>set rs. authorizes req r)"
  by (induction rs)
     (auto simp: authorizes_def grantedTo_iff coversPurpose_iff coversResource_iff)

lemma authorizes_consumer: "authorizes req r \<Longrightarrow> Consumer req \<noteq> []"
  by (auto simp: authorizes_def consumer_identities_def ref_identities_def dest: in_set_takeD)

end
