(* ===== verification/Consent_Client.thy ===== *)
theory Consent_Client
  imports Consent_Match
begin

text \<open>
  The consent-manager client of \<open>internal/consent/client.go\<close>: its configuration, the three
  package-wide caches (participant credentials, DID to self-description, subject to identifier), and
  every call that reads or fills them.  A cache is a Go map of the process state; \<open>credentials\<close>
  holds its entry's mutex over its HTTP calls, so a call is one step with respect to its own entry.
  Each operation is a function of the environment and the process state and returns the Go result
  (\<open>Inl\<close> the error) with the new state, in the order in which the code calls out.
\<close>

section \<open>Configuration\<close>

record client_config =
  cc_BaseURL :: string
  cc_Host :: string
  cc_APIPrefix :: string
  cc_ConsentKey :: string
  cc_ProviderSD :: string
  cc_ParticipantToken :: string
  cc_TokenServiceURL :: string
  cc_TokenAudience :: string
  cc_TokenTTL :: duration
  cc_TimeoutMs :: int

record client =
  baseURL :: string
  host :: string
  apiPrefix :: string
  consentKey :: string
  providerSD :: string
  staticToken :: string
  tokenServiceURL :: string
  tokenAudience :: string
  tokenTTL :: duration
  timeout :: duration

definition DefaultAPIPrefix :: string where "DefaultAPIPrefix = ''/v1''"
definition DefaultTimeoutMs :: int where "DefaultTimeoutMs = 5000"
definition MinTimeoutMs :: int where "MinTimeoutMs = 1"
definition DefaultTokenTTL :: duration where "DefaultTokenTTL = 50 * 60 * second"
definition token_refresh_skew :: duration where "token_refresh_skew = 60 * second"
definition identifier_cache_ttl :: duration where "identifier_cache_ttl = 60 * second"
definition participant_sd_cache_ttl :: duration where "participant_sd_cache_ttl = 10 * 60 * second"
definition participant_sd_negative_ttl :: duration where "participant_sd_negative_ttl = 30 * second"

definition NewClient :: "client_config \<Rightarrow> client" where
  "NewClient cfg =
     \<lparr>baseURL = cc_BaseURL cfg,
      host = cc_Host cfg,
      apiPrefix = (if cc_APIPrefix cfg = [] then DefaultAPIPrefix else cc_APIPrefix cfg),
      consentKey = cc_ConsentKey cfg,
      providerSD = cc_ProviderSD cfg,
      staticToken = cc_ParticipantToken cfg,
      tokenServiceURL = cc_TokenServiceURL cfg,
      tokenAudience = cc_TokenAudience cfg,
      tokenTTL = (if cc_TokenTTL cfg \<le> 0 then DefaultTokenTTL else cc_TokenTTL cfg),
      timeout = i64 ((if cc_TimeoutMs cfg < MinTimeoutMs then DefaultTimeoutMs else cc_TimeoutMs cfg) * millisecond)\<rparr>"

section \<open>Caches\<close>

record cache_entry =
  ce_token :: string
  ce_tokenExpiry :: time
  ce_providerSD :: string

record identifier_entry =
  ie_userIdentifier :: string
  ie_expiry :: time

record participant_sd_entry =
  pe_selfDescriptionURL :: string
  pe_expiry :: time
  pe_unknown :: bool

record 'w client_proc = "'w log_proc" +
  credCache :: "(string \<times> cache_entry) list"
  participantSDCache :: "(string \<times> participant_sd_entry) list"
  identifierCache :: "(string \<times> identifier_entry) list"

definition zero_entry :: cache_entry where
  "zero_entry = \<lparr>ce_token = [], ce_tokenExpiry = 0, ce_providerSD = []\<rparr>"

definition key_separator :: string where
  "key_separator = [CHR 0x00]"

definition hashSecret :: "string \<Rightarrow> string" where
  "hashSecret secret = (if secret = [] then [] else hex_encode (sha256 secret))"

definition cacheKey :: "client \<Rightarrow> string" where
  "cacheKey c = join key_separator
     [baseURL c, host c, apiPrefix c, tokenAudience c, tokenServiceURL c, providerSD c,
      hashSecret (staticToken c), hashSecret (consentKey c)]"

definition identifierCacheKey :: "client \<Rightarrow> string \<Rightarrow> string \<Rightarrow> string" where
  "identifierCacheKey c sd subject = join key_separator [cacheKey c, sd, subject]"

definition participantCacheKey :: "client \<Rightarrow> string \<Rightarrow> string" where
  "participantCacheKey c did = cacheKey c @ key_separator @ did"

definition ResetCaches :: "('w, 'z) client_proc_scheme \<Rightarrow> ('w, 'z) client_proc_scheme" where
  "ResetCaches s = s\<lparr>credCache := [], participantSDCache := [], identifierCache := []\<rparr>"

text \<open>The entry of a key, created empty when there is none; \<open>set_entry\<close> writes through the pointer.\<close>

definition cred_entry :: "string \<Rightarrow> ('w, 'z) client_proc_scheme \<Rightarrow> cache_entry" where
  "cred_entry k s = (case map_of (credCache s) k of None \<Rightarrow> zero_entry | Some e \<Rightarrow> e)"

definition set_entry :: "string \<Rightarrow> cache_entry \<Rightarrow> ('w, 'z) client_proc_scheme \<Rightarrow> ('w, 'z) client_proc_scheme" where
  "set_entry k e s = s\<lparr>credCache := gset k e (credCache s)\<rparr>"

definition get_or_create :: "string \<Rightarrow> ('w, 'z) client_proc_scheme \<Rightarrow> ('w, 'z) client_proc_scheme" where
  "get_or_create k s = (if map_of (credCache s) k = None then set_entry k zero_entry s else s)"

section \<open>Calls\<close>

definition endpoint :: "client \<Rightarrow> string \<Rightarrow> string" where
  "endpoint c path = trim_right CHR ''/'' (baseURL c) @ apiPrefix c @ path"

text \<open>\<open>do\<close>: the Host override, the call, and the whole body.\<close>

definition client_do :: "'w env \<Rightarrow> client \<Rightarrow> http_request \<Rightarrow> ('w, 'z) client_proc_scheme
    \<Rightarrow> (gerror + int \<times> string) \<times> ('w, 'z) client_proc_scheme" where
  "client_do env c rq s =
     (case http_do env ((if host c \<noteq> [] then rq\<lparr>rq_host := host c\<rparr> else rq)\<lparr>rq_timeout := timeout c\<rparr>) s of
        (Do_Error e, s1) \<Rightarrow> (Inl (errorf_w ''consent client: HTTP request failed: '' e), s1)
      | (Read_Error _ e, s1) \<Rightarrow> (Inl (errorf_w ''consent client: failed to read response body: '' e), s1)
      | (Response status body, s1) \<Rightarrow> (Inr (status, body), s1))"

text \<open>The unexpected status goes into the error, the body only into a rate-limited debug line.\<close>

definition unexpectedStatus :: "'w env \<Rightarrow> string \<Rightarrow> int \<Rightarrow> string \<Rightarrow> ('w, 'z) client_proc_scheme
    \<Rightarrow> gerror \<times> ('w, 'z) client_proc_scheme" where
  "unexpectedStatus env operation status body s =
     (new_error (''consent client: '' @ operation @ '' returned status '' @ itoa status),
      log_every env Debug (''dependency-body:'' @ operation)
        (''consent client: '' @ operation @ '' returned status '' @ itoa status @ '', body: '' @ Sanitize body) s)"

definition unauthorized_error :: gerror where
  "unauthorized_error =
     sentinel_error ParticipantUnauthorized ''consent client: participant token unauthorized''"

definition no_credentials_error :: gerror where
  "no_credentials_error =
     sentinel_error NoCredentials ''consent client: no participant_token and no token_service_url configured''"

definition notRegistered :: "string \<Rightarrow> gerror" where
  "notRegistered did =
     sentinel_error ParticipantNotRegistered
       (''consent client: participant not registered: no participant registered for did '' @ Redact did)"

text \<open>
  The lifetime for which a fetched token is cached, and the reply of the token service with its
  \<open>expires_in\<close> seconds.
\<close>

definition cacheFor :: "duration \<Rightarrow> duration \<Rightarrow> duration" where
  "cacheFor lifetime maxLifetime =
     (let ttl = (if lifetime > 0 \<and> lifetime < maxLifetime then lifetime else maxLifetime)
      in if ttl > token_refresh_skew then ttl - token_refresh_skew else ttl)"

record token_response =
  AccessToken :: string
  TokenType :: string
  ExpiresIn :: int

definition token_field :: "string \<Rightarrow> json \<Rightarrow> token_response \<Rightarrow> token_response option" where
  "token_field k v t =
     (if key_is k ''access_token'' then map_option (\<lambda>x. t\<lparr>AccessToken := x\<rparr>) (dec_string v (AccessToken t))
      else if key_is k ''token_type'' then map_option (\<lambda>x. t\<lparr>TokenType := x\<rparr>) (dec_string v (TokenType t))
      else if key_is k ''expires_in'' then map_option (\<lambda>x. t\<lparr>ExpiresIn := x\<rparr>) (dec_int v (ExpiresIn t))
      else Some t)"

definition dec_token_response :: "token_response decoder" where
  "dec_token_response = dec_struct token_field"

definition fetchToken :: "'w env \<Rightarrow> client \<Rightarrow> ('w, 'z) client_proc_scheme
    \<Rightarrow> (gerror + string \<times> duration) \<times> ('w, 'z) client_proc_scheme" where
  "fetchToken env c s =
     (case new_request env ''POST'' (tokenServiceURL c) (Some (JObj [(''audience'', json_string (tokenAudience c))])) of
        Inl e \<Rightarrow> (Inl (errorf_w ''consent client: failed to create token request: '' e), s)
      | Inr rq \<Rightarrow>
          (case http_do env ((set_header ''Content-Type'' ''application/json'' rq)\<lparr>rq_timeout := timeout c\<rparr>) s of
             (Do_Error e, s1) \<Rightarrow> (Inl (errorf_w ''consent client: token service request failed: '' e), s1)
           | (Read_Error _ e, s1) \<Rightarrow> (Inl (errorf_w ''consent client: failed to read token response: '' e), s1)
           | (Response status body, s1) \<Rightarrow>
               if status \<noteq> 200 then
                 (case unexpectedStatus env ''token service'' status body s1 of (e, s2) \<Rightarrow> (Inl e, s2))
               else
                 (case json_unmarshal env ''tokenResponse'' dec_token_response body \<lparr>AccessToken = [], TokenType = [], ExpiresIn = 0\<rparr> of
                    Inl e \<Rightarrow> (Inl (errorf_w ''consent client: failed to unmarshal token response: '' e), s1)
                  | Inr out \<Rightarrow>
                      if AccessToken out = []
                      then (Inl (new_error ''consent client: token service returned no access token''), s1)
                      else (Inr (AccessToken out, i64 (ExpiresIn out * second)), s1))))"

text \<open>\<open>GET /participants/me\<close>, and any other authenticated GET: the header is the Bearer token.\<close>

definition bearer :: "string \<Rightarrow> http_request \<Rightarrow> http_request" where
  "bearer token rq = set_header ''Authorization'' (''Bearer '' @ token) rq"

definition me_field :: "string \<Rightarrow> json \<Rightarrow> string \<Rightarrow> string option" where
  "me_field k v sd = (if key_is k ''selfDescriptionURL'' then dec_string v sd else Some sd)"

definition fetchProviderSD :: "'w env \<Rightarrow> client \<Rightarrow> string \<Rightarrow> ('w, 'z) client_proc_scheme
    \<Rightarrow> (gerror + string) \<times> ('w, 'z) client_proc_scheme" where
  "fetchProviderSD env c token s =
     (case new_request env ''GET'' (endpoint c ''/participants/me'') None of
        Inl e \<Rightarrow> (Inl (errorf_w ''consent client: failed to create /me request: '' e), s)
      | Inr rq \<Rightarrow>
          (case client_do env c (bearer token rq) s of
             (Inl e, s1) \<Rightarrow> (Inl e, s1)
           | (Inr (status, body), s1) \<Rightarrow>
               if status = 401 then (Inl unauthorized_error, s1)
               else if status \<noteq> 200 then
                 (case unexpectedStatus env ''participant lookup (/me)'' status body s1 of (e, s2) \<Rightarrow> (Inl e, s2))
               else
                 (case json_unmarshal env ''meResponse'' (dec_struct me_field) body [] of
                    Inl e \<Rightarrow> (Inl (errorf_w ''consent client: failed to unmarshal /me response: '' e), s1)
                  | Inr sd \<Rightarrow>
                      if sd = [] then (Inl (new_error ''consent client: /me returned no selfDescriptionURL''), s1)
                      else (Inr sd, s1))))"

text \<open>The two halves of \<open>credentials\<close>, both under the entry's mutex: the token, then the provider.\<close>

definition refresh_token :: "'w env \<Rightarrow> client \<Rightarrow> ('w, 'z) client_proc_scheme
    \<Rightarrow> (gerror + string) \<times> ('w, 'z) client_proc_scheme" where
  "refresh_token env c s =
     (case fetchToken env c s of
        (Inl e, s1) \<Rightarrow> (Inl e, s1)
      | (Inr (fetched, lifetime), s1) \<Rightarrow>
          (case time_now env s1 of
             (now, s2) \<Rightarrow>
               (Inr fetched,
                set_entry (cacheKey c)
                  ((cred_entry (cacheKey c) s2)\<lparr>ce_token := fetched,
                     ce_tokenExpiry := now + cacheFor lifetime (tokenTTL c)\<rparr>) s2)))"

definition participant_token :: "'w env \<Rightarrow> client \<Rightarrow> bool \<Rightarrow> ('w, 'z) client_proc_scheme
    \<Rightarrow> (gerror + string) \<times> ('w, 'z) client_proc_scheme" where
  "participant_token env c forceFetch s =
     (if staticToken c \<noteq> [] then (Inr (staticToken c), s)
      else
        let s0 = (if forceFetch
                  then set_entry (cacheKey c) ((cred_entry (cacheKey c) s)\<lparr>ce_token := []\<rparr>) s else s);
            entry = cred_entry (cacheKey c) s0
        in if ce_token entry = [] then refresh_token env c s0
           else (case time_now env s0 of
                   (now, s1) \<Rightarrow>
                     if ce_tokenExpiry entry < now then refresh_token env c s1
                     else (Inr (ce_token entry), s1)))"

definition provider_sd :: "'w env \<Rightarrow> client \<Rightarrow> string \<Rightarrow> ('w, 'z) client_proc_scheme
    \<Rightarrow> (gerror + string) \<times> ('w, 'z) client_proc_scheme" where
  "provider_sd env c token s =
     (if providerSD c \<noteq> [] then (Inr (providerSD c), s)
      else
        let entry = cred_entry (cacheKey c) s
        in if ce_providerSD entry \<noteq> [] then (Inr (ce_providerSD entry), s)
           else (case fetchProviderSD env c token s of
                   (Inl e, s1) \<Rightarrow> (Inl e, s1)
                 | (Inr sd, s1) \<Rightarrow>
                     (Inr sd, set_entry (cacheKey c) ((cred_entry (cacheKey c) s1)\<lparr>ce_providerSD := sd\<rparr>) s1)))"

definition credentials :: "'w env \<Rightarrow> client \<Rightarrow> bool \<Rightarrow> ('w, 'z) client_proc_scheme
    \<Rightarrow> (gerror + string \<times> string) \<times> ('w, 'z) client_proc_scheme" where
  "credentials env c forceFetch s =
     (if staticToken c \<noteq> [] \<and> providerSD c \<noteq> [] then (Inr (staticToken c, providerSD c), s)
      else if staticToken c = [] \<and> tokenServiceURL c = [] then (Inl no_credentials_error, s)
      else
        (case participant_token env c forceFetch (get_or_create (cacheKey c) s) of
           (Inl e, s1) \<Rightarrow> (Inl e, s1)
         | (Inr token, s1) \<Rightarrow>
             (case provider_sd env c token s1 of
                (Inl e, s2) \<Rightarrow> (Inl e, s2)
              | (Inr sd, s2) \<Rightarrow> (Inr (token, sd), s2))))"

definition ProviderSelfDescription :: "'w env \<Rightarrow> client \<Rightarrow> ('w, 'z) client_proc_scheme
    \<Rightarrow> (gerror + string) \<times> ('w, 'z) client_proc_scheme" where
  "ProviderSelfDescription env c s =
     (case credentials env c False s of
        (Inl e, s1) \<Rightarrow> (Inl e, s1)
      | (Inr (_, sd), s1) \<Rightarrow> (Inr sd, s1))"

section \<open>The participant registry\<close>

record participant_list_entry =
  pl_DID :: string
  pl_SelfDescriptionURL :: string

definition zero_participant :: participant_list_entry where
  "zero_participant = \<lparr>pl_DID = [], pl_SelfDescriptionURL = []\<rparr>"

definition participant_field :: "string \<Rightarrow> json \<Rightarrow> participant_list_entry \<Rightarrow> participant_list_entry option" where
  "participant_field k v p =
     (if key_is k ''did'' then map_option (\<lambda>x. p\<lparr>pl_DID := x\<rparr>) (dec_string v (pl_DID p))
      else if key_is k ''selfDescriptionURL''
        then map_option (\<lambda>x. p\<lparr>pl_SelfDescriptionURL := x\<rparr>) (dec_string v (pl_SelfDescriptionURL p))
      else Some p)"

definition dec_participants :: "participant_list_entry list decoder" where
  "dec_participants = visible (dec_slice zero_participant (dec_struct participant_field))"

definition wrapped_field :: "string \<Rightarrow> json \<Rightarrow> participant_list_entry slice \<Rightarrow> participant_list_entry slice option" where
  "wrapped_field k v ps =
     (if key_is k ''participants'' then dec_slice zero_participant (dec_struct participant_field) v ps else Some ps)"

definition decodeParticipants :: "'w env \<Rightarrow> string \<Rightarrow> gerror + participant_list_entry list" where
  "decodeParticipants env body =
     (case json_unmarshal env ''[]participantListEntry'' dec_participants body [] of
        Inr bare \<Rightarrow> Inr bare
      | Inl _ \<Rightarrow>
          (case json_unmarshal env ''participantsResponse'' (visible (dec_struct wrapped_field)) body [] of
             Inl e \<Rightarrow> Inl (errorf_w ''consent client: failed to unmarshal participants response: '' e)
           | Inr wrapped \<Rightarrow> Inr wrapped))"

fun find_sd :: "string \<Rightarrow> participant_list_entry list \<Rightarrow> string" where
  "find_sd did [] = []"
| "find_sd did (p # ps) =
     (if pl_DID p = did \<and> pl_SelfDescriptionURL p \<noteq> [] then pl_SelfDescriptionURL p else find_sd did ps)"

definition lookupParticipantSD :: "'w env \<Rightarrow> client \<Rightarrow> string \<Rightarrow> bool \<Rightarrow> ('w, 'z) client_proc_scheme
    \<Rightarrow> (gerror + string) \<times> ('w, 'z) client_proc_scheme" where
  "lookupParticipantSD env c did forceLogin s =
     (case credentials env c forceLogin s of
        (Inl e, s1) \<Rightarrow> (Inl e, s1)
      | (Inr (token, _), s1) \<Rightarrow>
          (case new_request env ''GET'' (endpoint c ''/participants'') None of
             Inl e \<Rightarrow> (Inl (errorf_w ''consent client: failed to create participants request: '' e), s1)
           | Inr rq \<Rightarrow>
               (case client_do env c (bearer token rq) s1 of
                  (Inl e, s2) \<Rightarrow> (Inl e, s2)
                | (Inr (status, body), s2) \<Rightarrow>
                    if status = 401 then (Inl unauthorized_error, s2)
                    else if status \<noteq> 200 then
                      (case unexpectedStatus env ''participants lookup'' status body s2 of (e, s3) \<Rightarrow> (Inl e, s3))
                    else
                      (case decodeParticipants env body of
                         Inl e \<Rightarrow> (Inl e, s2)
                       | Inr participants \<Rightarrow> (Inr (find_sd did participants), s2)))))"

text \<open>A 401 is retried once with a fresh token, unless the token is static.\<close>

definition lookup_with_retry :: "'w env \<Rightarrow> client \<Rightarrow> string \<Rightarrow> ('w, 'z) client_proc_scheme
    \<Rightarrow> (gerror + string) \<times> ('w, 'z) client_proc_scheme" where
  "lookup_with_retry env c did s =
     (case lookupParticipantSD env c did False s of
        (Inl e, s1) \<Rightarrow>
          if errors_is e ParticipantUnauthorized \<and> staticToken c = []
          then lookupParticipantSD env c did True s1 else (Inl e, s1)
      | (Inr sd, s1) \<Rightarrow> (Inr sd, s1))"

text \<open>
  The self-description cache: a positive or a negative answer (\<open>None\<close>) with its own lifetime.
\<close>

definition sd_ttl :: "string option \<Rightarrow> duration" where
  "sd_ttl answer = (case answer of None \<Rightarrow> participant_sd_negative_ttl | Some _ \<Rightarrow> participant_sd_cache_ttl)"

definition sd_put :: "string \<Rightarrow> string option \<Rightarrow> time \<Rightarrow> (string \<times> participant_sd_entry) list
    \<Rightarrow> (string \<times> participant_sd_entry) list" where
  "sd_put k answer now m =
     gset k (case answer of
         None \<Rightarrow> \<lparr>pe_selfDescriptionURL = [], pe_expiry = now + sd_ttl None, pe_unknown = True\<rparr>
       | Some sd \<Rightarrow> \<lparr>pe_selfDescriptionURL = sd, pe_expiry = now + sd_ttl (Some sd), pe_unknown = False\<rparr>) m"

definition sd_entry_get :: "time \<Rightarrow> participant_sd_entry \<Rightarrow> string option option" where
  "sd_entry_get now e =
     (if now < pe_expiry e then Some (if pe_unknown e then None else Some (pe_selfDescriptionURL e)) else None)"

definition fill_participant_sd :: "'w env \<Rightarrow> client \<Rightarrow> string \<Rightarrow> ('w, 'z) client_proc_scheme
    \<Rightarrow> (gerror + string) \<times> ('w, 'z) client_proc_scheme" where
  "fill_participant_sd env c did s =
     (case lookup_with_retry env c did s of
        (Inl e, s1) \<Rightarrow>
          if errors_is e ParticipantUnauthorized
          then (Inl (new_error ''consent client: participant token rejected (401) on participants lookup''), s1)
          else (Inl e, s1)
      | (Inr sd, s1) \<Rightarrow>
          (case time_now env s1 of
             (now, s2) \<Rightarrow>
               let answer = (if sd = [] then None else Some sd);
                   s3 = s2\<lparr>participantSDCache := sd_put (participantCacheKey c did) answer now (participantSDCache s2)\<rparr>
               in (case answer of None \<Rightarrow> (Inl (notRegistered did), s3) | Some _ \<Rightarrow> (Inr sd, s3))))"

definition ParticipantSelfDescriptionByDID :: "'w env \<Rightarrow> client \<Rightarrow> string \<Rightarrow> ('w, 'z) client_proc_scheme
    \<Rightarrow> (gerror + string) \<times> ('w, 'z) client_proc_scheme" where
  "ParticipantSelfDescriptionByDID env c did s =
     (if did = [] then (Inl (new_error ''consent client: empty participant did''), s)
      else (case map_of (participantSDCache s) (participantCacheKey c did) of
          None \<Rightarrow> fill_participant_sd env c did s
        | Some entry \<Rightarrow>
            (case time_now env s of
               (now, s1) \<Rightarrow>
                 (case sd_entry_get now entry of
                    Some None \<Rightarrow> (Inl (notRegistered did), s1)
                  | Some (Some sd) \<Rightarrow> (Inr sd, s1)
                  | None \<Rightarrow> fill_participant_sd env c did s1))))"

section \<open>The consent check\<close>

text \<open>Only a positive identifier is cached.\<close>

definition id_put :: "string \<Rightarrow> string \<Rightarrow> time \<Rightarrow> (string \<times> identifier_entry) list
    \<Rightarrow> (string \<times> identifier_entry) list" where
  "id_put k u now m = gset k \<lparr>ie_userIdentifier = u, ie_expiry = now + identifier_cache_ttl\<rparr> m"

definition id_entry_get :: "time \<Rightarrow> identifier_entry \<Rightarrow> string option" where
  "id_entry_get now e = (if now < ie_expiry e then Some (ie_userIdentifier e) else None)"

definition identifier_field :: "string \<Rightarrow> json \<Rightarrow> string \<Rightarrow> string option" where
  "identifier_field k v u = (if key_is k ''userIdentifier'' then dec_string v u else Some u)"

definition identifier_request :: "client \<Rightarrow> string \<Rightarrow> http_request \<Rightarrow> http_request" where
  "identifier_request c token rq =
     (let rq1 = set_header ''Content-Type'' ''application/json'' rq;
          rq2 = (if consentKey c \<noteq> [] then set_header ''x-visionstrust-consent-key'' (consentKey c) rq1 else rq1)
      in if token \<noteq> [] then bearer token rq2 else rq2)"

definition search_identifier :: "'w env \<Rightarrow> client \<Rightarrow> string \<Rightarrow> string \<Rightarrow> string \<Rightarrow> ('w, 'z) client_proc_scheme
    \<Rightarrow> (gerror + string option) \<times> ('w, 'z) client_proc_scheme" where
  "search_identifier env c subject sd token s =
     (case new_request env ''POST'' (endpoint c ''/users/identifier/search'')
             (Some (JObj [(''email'', json_string subject), (''selfDescription'', json_string sd)])) of
        Inl e \<Rightarrow> (Inl (errorf_w ''consent client: failed to create identifier search request: '' e), s)
      | Inr rq \<Rightarrow>
          (case client_do env c (identifier_request c token rq) s of
             (Inl e, s1) \<Rightarrow> (Inl e, s1)
           | (Inr (status, body), s1) \<Rightarrow>
               if status = 404 then (Inr None, s1)
               else if status = 401 then (Inl unauthorized_error, s1)
               else if status \<noteq> 200 then
                 (case unexpectedStatus env ''identifier search'' status body s1 of (e, s2) \<Rightarrow> (Inl e, s2))
               else
                 (case json_unmarshal env ''identifierSearchResponse'' (dec_struct identifier_field) body [] of
                    Inl e \<Rightarrow> (Inl (errorf_w ''consent client: failed to unmarshal identifier search response: '' e), s1)
                  | Inr u \<Rightarrow>
                      if u = [] then (Inr None, s1)
                      else (case time_now env s1 of
                              (now, s2) \<Rightarrow>
                                (Inr (Some u),
                                 s2\<lparr>identifierCache := id_put (identifierCacheKey c sd subject) u now (identifierCache s2)\<rparr>)))))"

definition resolveUserIdentifier :: "'w env \<Rightarrow> client \<Rightarrow> string \<Rightarrow> string \<Rightarrow> string \<Rightarrow> ('w, 'z) client_proc_scheme
    \<Rightarrow> (gerror + string option) \<times> ('w, 'z) client_proc_scheme" where
  "resolveUserIdentifier env c subject sd token s =
     (case map_of (identifierCache s) (identifierCacheKey c sd subject) of
        None \<Rightarrow> search_identifier env c subject sd token s
      | Some entry \<Rightarrow>
          (case time_now env s of
             (now, s1) \<Rightarrow>
               (case id_entry_get now entry of
                  Some u \<Rightarrow> (Inr (Some u), s1)
                | None \<Rightarrow> search_identifier env c subject sd token s1)))"

definition consents_url :: "client \<Rightarrow> string \<Rightarrow> string" where
  "consents_url c userIdentifier =
     endpoint c (''/consents/participants/'' @ path_escape userIdentifier) @ ''?receipt=true''"

definition hasGrantedConsent :: "'w env \<Rightarrow> client \<Rightarrow> string \<Rightarrow> string \<Rightarrow> consent_request
    \<Rightarrow> ('w, 'z) client_proc_scheme \<Rightarrow> (gerror + bool) \<times> ('w, 'z) client_proc_scheme" where
  "hasGrantedConsent env c token userIdentifier req s =
     (case new_request env ''GET'' (consents_url c userIdentifier) None of
        Inl e \<Rightarrow> (Inl (errorf_w ''consent client: failed to create consents request: '' e), s)
      | Inr rq \<Rightarrow>
          (case client_do env c (bearer token rq) s of
             (Inl e, s1) \<Rightarrow> (Inl e, s1)
           | (Inr (status, body), s1) \<Rightarrow>
               if status = 401 then (Inl unauthorized_error, s1)
               else if status \<noteq> 200 then
                 (case unexpectedStatus env ''consents lookup'' status body s1 of (e, s2) \<Rightarrow> (Inl e, s2))
               else
                 (case json_unmarshal env ''participantConsentsResponse'' dec_consents body [] of
                    Inl e \<Rightarrow> (Inl (errorf_w ''consent client: failed to unmarshal consents response: '' e), s1)
                  | Inr consents \<Rightarrow> (Inr (any_granted req consents), s1))))"

definition check :: "'w env \<Rightarrow> client \<Rightarrow> consent_request \<Rightarrow> bool \<Rightarrow> ('w, 'z) client_proc_scheme
    \<Rightarrow> (gerror + consent_response) \<times> ('w, 'z) client_proc_scheme" where
  "check env c req forceLogin s =
     (case credentials env c forceLogin s of
        (Inl e, s1) \<Rightarrow> (Inl e, s1)
      | (Inr (token, sd), s1) \<Rightarrow>
          (case resolveUserIdentifier env c (Subject req) sd token s1 of
             (Inl e, s2) \<Rightarrow> (Inl e, s2)
           | (Inr None, s2) \<Rightarrow>
               (Inr \<lparr>Decision = DecisionDeny, Reason = ''no user identifier for subject''\<rparr>, s2)
           | (Inr (Some userIdentifier), s2) \<Rightarrow>
               (case hasGrantedConsent env c token userIdentifier req s2 of
                  (Inl e, s3) \<Rightarrow> (Inl e, s3)
                | (Inr True, s3) \<Rightarrow> (Inr \<lparr>Decision = DecisionAllow, Reason = []\<rparr>, s3)
                | (Inr False, s3) \<Rightarrow>
                    (Inr \<lparr>Decision = DecisionDeny, Reason = noGrantedConsentReason req\<rparr>, s3))))"

definition check_with_retry :: "'w env \<Rightarrow> client \<Rightarrow> consent_request \<Rightarrow> ('w, 'z) client_proc_scheme
    \<Rightarrow> (gerror + consent_response) \<times> ('w, 'z) client_proc_scheme" where
  "check_with_retry env c req s =
     (case check env c req False s of
        (Inl e, s1) \<Rightarrow>
          if errors_is e ParticipantUnauthorized \<and> staticToken c = []
          then check env c req True s1 else (Inl e, s1)
      | (Inr resp, s1) \<Rightarrow> (Inr resp, s1))"

definition CheckConsent :: "'w env \<Rightarrow> client \<Rightarrow> consent_request \<Rightarrow> ('w, 'z) client_proc_scheme
    \<Rightarrow> (gerror + consent_response) \<times> ('w, 'z) client_proc_scheme" where
  "CheckConsent env c req s =
     (if Subject req = [] then
        (Inr \<lparr>Decision = DecisionDeny, Reason = ''no subject in request''\<rparr>, s)
      else if Consumer req = [] then
        (Inr \<lparr>Decision = DecisionDeny, Reason = ''no consuming participant identified''\<rparr>, s)
      else (case check_with_retry env c req s of
          (Inl e, s1) \<Rightarrow>
            if errors_is e ParticipantUnauthorized
            then (Inl (new_error ''consent client: participant token rejected (401)''), s1)
            else (Inl e, s1)
        | (Inr resp, s1) \<Rightarrow> (Inr resp, s1)))"

end
