(* ===== verification/Phase_Store.thy ===== *)
theory Phase_Store
  imports Prelude
begin

text \<open>
  The interface between the two phases of a request: the request phase puts a value under the
  request's key, the response phase takes it.  A provider may lose entries (it is bounded) but may not
  confuse, repeat or outlive them.  The lemmas hold for every history of puts and takes: what a take
  returns is the newest value put under its own key, not taken since, and not older than the lifetime.
\<close>

datatype ('k, 'c) store_op = Put 'k 'c time | Take 'k time

primrec op_key :: "('k, 'c) store_op \<Rightarrow> 'k" where
  "op_key (Put k c t) = k"
| "op_key (Take k t) = k"

locale phase_store =
  fixes inv :: "'m \<Rightarrow> bool"
    and put :: "'k \<Rightarrow> 'c \<Rightarrow> time \<Rightarrow> 'm \<Rightarrow> 'm"
    and take :: "'k \<Rightarrow> time \<Rightarrow> 'm \<Rightarrow> 'c option \<times> 'm"
    and empty :: 'm
    and ttl :: duration
  assumes inv_empty: "inv empty"
    and inv_put: "inv m \<Longrightarrow> inv (put k c t m)"
    and inv_take: "inv m \<Longrightarrow> inv (snd (take k t m))"
    and take_empty: "fst (take k t empty) = None"
    and take_put_same: "inv m \<Longrightarrow> fst (take k t (put k c t0 m)) = (if t - t0 \<le> ttl then Some c else None)"
    and take_put_other: "inv m \<Longrightarrow> k \<noteq> k' \<Longrightarrow>
      fst (take k t (put k' c t0 m)) = None \<or> fst (take k t (put k' c t0 m)) = fst (take k t m)"
    and take_again: "inv m \<Longrightarrow> fst (take k t (snd (take k t' m))) = None"
    and take_other: "inv m \<Longrightarrow> k \<noteq> k' \<Longrightarrow> fst (take k t (snd (take k' t' m))) = fst (take k t m)"
begin

primrec perform :: "('k, 'c) store_op \<Rightarrow> 'm \<Rightarrow> 'm" where
  "perform (Put k c t) m = put k c t m"
| "perform (Take k t) m = snd (take k t m)"

definition history :: "('k, 'c) store_op list \<Rightarrow> 'm" where
  "history ops = foldl (\<lambda>m p. perform p m) empty ops"

lemma history_snoc: "history (ops @ [p]) = perform p (history ops)"
  by (simp add: history_def)

lemma inv_history: "inv (history ops)"
proof (induction ops rule: rev_induct)
  case Nil
  then show ?case by (simp add: history_def inv_empty)
next
  case (snoc p ops)
  then show ?case by (cases p) (simp_all add: history_snoc inv_put inv_take)
qed

lemma taken_was_put:
  "fst (take k t (history ops)) = Some c \<Longrightarrow>
   \<exists>ps qs t0. ops = ps @ Put k c t0 # qs \<and> k \<notin> op_key ` set qs \<and> t - t0 \<le> ttl"
proof (induction ops rule: rev_induct)
  case Nil
  then show ?case by (simp add: history_def take_empty)
next
  case (snoc p ops)
  note i = inv_history [of ops]
  have extend: ?case if "fst (take k t (history ops)) = Some c" and "op_key p \<noteq> k"
  proof -
    from snoc.IH [OF that(1)] obtain ps qs t0 where "ops = ps @ Put k c t0 # qs" "k \<notin> op_key ` set qs" "t - t0 \<le> ttl"
      by blast
    with that(2) show ?thesis by (intro exI [of _ ps] exI [of _ "qs @ [p]"] exI [of _ t0]) auto
  qed
  show ?case
  proof (cases p)
    case (Put k' c' t0)
    show ?thesis
    proof (cases "k' = k")
      case True
      with snoc.prems Put i have "c' = c \<and> t - t0 \<le> ttl"
        by (simp add: history_snoc take_put_same split: if_splits)
      with True Put show ?thesis by (intro exI [of _ ops] exI [of _ "[]"] exI [of _ t0]) simp
    next
      case False
      with snoc.prems Put take_put_other [OF i, of k k' t c' t0] show ?thesis
        by (intro extend) (auto simp: history_snoc)
    qed
  next
    case (Take k' t')
    show ?thesis
    proof (cases "k' = k")
      case True
      with snoc.prems Take i show ?thesis by (simp add: history_snoc take_again)
    next
      case False
      with snoc.prems Take i show ?thesis by (intro extend) (simp_all add: history_snoc take_other)
    qed
  qed
qed

text \<open>A value just put is there for its own key, whatever the history.\<close>

lemma put_then_take: "t - t0 \<le> ttl \<Longrightarrow> fst (take k t (put k c t0 (history ops))) = Some c"
  using take_put_same [OF inv_history] by simp

end

end
