(* ===== verification/Context_Store.thy ===== *)
theory Context_Store
  imports Consent_Client Phase_Store
begin

text \<open>
  The request-context store of \<open>internal/plugin/context.go\<close>: the map that bridges the two phases of
  a request, its lifetime and cap, the eviction of expired and of oldest entries, and the counters.
  The functions that run under the mutex are pure functions of the store; the exported operations
  read the clock, write the log and update the process state.
\<close>

section \<open>State\<close>

record request_context =
  rc_Method :: string
  rc_Path :: string
  rc_JWTClaims :: "(string \<times> json) list"

record stored_context =
  sc_ctx :: request_context
  storedAt :: time

record context_store =
  requestContextStore :: "(string \<times> stored_context) list"
  contextsEvicted :: "64 word"

record 'w store_proc = "'w client_proc" +
  store :: context_store
  janitorStarted :: bool

definition RequestContextTTL :: duration where "RequestContextTTL = 60 * second"
definition MaxRequestContexts :: nat where "MaxRequestContexts = 100000"
definition contextEvictionBatch :: nat where "contextEvictionBatch = MaxRequestContexts div 100"

definition empty_store :: context_store where
  "empty_store = \<lparr>requestContextStore = [], contextsEvicted = 0\<rparr>"

section \<open>Under the mutex\<close>

definition outlived :: "time \<Rightarrow> stored_context \<Rightarrow> bool" where
  "outlived now e \<longleftrightarrow> time_sub now (storedAt e) > RequestContextTTL"

definition sweepLocked :: "time \<Rightarrow> context_store \<Rightarrow> nat \<times> context_store" where
  "sweepLocked now st =
     (let n = length (filter (\<lambda>(_, e). outlived now e) (requestContextStore st))
      in (n, st\<lparr>requestContextStore := filter (\<lambda>(_, e). \<not> outlived now e) (requestContextStore st),
                contextsEvicted := contextsEvicted st + word_of_nat n\<rparr>))"

text \<open>
  The sort orders by the time of storing; entries stored at the same instant keep the order in which
  the map was enumerated.
\<close>

definition evictOldestLocked :: "nat \<Rightarrow> context_store \<Rightarrow> nat \<times> context_store" where
  "evictOldestLocked batch st =
     (if batch = 0 \<or> requestContextStore st = [] then (0, st)
      else
        let entries = sort_key (\<lambda>(_, e). storedAt e) (requestContextStore st);
            b = (if batch > length entries then length entries else batch)
        in (b, st\<lparr>requestContextStore := foldl (\<lambda>m (k, _). gdel k m) (requestContextStore st) (take b entries),
                  contextsEvicted := contextsEvicted st + word_of_nat b\<rparr>))"

text \<open>What \<open>evictForSpaceLocked\<close> did, which decides what it logs.\<close>

datatype eviction = Expired nat | Oldest nat | Nothing

definition make_room :: "time \<Rightarrow> context_store \<Rightarrow> eviction \<times> context_store" where
  "make_room now st =
     (case sweepLocked now st of
        (n, st1) \<Rightarrow>
          if n > 0 then (Expired n, st1)
          else (case evictOldestLocked contextEvictionBatch st1 of
                  (m, st2) \<Rightarrow> (if m > 0 then Oldest m else Nothing, st2)))"

definition store_put :: "string \<Rightarrow> request_context \<Rightarrow> time \<Rightarrow> context_store \<Rightarrow> eviction \<times> context_store" where
  "store_put requestKey ctx now st =
     (case (if MaxRequestContexts \<le> length (requestContextStore st) \<and> map_of (requestContextStore st) requestKey = None
            then make_room now st else (Nothing, st)) of
        (ev, st1) \<Rightarrow>
          (ev, st1\<lparr>requestContextStore :=
                 gset requestKey \<lparr>sc_ctx = ctx, storedAt = now\<rparr> (requestContextStore st1)\<rparr>))"

definition store_take :: "string \<Rightarrow> time \<Rightarrow> context_store \<Rightarrow> request_context option \<times> context_store" where
  "store_take requestKey now st =
     (case map_of (requestContextStore st) requestKey of
        None \<Rightarrow> (None, st)
      | Some entry \<Rightarrow>
          let st1 = st\<lparr>requestContextStore := gdel requestKey (requestContextStore st)\<rparr>
          in if outlived now entry then (None, st1\<lparr>contextsEvicted := contextsEvicted st1 + 1\<rparr>)
             else (Some (sc_ctx entry), st1))"

section \<open>The exported operations\<close>

definition log_eviction :: "'w env \<Rightarrow> eviction \<Rightarrow> ('w, 'z) store_proc_scheme \<Rightarrow> ('w, 'z) store_proc_scheme" where
  "log_eviction env ev s =
     (case ev of
        Expired n \<Rightarrow>
          log_every env Warn ''context-store-full''
            (''request-context store full ('' @ show_nat MaxRequestContexts @ ''), evicted ''
               @ show_nat n @ '' expired entr(ies)'') s
      | Oldest n \<Rightarrow>
          log_every env Error ''context-store-overflow''
            (''request-context store full ('' @ show_nat MaxRequestContexts
               @ '') with no expired entries, evicted the '' @ show_nat n @ '' oldest'') s
      | Nothing \<Rightarrow> s)"

definition StoreRequestContext :: "'w env \<Rightarrow> string \<Rightarrow> request_context
    \<Rightarrow> ('w, 'z) store_proc_scheme \<Rightarrow> ('w, 'z) store_proc_scheme" where
  "StoreRequestContext env requestKey ctx s =
     (case time_now env (s\<lparr>janitorStarted := True\<rparr>) of
        (now, s1) \<Rightarrow>
          (case store_put requestKey ctx now (store s1) of
             (ev, st) \<Rightarrow> log_eviction env ev (s1\<lparr>store := st\<rparr>)))"

definition LoadAndDeleteRequestContext :: "'w env \<Rightarrow> string \<Rightarrow> ('w, 'z) store_proc_scheme
    \<Rightarrow> request_context option \<times> ('w, 'z) store_proc_scheme" where
  "LoadAndDeleteRequestContext env requestKey s =
     (if map_of (requestContextStore (store s)) requestKey = None then (None, s)
      else (case time_now env s of
              (now, s1) \<Rightarrow>
                (case store_take requestKey now (store s1) of (r, st) \<Rightarrow> (r, s1\<lparr>store := st\<rparr>))))"

definition RequestContextStoreSize :: "('w, 'z) store_proc_scheme \<Rightarrow> nat" where
  "RequestContextStoreSize s = length (requestContextStore (store s))"

definition RequestContextsEvicted :: "('w, 'z) store_proc_scheme \<Rightarrow> 64 word" where
  "RequestContextsEvicted s = contextsEvicted (store s)"

definition sweepRequestContexts :: "time \<Rightarrow> ('w, 'z) store_proc_scheme \<Rightarrow> nat \<times> ('w, 'z) store_proc_scheme" where
  "sweepRequestContexts now s = (case sweepLocked now (store s) of (n, st) \<Rightarrow> (n, s\<lparr>store := st\<rparr>))"

text \<open>One tick of the janitor, which runs once the first context has been stored.\<close>

definition janitor_tick :: "'w env \<Rightarrow> ('w, 'z) store_proc_scheme \<Rightarrow> ('w, 'z) store_proc_scheme" where
  "janitor_tick env s =
     (if \<not> janitorStarted s then s
      else (case time_now env s of
         (now, s1) \<Rightarrow>
           (case sweepRequestContexts now s1 of
              (n, s2) \<Rightarrow>
                if n > 0
                then logf Warn (''request-context store: evicted '' @ show_nat n @ '' expired entr(ies), ''
                       @ show_nat (RequestContextStoreSize s2) @ '' remaining'') s2
                else s2)))"

definition context_string :: "request_context \<Rightarrow> string" where
  "context_string rc =
     ''RequestContext{Method: '' @ rc_Method rc @ '', Path: '' @ rc_Path rc @ '', Claims: ''
       @ show_nat (length (rc_JWTClaims rc)) @ ''}''"

end
