(* ===== verification/Go_Float.thy ===== *)
theory Go_Float
  imports Complex_Main "HOL-Library.Log_Nat" "HOL-Library.Signed_Division" Prelude
begin

text \<open>
  What the metrics use of \<open>float64\<close>: a value is the rational it denotes, and an operation is the exact one
  rounded to 53 significant bits, to nearest with ties to even.  Overflow, subnormal numbers and the special
  values are left out: the program only adds durations in seconds, which stay far from those ranges.
\<close>

section \<open>Rounding\<close>

definition two_to :: "int \<Rightarrow> rat" where
  "two_to k = (if 0 \<le> k then 2 ^ nat k else 1 / 2 ^ nat (- k))"

text \<open>The binary exponent of a positive number.\<close>

definition exponent2 :: "rat \<Rightarrow> int" where
  "exponent2 x = (case quotient_of x of (p, q) \<Rightarrow>
     let e = int (floorlog 2 (nat p)) - int (floorlog 2 (nat q)) in if two_to e \<le> x then e else e - 1)"

definition round_half_even :: "rat \<Rightarrow> int" where
  "round_half_even y =
     (let f = \<lfloor>y\<rfloor>; d = y - of_int f
      in if d < 1 / 2 then f else if 1 / 2 < d then f + 1 else if even f then f else f + 1)"

definition round64 :: "rat \<Rightarrow> rat" where
  "round64 x =
     (if x = 0 then 0
      else let k = exponent2 \<bar>x\<bar> - 52 in of_int (round_half_even (x / two_to k)) * two_to k)"

text \<open>\<open>Duration.Seconds\<close>: whole seconds and the rest are converted apart and added.\<close>

definition Seconds :: "duration \<Rightarrow> rat" where
  "Seconds d = round64 (of_int (d sdiv second) + round64 (of_int (d smod second) / 10 ^ 9))"

section \<open>The rounding error\<close>

lemma two_to_pos [simp]: "0 < two_to k"
  by (simp add: two_to_def)

lemma two_to_powi: "two_to k = 2 powi k"
  by (simp add: two_to_def power_int_def field_simps)

lemma two_to_add: "two_to (a + b) = two_to a * two_to b"
  by (simp add: two_to_powi power_int_add)

lemma two_to_nat: "two_to (int n) = 2 ^ n"
  by (simp add: two_to_def)

lemma exponent2_upper:
  assumes "0 < x"
  shows "x < two_to (exponent2 x + 1)" and "two_to (exponent2 x) \<le> x"
proof -
  obtain p q where pq: "quotient_of x = (p, q)" by fastforce
  have q: "0 < q" and x: "x = of_int p / of_int q" using quotient_of_denom_pos [OF pq] quotient_of_div [OF pq] by auto
  have p: "0 < p" using assms q unfolding x by (simp add: zero_less_divide_iff)
  let ?m = "floorlog 2 (nat p)" and ?n = "floorlog 2 (nat q)"
  have bp: "2 ^ (?m - 1) \<le> nat p" "nat p < 2 ^ ?m" and bq: "2 ^ (?n - 1) \<le> nat q" "nat q < 2 ^ ?n"
    using floorlog_bounds [of "nat p" 2] floorlog_bounds [of "nat q" 2] p q by auto
  have pos: "0 < ?m" "0 < ?n" using p q by (simp_all add: floorlog_def)
  have lift: "(2::rat) ^ k \<le> of_int z \<longleftrightarrow> 2 ^ k \<le> nat z" "of_int z < (2::rat) ^ k \<longleftrightarrow> nat z < 2 ^ k" if "0 < z" for k z
  proof -
    have "of_int z = (of_nat (nat z) :: rat)" using that by simp
    moreover have "(2::rat) ^ k = of_nat (2 ^ k)" by simp
    ultimately show "(2::rat) ^ k \<le> of_int z \<longleftrightarrow> 2 ^ k \<le> nat z" "of_int z < (2::rat) ^ k \<longleftrightarrow> nat z < 2 ^ k"
      by (metis of_nat_le_iff, metis of_nat_less_iff)
  qed
  have r: "two_to (int ?m - 1) \<le> of_int p" "of_int p < two_to (int ?m)" "two_to (int ?n - 1) \<le> of_int q" "of_int q < two_to (int ?n)"
    using bp bq pos lift [OF p] lift [OF q] two_to_nat [of "?m - 1"] two_to_nat [of ?m] two_to_nat [of "?n - 1"] two_to_nat [of ?n]
    by (simp_all add: of_nat_diff)
  have up: "x < two_to (int ?m - int ?n + 1)"
  proof -
    have "of_int p < two_to (int ?m - int ?n + 1) * two_to (int ?n - 1)" using r(2) by (simp flip: two_to_add)
    also have "\<dots> \<le> two_to (int ?m - int ?n + 1) * of_int q" using r(3) by simp
    finally show ?thesis using q by (simp add: x divide_less_eq)
  qed
  have low: "two_to (int ?m - int ?n - 1) \<le> x"
  proof -
    have "two_to (int ?m - int ?n - 1) * of_int q \<le> two_to (int ?m - int ?n - 1) * two_to (int ?n)" using r(4) by simp
    also have "\<dots> \<le> of_int p" using r(1) by (simp flip: two_to_add)
    finally show ?thesis using q by (simp add: x le_divide_eq)
  qed
  show "x < two_to (exponent2 x + 1)" and "two_to (exponent2 x) \<le> x"
    using up low by (auto simp: exponent2_def pq Let_def)
qed

lemma round_half_even_error: "\<bar>of_int (round_half_even y) - y\<bar> \<le> 1 / 2"
proof -
  have "0 \<le> y - of_int \<lfloor>y\<rfloor>" "y - of_int \<lfloor>y\<rfloor> < 1" by linarith+
  then show ?thesis by (auto simp: round_half_even_def Let_def abs_le_iff field_simps)
qed

lemma round_half_even_sign: "0 \<le> y \<Longrightarrow> 0 \<le> round_half_even y" "y \<le> 0 \<Longrightarrow> round_half_even y \<le> 0"
proof -
  show "0 \<le> round_half_even y" if "0 \<le> y"
    using that by (simp add: round_half_even_def Let_def)
  show "round_half_even y \<le> 0" if "y \<le> 0"
  proof (cases "y = 0")
    case False
    with that have "\<lfloor>y\<rfloor> \<le> - 1" by linarith
    then show ?thesis by (simp add: round_half_even_def Let_def)
  qed (simp add: round_half_even_def)
qed

text \<open>Half a unit in the last of 53 places.\<close>

definition unit_roundoff :: rat where "unit_roundoff = 1 / 2 ^ 53"

lemma round64_error: "\<bar>round64 x - x\<bar> \<le> unit_roundoff * \<bar>x\<bar>"
proof (cases "x = 0")
  case False
  define k where "k = exponent2 \<bar>x\<bar> - 52"
  have "round64 x - x = (of_int (round_half_even (x / two_to k)) - x / two_to k) * two_to k"
    using False by (simp add: round64_def k_def Let_def left_diff_distrib less_imp_neq [OF two_to_pos, symmetric])
  then have "\<bar>round64 x - x\<bar> = \<bar>of_int (round_half_even (x / two_to k)) - x / two_to k\<bar> * two_to k"
    by (simp add: abs_mult abs_of_pos)
  also have "\<dots> \<le> 1 / 2 * two_to k"
    using round_half_even_error [of "x / two_to k"] by (rule mult_right_mono) (simp add: less_imp_le)
  also have "1 / 2 * two_to k = unit_roundoff * two_to (exponent2 \<bar>x\<bar>)"
  proof -
    have "two_to (exponent2 \<bar>x\<bar>) = two_to k * two_to 52" by (simp add: k_def flip: two_to_add)
    then show ?thesis by (simp add: unit_roundoff_def two_to_def)
  qed
  also have "\<dots> \<le> unit_roundoff * \<bar>x\<bar>"
    using exponent2_upper(2) [of "\<bar>x\<bar>"] False by (simp add: unit_roundoff_def)
  finally show ?thesis .
qed (simp add: round64_def)

lemma round64_nonneg: "0 \<le> x \<Longrightarrow> 0 \<le> round64 x"
proof -
  assume x: "0 \<le> x"
  let ?k = "exponent2 \<bar>x\<bar> - 52"
  have "0 \<le> x / two_to ?k" using x by (simp add: less_imp_le)
  then have "0 \<le> (of_int (round_half_even (x / two_to ?k)) :: rat)" using round_half_even_sign(1) by simp
  then have "0 \<le> of_int (round_half_even (x / two_to ?k)) * two_to ?k" by (rule mult_nonneg_nonneg) (simp add: less_imp_le)
  then show ?thesis by (simp add: round64_def Let_def)
qed

lemma round64_nonpos: "x \<le> 0 \<Longrightarrow> round64 x \<le> 0"
proof -
  assume x: "x \<le> 0"
  let ?k = "exponent2 \<bar>x\<bar> - 52"
  have "x / two_to ?k \<le> 0" using x by (simp add: divide_nonpos_pos)
  then have "(of_int (round_half_even (x / two_to ?k)) :: rat) \<le> 0" using round_half_even_sign(2) by simp
  then have "of_int (round_half_even (x / two_to ?k)) * two_to ?k \<le> 0" by (rule mult_nonpos_nonneg) (simp add: less_imp_le)
  then show ?thesis by (simp add: round64_def Let_def)
qed

lemma round64_bounds:
  assumes "0 \<le> x"
  shows "(1 - unit_roundoff) * x \<le> round64 x" and "round64 x \<le> (1 + unit_roundoff) * x"
  using round64_error [of x] assms by (auto simp: algebra_simps abs_le_iff)

section \<open>Durations\<close>

abbreviation in_seconds :: "duration \<Rightarrow> rat" where
  "in_seconds d \<equiv> of_int d / 10 ^ 9"

lemma seconds_split: "in_seconds d = of_int (d sdiv second) + of_int (d smod second) / 10 ^ 9"
proof -
  have "d = d sdiv second * 10 ^ 9 + d smod second" using sdiv_mult_smod_eq [of d second] by (simp add: second_def)
  then have "of_int d = (of_int (d sdiv second * 10 ^ 9 + d smod second) :: rat)" by simp
  then have "of_int d = (of_int (d sdiv second) * 10 ^ 9 + of_int (d smod second) :: rat)" by simp
  then show ?thesis by (simp add: add_divide_distrib)
qed

lemma split_signs:
  "0 \<le> d \<Longrightarrow> 0 \<le> d sdiv second \<and> 0 \<le> d smod second" "d \<le> 0 \<Longrightarrow> d sdiv second \<le> 0 \<and> d smod second \<le> 0"
proof -
  have n: "0 \<le> d sdiv second \<and> 0 \<le> d smod second" if "0 \<le> d" for d
    using that smod_int_compares [of d second]
    by (auto simp: second_def signed_divide_int_def sgn_if pos_imp_zdiv_nonneg_iff)
  then show "0 \<le> d \<Longrightarrow> 0 \<le> d sdiv second \<and> 0 \<le> d smod second" .
  show "d \<le> 0 \<Longrightarrow> d sdiv second \<le> 0 \<and> d smod second \<le> 0" using n [of "- d"] by simp
qed

text \<open>A duration in seconds is off by two roundings at most.\<close>

lemma Seconds_bounds:
  assumes "0 \<le> d"
  shows "(1 - unit_roundoff) ^ 2 * in_seconds d \<le> Seconds d" and "Seconds d \<le> (1 + unit_roundoff) ^ 2 * in_seconds d"
proof -
  let ?u = unit_roundoff
  have u: "0 \<le> ?u" "?u \<le> 1" by (simp_all add: unit_roundoff_def)
  define a b where "a = (of_int (d sdiv second) :: rat)" and "b = (of_int (d smod second) / 10 ^ 9 :: rat)"
  have ab: "0 \<le> a" "0 \<le> b" "in_seconds d = a + b"
    using split_signs(1) [OF assms] seconds_split [of d] by (simp_all add: a_def b_def)
  have S: "Seconds d = round64 (a + round64 b)" by (simp add: Seconds_def a_def b_def)
  have rb: "(1 - ?u) * b \<le> round64 b" "round64 b \<le> (1 + ?u) * b" "0 \<le> round64 b"
    using round64_bounds [OF ab(2)] round64_nonneg [OF ab(2)] by auto
  have m: "(1 - ?u) * a \<le> a" "a \<le> (1 + ?u) * a" using ab(1) u by (auto simp: algebra_simps)
  have lo: "(1 - ?u) * (a + b) \<le> a + round64 b" using rb(1) m(1) by (simp add: distrib_left)
  have hi: "a + round64 b \<le> (1 + ?u) * (a + b)" using rb(2) m(2) by (simp add: distrib_left)
  have "0 \<le> a + round64 b" using ab(1) rb(3) by simp
  note r = round64_bounds [OF this]
  have "(1 - ?u) * ((1 - ?u) * (a + b)) \<le> (1 - ?u) * (a + round64 b)" using lo u by (intro mult_left_mono) simp_all
  then have "(1 - ?u) * ((1 - ?u) * (a + b)) \<le> Seconds d" using r(1) unfolding S by (rule order_trans)
  then show "(1 - ?u) ^ 2 * in_seconds d \<le> Seconds d" unfolding ab(3) by (simp only: power2_eq_square mult.assoc)
  have "(1 + ?u) * (a + round64 b) \<le> (1 + ?u) * ((1 + ?u) * (a + b))" using hi u by (intro mult_left_mono) simp_all
  with r(2) have "Seconds d \<le> (1 + ?u) * ((1 + ?u) * (a + b))" unfolding S by (rule order_trans)
  then show "Seconds d \<le> (1 + ?u) ^ 2 * in_seconds d" unfolding ab(3) by (simp only: power2_eq_square mult.assoc)
qed

lemma Seconds_nonneg: "0 \<le> d \<Longrightarrow> 0 \<le> Seconds d"
  using split_signs(1) [of d] by (simp add: Seconds_def round64_nonneg)

lemma Seconds_nonpos: "d \<le> 0 \<Longrightarrow> Seconds d \<le> 0"
  using split_signs(2) [of d] by (auto simp: Seconds_def intro!: round64_nonpos add_nonpos_nonpos divide_nonpos_pos)

section \<open>Exact values\<close>

lemma round_half_even_int [simp]: "round_half_even (of_int z) = z"
  by (simp add: round_half_even_def Let_def)

lemma two_to_less_iff: "two_to a < two_to b \<longleftrightarrow> a < b"
proof
  show "two_to a < two_to b" if "a < b" using that by (simp add: two_to_powi power_int_strict_increasing)
  show "a < b" if "two_to a < two_to b"
  proof (rule ccontr)
    assume "\<not> a < b"
    then have "two_to b \<le> two_to a" by (simp add: two_to_powi power_int_increasing)
    with that show False by simp
  qed
qed

lemma round64_exact:
  assumes "\<bar>m\<bar> < 2 ^ 53" and x: "x = of_int m * two_to k"
  shows "round64 x = x"
proof (cases "m = 0")
  case False
  let ?e = "exponent2 \<bar>x\<bar>"
  have ax: "\<bar>x\<bar> = of_int \<bar>m\<bar> * two_to k" by (simp add: x abs_mult abs_of_pos)
  have "x \<noteq> 0" using False by (simp add: x less_imp_neq [OF two_to_pos, symmetric])
  have "two_to ?e \<le> \<bar>x\<bar>" using exponent2_upper(2) \<open>x \<noteq> 0\<close> by simp
  also have "\<dots> < two_to (53 + k)"
  proof -
    have "of_int \<bar>m\<bar> < (of_int (2 ^ 53) :: rat)" using assms(1) by (subst of_int_less_iff)
    then have "of_int \<bar>m\<bar> * two_to k < 2 ^ 53 * two_to k" by (intro mult_strict_right_mono) simp_all
    then show ?thesis unfolding ax by (simp add: two_to_add two_to_def [of 53])
  qed
  finally have "?e < 53 + k" by (simp only: two_to_less_iff)
  then have "k = (?e - 52) + int (nat (k - (?e - 52)))" by simp
  then obtain j where j: "k = (?e - 52) + int j" by blast
  have shift: "of_int m * two_to (E + int j) / two_to E = of_int (m * 2 ^ j)" for E
    by (simp add: two_to_add two_to_nat less_imp_neq [OF two_to_pos, symmetric])
  have "x / two_to (?e - 52) = of_int m * two_to ((?e - 52) + int j) / two_to (?e - 52)"
    using arg_cong [OF j, of two_to] x by simp
  also note shift
  finally have "x / two_to (?e - 52) = of_int (m * 2 ^ j)" .
  moreover have "of_int (m * 2 ^ j) * two_to (?e - 52) = x"
    using calculation by (simp add: field_simps less_imp_neq [OF two_to_pos, symmetric])
  ultimately show ?thesis using \<open>x \<noteq> 0\<close> by (simp only: round64_def Let_def round_half_even_int if_False)
qed (simp add: x round64_def)

lemma round64_shape: "\<exists>m k. round64 x = of_int m * two_to k \<and> \<bar>m\<bar> < 2 ^ 53"
proof (cases "x = 0")
  case True
  then show ?thesis by (auto simp: round64_def intro!: exI [of _ 0])
next
  case False
  define k where "k = exponent2 \<bar>x\<bar> - 52"
  let ?y = "x / two_to k" and ?m = "round_half_even (x / two_to k)"
  have r: "round64 x = of_int ?m * two_to k" using False by (simp add: round64_def k_def Let_def)
  have "\<bar>x\<bar> < two_to (53 + k)" using exponent2_upper(1) [of "\<bar>x\<bar>"] False by (simp add: k_def add.commute)
  then have "\<bar>?y\<bar> < 2 ^ 53" by (simp add: two_to_add two_to_def [of 53] divide_less_eq abs_of_pos)
  then have "\<bar>of_int ?m\<bar> < (2 ^ 53 + 1 :: rat)" using round_half_even_error [of ?y] by linarith
  then have "of_int \<bar>?m\<bar> < (of_int (2 ^ 53 + 1) :: rat)" by simp
  then have "\<bar>?m\<bar> \<le> 2 ^ 53" by (simp only: of_int_less_iff)
  then consider "\<bar>?m\<bar> < 2 ^ 53" | "?m = 2 ^ 53" | "?m = - (2 ^ 53)" by linarith
  then show ?thesis
  proof cases
    case 1
    with r show ?thesis by blast
  next
    case 2
    then have "round64 x = of_int 1 * two_to (53 + k)" by (simp add: r two_to_add two_to_def [of 53])
    then show ?thesis by (intro exI [of _ 1] exI [of _ "53 + k"]) simp
  next
    case 3
    then have "round64 x = of_int (- 1) * two_to (53 + k)" by (simp add: r two_to_add two_to_def [of 53])
    then show ?thesis by (intro exI [of _ "- 1"] exI [of _ "53 + k"]) simp
  qed
qed

lemma round64_idem [simp]: "round64 (round64 x) = round64 x"
  using round64_shape [of x] round64_exact by metis

lemma round64_0 [simp]: "round64 0 = 0"
  by (simp add: round64_def)

lemma Seconds_below_one: "0 \<le> d \<Longrightarrow> d < second \<Longrightarrow> Seconds d = round64 (in_seconds d)"
  by (simp add: Seconds_def signed_divide_int_def smod_mod_positive second_def sgn_if)

lemma Seconds_whole: "0 \<le> n \<Longrightarrow> Seconds (n * second) = round64 (of_int n)"
  by (simp add: Seconds_def signed_divide_int_def smod_mod_positive second_def sgn_if)

lemma Seconds_half: "0 \<le> n \<Longrightarrow> Seconds (n * second + 500 * millisecond) = round64 (of_int n + 1 / 2)"
proof -
  assume n: "0 \<le> n"
  have d: "(n * second + 500 * millisecond) div second = n" "(n * second + 500 * millisecond) mod second = 500 * millisecond"
    by (simp_all add: second_def millisecond_def)
  have "0 \<le> n * second + 500 * millisecond" using n by (simp add: second_def millisecond_def)
  then have "(n * second + 500 * millisecond) sdiv second = n" "(n * second + 500 * millisecond) smod second = 500 * millisecond"
    using d by (auto simp: signed_divide_int_def smod_mod_positive sgn_if second_def)
  moreover have "round64 (of_int (500 * millisecond) / 10 ^ 9) = 1 / 2"
    by (rule trans [OF arg_cong [of _ "1 / 2" round64] round64_exact [of 1 _ "- 1"]]) (simp_all add: two_to_def millisecond_def)
  ultimately show ?thesis by (simp only: Seconds_def)
qed

text \<open>
  A bound of at most an hour given in nanoseconds: comparing the floats is comparing the durations, since the
  rounding errors are far below a nanosecond.
\<close>

lemma Seconds_le_iff:
  assumes "0 < b" and "b \<le> 3600 * second" and same: "Seconds b = round64 (in_seconds b)"
  shows "Seconds d \<le> round64 (in_seconds b) \<longleftrightarrow> d \<le> b"
proof -
  let ?u = unit_roundoff
  have u: "0 \<le> ?u" "?u \<le> 1" "?u = 1 / 9007199254740992" by (simp_all add: unit_roundoff_def)
  have "of_int b \<le> (of_int (3600 * second) :: rat)" using assms(2) by (subst of_int_le_iff)
  then have B: "0 \<le> in_seconds b" "in_seconds b \<le> 3600" using assms(1) by (simp_all add: second_def)
  note rb = round64_bounds [OF B(1)]
  have gap: "in_seconds x + 1 / 10 ^ 9 \<le> in_seconds y" if "x < y" for x y
  proof -
    have "of_int (x + 1) \<le> (of_int y :: rat)" using that by (subst of_int_le_iff) simp
    then have "of_int (x + 1) / 10 ^ 9 \<le> in_seconds y" by (rule divide_right_mono) simp
    then show ?thesis by (simp only: of_int_add of_int_1 add_divide_distrib)
  qed
  consider "d \<le> 0" | "0 < d" "d < b" | "d = b" | "b < d" by linarith
  then show ?thesis
  proof cases
    case 1
    then show ?thesis using assms(1) Seconds_nonpos [of d] round64_nonneg [OF B(1)] by simp
  next
    case 2
    have "in_seconds d \<le> in_seconds b - 1 / 10 ^ 9" using gap [of d b] 2 by simp
    then have "(1 + ?u) ^ 2 * in_seconds d \<le> (1 + ?u) ^ 2 * (in_seconds b - 1 / 10 ^ 9)" using u(1) by (intro mult_left_mono) simp_all
    with Seconds_bounds(2) [of d] 2(1) have "Seconds d \<le> (1 + ?u) ^ 2 * (in_seconds b - 1 / 10 ^ 9)" by simp
    also have "\<dots> \<le> (1 - ?u) * in_seconds b" using B(2) unfolding u(3) by (simp add: power2_eq_square)
    finally show ?thesis using rb(1) 2 by simp
  next
    case 3
    then show ?thesis using same by simp
  next
    case 4
    then have "in_seconds b + 1 / 10 ^ 9 \<le> in_seconds d" using gap [of b d] by simp
    then have "(1 - ?u) ^ 2 * (in_seconds b + 1 / 10 ^ 9) \<le> (1 - ?u) ^ 2 * in_seconds d" using u(1,2) by (intro mult_left_mono) simp_all
    with Seconds_bounds(1) [of d] 4 assms(1) have "(1 - ?u) ^ 2 * (in_seconds b + 1 / 10 ^ 9) \<le> Seconds d" by simp
    moreover have "(1 + ?u) * in_seconds b < (1 - ?u) ^ 2 * (in_seconds b + 1 / 10 ^ 9)"
      using B(2) unfolding u(3) by (simp add: power2_eq_square)
    ultimately show ?thesis using rb(2) 4 by simp
  qed
qed

end
