(* ===== verification/Metrics.thy ===== *)
theory Metrics
  imports Context_Store Go_Float
begin

text \<open>
  The in-process metrics of \<open>internal/metrics/metrics.go\<close>: decision and dependency counters, one
  latency histogram per dependency, the values read from other packages at scrape time, and the text
  exposition.  Counters are 64-bit.  A duration becomes a \<open>float64\<close> number of seconds, rounded as Go rounds it;
  the comparison with a bucket bound and the sum are on those values.  The text of a sum is a parameter of
  the rendering.
\<close>

section \<open>State\<close>

datatype label_pair = Label_Pair (lp_first: string) (lp_second: string)

text \<open>The comparison of the sort in \<open>writeCounter\<close>; it is the order of the type.\<close>

definition label_pair_before :: "label_pair \<Rightarrow> label_pair \<Rightarrow> bool" where
  "label_pair_before a b \<longleftrightarrow>
     (if lp_first a \<noteq> lp_first b then lp_first a < lp_first b else lp_second a < lp_second b)"

instantiation label_pair :: linorder
begin

definition less_eq_label_pair :: "label_pair \<Rightarrow> label_pair \<Rightarrow> bool" where
  "less_eq_label_pair a b \<longleftrightarrow>
     lp_first a < lp_first b \<or> lp_first a = lp_first b \<and> lp_second a \<le> lp_second b"

definition less_label_pair :: "label_pair \<Rightarrow> label_pair \<Rightarrow> bool" where
  "less_label_pair a b \<longleftrightarrow> label_pair_before a b"

instance
  by standard
     (auto simp: less_eq_label_pair_def less_label_pair_def label_pair_before_def label_pair.expand split: if_splits intro: label_pair.expand)

end

record histogram =
  counts :: "64 word list"
  sum_s :: rat   \<comment> \<open>a \<open>float64\<close>, in seconds\<close>
  total :: "64 word"

text \<open>The three values other packages register, and how they are published.\<close>

datatype metric_source = Context_Store_Size | Contexts_Evicted | Audit_Dropped
datatype metric_kind = Gauge | Counter

record callback_metric =
  cb_help :: string
  cb_kind :: metric_kind
  cb_read :: metric_source

record 'w metrics_proc = "'w store_proc" +
  decisions :: "(label_pair \<times> 64 word) list"
  dependencyCalls :: "(label_pair \<times> 64 word) list"
  latency :: "(string \<times> histogram) list"
  purposeUnconstrained :: "64 word"
  callbacks :: "(string \<times> callback_metric) list"

definition decisionsMetric :: string where "decisionsMetric = ''consent_decisions_total''"
definition dependencyCallsMetric :: string where "dependencyCallsMetric = ''consent_dependency_calls_total''"
definition dependencyLatency :: string where "dependencyLatency = ''consent_dependency_duration_seconds''"
definition purposeUnconstrainedMetric :: string where
  "purposeUnconstrainedMetric = ''consent_purpose_unconstrained_total''"
definition contextStoreSizeMetric :: string where "contextStoreSizeMetric = ''consent_request_context_store_size''"
definition contextEvictedMetric :: string where "contextEvictedMetric = ''consent_request_contexts_evicted_total''"
definition auditDroppedMetric :: string where "auditDroppedMetric = ''consent_audit_events_dropped_total''"
definition DependencyConsentManager :: string where "DependencyConsentManager = ''consent_manager''"
definition DependencyOwnerResolver :: string where "DependencyOwnerResolver = ''owner_resolver''"
definition OutcomeSuccess :: string where "OutcomeSuccess = ''success''"
definition OutcomeError :: string where "OutcomeError = ''error''"

text \<open>The bucket bounds, \<open>float64\<close> constants in seconds, with their text.\<close>

definition latencyBuckets :: "(rat \<times> string) list" where
  "latencyBuckets =
     [(round64 (5 / 1000), ''0.005''), (round64 (1 / 100), ''0.01''), (round64 (25 / 1000), ''0.025''),
      (round64 (5 / 100), ''0.05''), (round64 (1 / 10), ''0.1''), (round64 (25 / 100), ''0.25''),
      (round64 (5 / 10), ''0.5''), (round64 1, ''1''), (round64 (25 / 10), ''2.5''), (round64 5, ''5''), (round64 10, ''10'')]"

section \<open>Recording\<close>

definition new_histogram :: histogram where
  "new_histogram = \<lparr>counts = replicate (length latencyBuckets) 0, sum_s = 0, total = 0\<rparr>"

definition observe :: "histogram \<Rightarrow> rat \<Rightarrow> histogram" where
  "observe h v =
     h\<lparr>counts := map2 (\<lambda>(bound, _) n. if v \<le> bound then n + 1 else n) latencyBuckets (counts h),
       sum_s := round64 (sum_s h + v), total := total h + 1\<rparr>"

definition count_of :: "label_pair \<Rightarrow> (label_pair \<times> 64 word) list \<Rightarrow> 64 word" where
  "count_of k m = (case map_of m k of None \<Rightarrow> 0 | Some n \<Rightarrow> n)"

definition increment :: "label_pair \<Rightarrow> (label_pair \<times> 64 word) list \<Rightarrow> (label_pair \<times> 64 word) list" where
  "increment k m = gset k (count_of k m + 1) m"

definition RecordDecision :: "string \<Rightarrow> string \<Rightarrow> ('w, 'z) metrics_proc_scheme \<Rightarrow> ('w, 'z) metrics_proc_scheme" where
  "RecordDecision decision failMode s =
     s\<lparr>decisions := increment (Label_Pair decision (if failMode = [] then ''none'' else failMode)) (decisions s)\<rparr>"

definition RecordDependencyCall :: "string \<Rightarrow> string \<Rightarrow> duration
    \<Rightarrow> ('w, 'z) metrics_proc_scheme \<Rightarrow> ('w, 'z) metrics_proc_scheme" where
  "RecordDependencyCall dependency outcome d s =
     s\<lparr>dependencyCalls := increment (Label_Pair dependency outcome) (dependencyCalls s),
       latency := gset dependency
         (observe (case map_of (latency s) dependency of None \<Rightarrow> new_histogram | Some h \<Rightarrow> h) (Seconds d)) (latency s)\<rparr>"

definition RecordPurposeUnconstrained :: "('w, 'z) metrics_proc_scheme \<Rightarrow> ('w, 'z) metrics_proc_scheme" where
  "RecordPurposeUnconstrained s = s\<lparr>purposeUnconstrained := purposeUnconstrained s + 1\<rparr>"

definition registerCallback :: "string \<Rightarrow> string \<Rightarrow> metric_kind \<Rightarrow> metric_source
    \<Rightarrow> ('w, 'z) metrics_proc_scheme \<Rightarrow> ('w, 'z) metrics_proc_scheme" where
  "registerCallback name help kind read s =
     s\<lparr>callbacks := gset name \<lparr>cb_help = help, cb_kind = kind, cb_read = read\<rparr> (callbacks s)\<rparr>"

definition RegisterGauge :: "string \<Rightarrow> string \<Rightarrow> metric_source
    \<Rightarrow> ('w, 'z) metrics_proc_scheme \<Rightarrow> ('w, 'z) metrics_proc_scheme" where
  "RegisterGauge name help read s = registerCallback name help Gauge read s"

definition RegisterCounter :: "string \<Rightarrow> string \<Rightarrow> metric_source
    \<Rightarrow> ('w, 'z) metrics_proc_scheme \<Rightarrow> ('w, 'z) metrics_proc_scheme" where
  "RegisterCounter name help read s = registerCallback name help Counter read s"

definition metrics_Reset :: "('w, 'z) metrics_proc_scheme \<Rightarrow> ('w, 'z) metrics_proc_scheme" where
  "metrics_Reset s =
     s\<lparr>decisions := [], dependencyCalls := [], latency := [], purposeUnconstrained := 0, callbacks := []\<rparr>"

text \<open>The registrations of \<open>context.go\<close>, made when the package is initialised.\<close>

definition init_context_metrics :: "('w, 'z) metrics_proc_scheme \<Rightarrow> ('w, 'z) metrics_proc_scheme" where
  "init_context_metrics s =
     RegisterCounter contextEvictedMetric ''Request contexts evicted because they expired or the store was full.'' Contexts_Evicted
       (RegisterGauge contextStoreSizeMetric ''Request contexts currently held, i.e. gated requests in flight.'' Context_Store_Size s)"

section \<open>Rendering\<close>

definition newline :: string where "newline = [byte 10]"

definition family_header :: "string \<Rightarrow> string \<Rightarrow> string \<Rightarrow> string" where
  "family_header name help kind =
     ''# HELP '' @ name @ '' '' @ help @ newline @ ''# TYPE '' @ name @ '' '' @ kind @ newline"

text \<open>A sorted enumeration of a Go map: its keys are sorted, then looked up.\<close>

definition sorted_keys :: "('k::linorder \<times> 'v) list \<Rightarrow> 'k list" where
  "sorted_keys m = sort (map fst m)"

definition writeCounter :: "'w env \<Rightarrow> string \<Rightarrow> string \<Rightarrow> string \<Rightarrow> string \<Rightarrow> (label_pair \<times> 64 word) list \<Rightarrow> string" where
  "writeCounter env name help firstLabel secondLabel values =
     family_header name help ''counter''
     @ concat (map (\<lambda>key. name @ ''{'' @ firstLabel @ ''='' @ quote env (lp_first key) @ '','' @ secondLabel @ ''=''
          @ quote env (lp_second key) @ ''} '' @ itoa (uint (count_of key values)) @ newline) (sorted_keys values))"

definition writeHistogram :: "'w env \<Rightarrow> (rat \<Rightarrow> string) \<Rightarrow> string \<Rightarrow> histogram \<Rightarrow> string" where
  "writeHistogram env fmt dependency h =
     concat (map (\<lambda>((_, le), n). dependencyLatency @ ''_bucket{dependency='' @ quote env dependency @ '',le='' @ quote env le
         @ ''} '' @ itoa (uint n) @ newline) (zip latencyBuckets (counts h)))
     @ dependencyLatency @ ''_bucket{dependency='' @ quote env dependency @ '',le='' @ [CHR 0x22] @ ''+Inf'' @ [CHR 0x22] @ ''} ''
         @ itoa (uint (total h)) @ newline
     @ dependencyLatency @ ''_sum{dependency='' @ quote env dependency @ ''} '' @ fmt (sum_s h) @ newline
     @ dependencyLatency @ ''_count{dependency='' @ quote env dependency @ ''} '' @ itoa (uint (total h)) @ newline"

text \<open>
  \<open>FormatFloat(f, 'g', -1, 64)\<close> on a natural number below \<open>2 ^ 53\<close>, where the conversion is exact:
  decimal with less than seven digits, else with an exponent and without trailing zeros.
\<close>

definition format_g :: "nat \<Rightarrow> string" where
  "format_g n =
     (let ds = show_nat n in
      if length ds \<le> 6 then ds
      else
        let sig = rev (dropWhile (\<lambda>c. c = CHR ''0'') (rev ds));
            e = show_nat (length ds - 1)
        in take 1 sig @ (if length sig = 1 then [] else CHR ''.'' # drop 1 sig) @ ''e+''
             @ (if length e = 1 then CHR ''0'' # e else e))"

text \<open>A callback is read at scrape time; \<open>dropped\<close> is the audit package's count.\<close>

definition read_metric :: "('w, 'z) metrics_proc_scheme \<Rightarrow> 64 word \<Rightarrow> metric_source \<Rightarrow> nat" where
  "read_metric s dropped src =
     (case src of
        Context_Store_Size \<Rightarrow> RequestContextStoreSize s
      | Contexts_Evicted \<Rightarrow> unat (RequestContextsEvicted s)
      | Audit_Dropped \<Rightarrow> unat dropped)"

definition kind_text :: "metric_kind \<Rightarrow> string" where
  "kind_text k = (case k of Gauge \<Rightarrow> ''gauge'' | Counter \<Rightarrow> ''counter'')"

definition writeCallbacks :: "('w, 'z) metrics_proc_scheme \<Rightarrow> 64 word \<Rightarrow> string" where
  "writeCallbacks s dropped =
     concat (map (\<lambda>name. case map_of (callbacks s) name of
         None \<Rightarrow> []
       | Some metric \<Rightarrow>
           family_header name (cb_help metric) (kind_text (cb_kind metric))
           @ name @ '' '' @ format_g (read_metric s dropped (cb_read metric)) @ newline) (sorted_keys (callbacks s)))"

definition render :: "'w env \<Rightarrow> (rat \<Rightarrow> string) \<Rightarrow> 64 word \<Rightarrow> ('w, 'z) metrics_proc_scheme \<Rightarrow> string" where
  "render env fmt dropped s =
     writeCounter env decisionsMetric ''Access decisions enforced, by decision and fail mode.'' ''decision'' ''fail_mode'' (decisions s)
     @ writeCounter env dependencyCallsMetric ''Outbound calls to a dependency, by outcome.'' ''dependency'' ''outcome'' (dependencyCalls s)
     @ family_header purposeUnconstrainedMetric ''Consent checks run without a processing purpose to scope them.'' ''counter''
     @ purposeUnconstrainedMetric @ '' '' @ itoa (uint (purposeUnconstrained s)) @ newline
     @ family_header dependencyLatency ''Duration of outbound dependency calls in seconds.'' ''histogram''
     @ concat (map (\<lambda>dependency. case map_of (latency s) dependency of
           None \<Rightarrow> []
         | Some h \<Rightarrow> writeHistogram env fmt dependency h) (sorted_keys (latency s)))
     @ writeCallbacks s dropped"

end
