(* ===== verification/Calls.thy ===== *)
theory Calls
  imports Consent_Client
begin

text \<open>
  The HTTP calls of an operation.  An environment is instrumented so that its state also holds the
  exchanges made so far (\<open>traced\<close>); it is an environment like any other, so the model runs in
  it unchanged.  \<open>issued P n s s'\<close> says that an operation going from \<open>s\<close> to \<open>s'\<close> added at most
  \<open>n\<close> exchanges, each satisfying \<open>P\<close>; the lemmas compose such statements along the code.
\<close>

type_synonym exchange = "http_request \<times> http_result"

definition traced :: "'w env \<Rightarrow> ('w \<times> exchange list) env" where
  "traced env =
     \<lparr>now_of = \<lambda>(w, l). (case now_of env w of (t, w') \<Rightarrow> (t, (w', l))),
      http_of = \<lambda>rq (w, l). (case http_of env rq w of (r, w') \<Rightarrow> (r, (w', l @ [(rq, r)]))),
      getenv = getenv env, is_print = is_print env, uri_error = uri_error env,
      url_error = url_error env, json_error = json_error env\<rparr>"

definition calls :: "('w \<times> exchange list, 'z) proc_scheme \<Rightarrow> exchange list" where
  "calls s = snd (world s)"

definition issued :: "(exchange \<Rightarrow> bool) \<Rightarrow> nat
    \<Rightarrow> ('w \<times> exchange list, 'z) proc_scheme \<Rightarrow> ('w \<times> exchange list, 'z) proc_scheme \<Rightarrow> bool" where
  "issued P n s s' \<longleftrightarrow> (\<exists>es. calls s' = calls s @ es \<and> length es \<le> n \<and> list_all P es)"

section \<open>Composition\<close>

lemma issued_none [intro]: "calls s' = calls s \<Longrightarrow> issued P n s s'"
  by (simp add: issued_def)

lemma issued_one: "calls s' = calls s @ [x] \<Longrightarrow> P x \<Longrightarrow> issued P 1 s s'"
  by (auto simp: issued_def)

lemma issued_trans: "issued P m s s1 \<Longrightarrow> issued P n s1 s2 \<Longrightarrow> issued P (m + n) s s2"
proof -
  assume "issued P m s s1" and "issued P n s1 s2"
  then obtain es es' where "calls s2 = calls s @ (es @ es')" and "length (es @ es') \<le> m + n"
    and "list_all P (es @ es')"
    by (auto simp: issued_def)
  then show ?thesis unfolding issued_def by blast
qed

lemma issued_mono: "issued P m s s' \<Longrightarrow> m \<le> n \<Longrightarrow> issued P n s s'"
  by (auto simp: issued_def)

lemma issued_weaken: "issued P n s s' \<Longrightarrow> (\<And>x. P x \<Longrightarrow> Q x) \<Longrightarrow> issued Q n s s'"
  by (auto simp: issued_def list_all_iff)

lemma issued_calls_eq: "issued P n s s1 \<Longrightarrow> calls s2 = calls s1 \<Longrightarrow> issued P n s s2"
  by (simp add: issued_def)

lemma issued_from_eq: "issued P n s s1 \<Longrightarrow> calls s0 = calls s \<Longrightarrow> issued P n s0 s1"
  by (simp add: issued_def)

lemma issued_later: "issued P n s s1 \<Longrightarrow> \<exists>es. calls s1 = calls s @ es"
  by (auto simp: issued_def)

section \<open>The primitives\<close>

lemma calls_time_now: "time_now (traced env) s = (t, s') \<Longrightarrow> calls s' = calls s"
  by (auto simp: time_now_def traced_def calls_def split: prod.splits)

lemma calls_http_do: "http_do (traced env) rq s = (r, s') \<Longrightarrow> calls s' = calls s @ [(rq, r)]"
  by (auto simp: http_do_def traced_def calls_def split: prod.splits)

lemma calls_logf [simp]: "calls (logf lvl m s) = calls s"
  by (simp add: logf_def calls_def)

lemma calls_allow: "allow (traced env) key s = (a, s') \<Longrightarrow> calls s' = calls s"
  by (auto simp: allow_def split: if_splits prod.splits dest: calls_time_now)
     (auto simp: calls_def dest!: calls_time_now)

lemma calls_log_every [simp]: "calls (log_every (traced env) lvl key msg s) = calls s"
  by (auto simp: log_every_def split: prod.splits dest: calls_allow)

lemma traced_tables [simp]:
  "getenv (traced env) = getenv env" "is_print (traced env) = is_print env"
  "uri_error (traced env) = uri_error env" "url_error (traced env) = url_error env"
  "json_error (traced env) = json_error env"
  by (simp_all add: traced_def)

lemma new_request_traced [simp]: "new_request (traced env) m u b = new_request env m u b"
  by (simp add: new_request_def)

lemma json_unmarshal_traced [simp]: "json_unmarshal (traced env) t d b z = json_unmarshal env t d b z"
  by (simp add: json_unmarshal_def split: option.splits)

lemma new_request_Inr:
  "new_request env m u b = Inr rq \<longleftrightarrow>
   url_error env u = None
   \<and> rq = \<lparr>rq_method = m, rq_url = u, rq_host = [], rq_headers = [], rq_body = b, rq_timeout = 0\<rparr>"
  by (auto simp: new_request_def split: option.splits)

section \<open>A request of the consent client\<close>

text \<open>What \<open>do\<close> hands to the network: the Host override and the client's timeout.\<close>

definition sent :: "client \<Rightarrow> http_request \<Rightarrow> http_request" where
  "sent c rq = (if host c \<noteq> [] then rq\<lparr>rq_host := host c\<rparr> else rq)\<lparr>rq_timeout := timeout c\<rparr>"

lemma calls_client_do:
  assumes "client_do (traced env) c rq s = (r, s')"
  obtains x where "calls s' = calls s @ [(sent c rq, x)]"
    and "\<And>status body. r = Inr (status, body) \<Longrightarrow> x = Response status body"
  using assms
  by (auto simp: client_do_def sent_def split: prod.splits http_result.splits dest!: calls_http_do)

lemma calls_unexpectedStatus: "unexpectedStatus (traced env) op status body s = (e, s') \<Longrightarrow> calls s' = calls s"
  by (auto simp: unexpectedStatus_def)

end
