(* ===== verification/Client_Calls.thy ===== *)
theory Client_Calls
  imports Calls
begin

text \<open>
  The calls of the consent client, operation by operation: how many requests each operation makes at
  most, and that each of them is one of the requests below.  The token service is asked without Host
  override, Bearer token or consent key; the consent key appears only on the identifier search.
\<close>

definition token_request :: "client \<Rightarrow> http_request \<Rightarrow> bool" where
  "token_request c rq \<longleftrightarrow>
     rq = \<lparr>rq_method = ''POST'', rq_url = tokenServiceURL c, rq_host = [],
           rq_headers = [(''Content-Type'', ''application/json'')],
           rq_body = Some (JObj [(''audience'', json_string (tokenAudience c))]), rq_timeout = timeout c\<rparr>"

definition manager_get :: "client \<Rightarrow> string \<Rightarrow> string \<Rightarrow> http_request" where
  "manager_get c url token =
     \<lparr>rq_method = ''GET'', rq_url = url, rq_host = host c,
      rq_headers = [(''Authorization'', ''Bearer '' @ token)], rq_body = None, rq_timeout = timeout c\<rparr>"

definition manager_search :: "client \<Rightarrow> string \<Rightarrow> string \<Rightarrow> string \<Rightarrow> http_request" where
  "manager_search c subject sd token =
     \<lparr>rq_method = ''POST'', rq_url = endpoint c ''/users/identifier/search'', rq_host = host c,
      rq_headers = [(''Content-Type'', ''application/json'')]
        @ (if consentKey c \<noteq> [] then [(''x-visionstrust-consent-key'', consentKey c)] else [])
        @ (if token \<noteq> [] then [(''Authorization'', ''Bearer '' @ token)] else []),
      rq_body = Some (JObj [(''email'', json_string subject), (''selfDescription'', json_string sd)]),
      rq_timeout = timeout c\<rparr>"

definition client_request :: "client \<Rightarrow> exchange \<Rightarrow> bool" where
  "client_request c x \<longleftrightarrow>
     staticToken c = [] \<and> token_request c (fst x)
     \<or> (\<exists>subject sd token. fst x = manager_search c subject sd token)
     \<or> (\<exists>token. fst x = manager_get c (endpoint c ''/participants/me'') token)
     \<or> (\<exists>token. fst x = manager_get c (endpoint c ''/participants'') token)
     \<or> (\<exists>token u. fst x = manager_get c (consents_url c u) token)"

lemma sent_get: "new_request env ''GET'' url None = Inr rq \<Longrightarrow> sent c (bearer token rq) = manager_get c url token"
  by (auto simp: new_request_Inr sent_def bearer_def set_header_def gset_def manager_get_def)

lemma sent_search:
  "new_request env ''POST'' (endpoint c ''/users/identifier/search'')
     (Some (JObj [(''email'', json_string subject), (''selfDescription'', json_string sd)])) = Inr rq \<Longrightarrow>
   sent c (identifier_request c token rq) = manager_search c subject sd token"
  by (auto simp: new_request_Inr sent_def bearer_def set_header_def gset_def manager_search_def identifier_request_def Let_def)

lemma client_request_simps [simp]:
  "client_request c (manager_search c subject sd token, x)"
  "client_request c (manager_get c (endpoint c ''/participants/me'') token, x)"
  "client_request c (manager_get c (endpoint c ''/participants'') token, x)"
  "client_request c (manager_get c (consents_url c u) token, x)"
  by (auto simp: client_request_def)

lemma calls_set_entry [simp]: "calls (set_entry k e s) = calls s"
  by (simp add: set_entry_def calls_def)

lemma calls_get_or_create [simp]: "calls (get_or_create k s) = calls s"
  by (simp add: get_or_create_def)

lemma calls_caches [simp]:
  "calls (s\<lparr>participantSDCache := m\<rparr>) = calls s" "calls (s\<lparr>identifierCache := m'\<rparr>) = calls s"
  by (simp_all add: calls_def)

section \<open>Credentials\<close>

lemma issued_fetchToken:
  assumes "fetchToken (traced env) c s = (r, s')" and "staticToken c = []"
  shows "issued (client_request c) 1 s s'"
proof -
  have "calls s' = calls s \<or> (\<exists>x. calls s' = calls s @ [x] \<and> client_request c x)"
    using assms
    by (auto simp: fetchToken_def new_request_Inr set_header_def gset_def client_request_def token_request_def
        split: sum.splits prod.splits http_result.splits if_splits dest!: calls_http_do calls_unexpectedStatus)
  then show ?thesis by (auto simp: issued_def)
qed

lemma issued_refresh_token:
  assumes "refresh_token (traced env) c s = (r, s')" and "staticToken c = []"
  shows "issued (client_request c) 1 s s'"
  using assms
  by (auto simp: refresh_token_def split: sum.splits prod.splits
      dest!: issued_fetchToken calls_time_now intro: issued_calls_eq)

lemma issued_participant_token:
  assumes "participant_token (traced env) c f s = (r, s')"
  shows "issued (client_request c) (if staticToken c = [] then 1 else 0) s s'"
proof (cases "staticToken c = []")
  case True
  then show ?thesis
    using assms
    by (auto simp: participant_token_def Let_def split: if_splits prod.splits
        dest!: issued_refresh_token calls_time_now intro: issued_from_eq)
next
  case False
  then show ?thesis using assms by (auto simp: participant_token_def)
qed

lemma issued_fetchProviderSD:
  assumes "fetchProviderSD (traced env) c token s = (r, s')"
  shows "issued (client_request c) 1 s s'"
proof (cases "new_request env ''GET'' (endpoint c ''/participants/me'') None")
  case (Inl e)
  then show ?thesis using assms by (auto simp: fetchProviderSD_def)
next
  case (Inr rq)
  obtain x s1 where d: "client_do (traced env) c (bearer token rq) s = (x, s1)" by fastforce
  then obtain y where "calls s1 = calls s @ [(sent c (bearer token rq), y)]" by (rule calls_client_do)
  moreover have "calls s' = calls s1"
    using assms Inr d
    by (auto simp: fetchProviderSD_def split: sum.splits prod.splits if_splits dest!: calls_unexpectedStatus)
  ultimately show ?thesis using sent_get [OF Inr, of c token] by (auto simp: issued_def)
qed

lemma issued_provider_sd:
  assumes "provider_sd (traced env) c token s = (r, s')"
  shows "issued (client_request c) (if providerSD c = [] then 1 else 0) s s'"
  using assms
  by (auto simp: provider_sd_def Let_def split: if_splits sum.splits prod.splits
      dest!: issued_fetchProviderSD intro: issued_calls_eq)

text \<open>A client configured with both a token and a self-description never calls out for credentials.\<close>

definition credential_budget :: "client \<Rightarrow> nat" where
  "credential_budget c = (if staticToken c = [] then 1 else 0) + (if providerSD c = [] then 1 else 0)"

lemma issued_credentials:
  assumes "credentials (traced env) c f s = (r, s')"
  shows "issued (client_request c) (credential_budget c) s s'"
proof (cases "staticToken c \<noteq> [] \<and> providerSD c \<noteq> [] \<or> staticToken c = [] \<and> tokenServiceURL c = []")
  case True
  then show ?thesis using assms by (auto simp: credentials_def)
next
  case False
  obtain t s1 where t: "participant_token (traced env) c f (get_or_create (cacheKey c) s) = (t, s1)" by fastforce
  have i1: "issued (client_request c) (if staticToken c = [] then 1 else 0) s s1"
    using issued_participant_token [OF t] by (rule issued_from_eq) simp
  show ?thesis
  proof (cases t)
    case (Inl e)
    then have "s' = s1" using assms False t by (auto simp: credentials_def)
    then show ?thesis using issued_mono [OF i1, of "credential_budget c"] by (simp add: credential_budget_def)
  next
    case (Inr tok)
    obtain p s2 where p: "provider_sd (traced env) c tok s1 = (p, s2)" by fastforce
    then have "s' = s2" using assms False t Inr by (auto simp: credentials_def split: sum.splits)
    with issued_trans [OF i1 issued_provider_sd [OF p]] show ?thesis by (simp add: credential_budget_def)
  qed
qed

section \<open>The check\<close>

lemma issued_search_identifier:
  assumes "search_identifier (traced env) c subject sd token s = (r, s')"
  shows "issued (client_request c) 1 s s'"
proof (cases "new_request env ''POST'' (endpoint c ''/users/identifier/search'')
     (Some (JObj [(''email'', json_string subject), (''selfDescription'', json_string sd)]))")
  case (Inl e)
  then show ?thesis using assms by (auto simp: search_identifier_def)
next
  case (Inr rq)
  obtain x s1 where d: "client_do (traced env) c (identifier_request c token rq) s = (x, s1)" by fastforce
  then obtain y where "calls s1 = calls s @ [(sent c (identifier_request c token rq), y)]" by (rule calls_client_do)
  moreover have "calls s' = calls s1"
    using assms Inr d
    by (auto simp: search_identifier_def split: sum.splits prod.splits if_splits
        dest!: calls_unexpectedStatus calls_time_now)
  ultimately show ?thesis using sent_search [OF Inr, of token] by (auto simp: issued_def)
qed

lemma issued_resolve:
  assumes "resolveUserIdentifier (traced env) c subject sd token s = (r, s')"
  shows "issued (client_request c) 1 s s'"
  using assms
  by (auto simp: resolveUserIdentifier_def split: option.splits prod.splits
      dest!: issued_search_identifier calls_time_now intro: issued_from_eq)

text \<open>
  The consents lookup is one exchange, and its verdict is that of the receipts in the reply.
\<close>

lemma hasGrantedConsent_Inr:
  assumes "hasGrantedConsent (traced env) c token u req s = (Inr b, s')"
  obtains body recs where "calls s' = calls s @ [(manager_get c (consents_url c u) token, Response 200 body)]"
    and "unmarshal dec_consents body [] = Some recs" and "b \<longleftrightarrow> (\<exists>r\<in>set recs. authorizes req r)"
proof -
  obtain rq where rq: "new_request env ''GET'' (consents_url c u) None = Inr rq"
    using assms by (auto simp: hasGrantedConsent_def split: sum.splits)
  obtain x s1 where d: "client_do (traced env) c (bearer token rq) s = (x, s1)" by fastforce
  then obtain y where y: "calls s1 = calls s @ [(sent c (bearer token rq), y)]"
    and y': "\<And>status body. x = Inr (status, body) \<Longrightarrow> y = Response status body"
    by (rule calls_client_do) blast
  obtain body recs where "x = Inr (200, body)" "s' = s1" "unmarshal dec_consents body [] = Some recs"
    "b = any_granted req recs"
    using assms rq d
    by (auto simp: hasGrantedConsent_def json_unmarshal_def
        split: sum.splits prod.splits if_splits option.splits dest!: calls_unexpectedStatus)
  with y y' sent_get [OF rq, of c token] show thesis
    by (intro that) (auto simp: any_granted_iff)
qed

lemma issued_hasGrantedConsent:
  assumes "hasGrantedConsent (traced env) c token u req s = (r, s')"
  shows "issued (client_request c) 1 s s'"
proof (cases "new_request env ''GET'' (consents_url c u) None")
  case (Inl e)
  then show ?thesis using assms by (auto simp: hasGrantedConsent_def)
next
  case (Inr rq)
  obtain x s1 where d: "client_do (traced env) c (bearer token rq) s = (x, s1)" by fastforce
  then obtain y where "calls s1 = calls s @ [(sent c (bearer token rq), y)]" by (rule calls_client_do)
  moreover have "calls s' = calls s1"
    using assms Inr d
    by (auto simp: hasGrantedConsent_def split: sum.splits prod.splits if_splits dest!: calls_unexpectedStatus)
  ultimately show ?thesis using sent_get [OF Inr, of c token] by (auto simp: issued_def)
qed

lemma issued_check:
  assumes "check (traced env) c req f s = (r, s')"
  shows "issued (client_request c) (credential_budget c + 2) s s'"
proof -
  obtain x s1 where cr: "credentials (traced env) c f s = (x, s1)" by fastforce
  note i1 = issued_credentials [OF cr]
  show ?thesis
  proof (cases x)
    case (Inl e)
    with cr assms have "s' = s1" by (simp add: check_def)
    then show ?thesis using issued_mono [OF i1, of "credential_budget c + 2"] by simp
  next
    case (Inr ts)
    obtain token sd where ts: "ts = (token, sd)" by fastforce
    obtain y s2 where re: "resolveUserIdentifier (traced env) c (Subject req) sd token s1 = (y, s2)" by fastforce
    note i2 = issued_trans [OF i1 issued_resolve [OF re]]
    show ?thesis
    proof (cases "\<exists>u. y = Inr (Some u)")
      case True
      then obtain u where u: "y = Inr (Some u)" by blast
      obtain z s3 where h: "hasGrantedConsent (traced env) c token u req s2 = (z, s3)" by fastforce
      have "s' = s3"
        using assms cr Inr ts re u h by (auto simp: check_def split: sum.splits bool.splits)
      with issued_trans [OF i2 issued_hasGrantedConsent [OF h]] show ?thesis by simp
    next
      case False
      then have "s' = s2"
        using assms cr Inr ts re by (auto simp: check_def split: sum.splits option.splits)
      then show ?thesis using issued_mono [OF i2, of "credential_budget c + 2"] by simp
    qed
  qed
qed

text \<open>One attempt, and a second one only when the token is not static.\<close>

definition check_budget :: "client \<Rightarrow> nat" where
  "check_budget c = (if staticToken c = [] then 2 else 1) * (credential_budget c + 2)"

lemma check_with_retry_cases:
  assumes "check_with_retry env c req s = (r, s')"
  obtains "check env c req False s = (r, s')"
    | s1 e where "check env c req False s = (Inl e, s1)" "errors_is e ParticipantUnauthorized"
        "staticToken c = []" "check env c req True s1 = (r, s')"
  using assms by (auto simp: check_with_retry_def split: prod.splits sum.splits if_splits)

lemma issued_check_with_retry:
  assumes "check_with_retry (traced env) c req s = (r, s')"
  shows "issued (client_request c) (check_budget c) s s'"
  using assms
proof (cases rule: check_with_retry_cases)
  case 1
  from issued_mono [OF issued_check [OF this], of "check_budget c"] show ?thesis by (simp add: check_budget_def)
next
  case (2 s1 e)
  from issued_trans [OF issued_check [OF 2(1)] issued_check [OF 2(4)]] 2(3)
  show ?thesis by (simp add: check_budget_def mult_2)
qed

lemma CheckConsent_state:
  assumes "CheckConsent env c req s = (r, s')"
  obtains "s' = s" | r' where "check_with_retry env c req s = (r', s')"
  using assms by (auto simp: CheckConsent_def split: if_splits prod.splits sum.splits)

lemma issued_CheckConsent:
  "CheckConsent (traced env) c req s = (r, s') \<Longrightarrow> issued (client_request c) (check_budget c) s s'"
  by (elim CheckConsent_state) (auto intro: issued_check_with_retry)

lemma check_allow:
  assumes "check (traced env) c req f s = (Inr resp, s')" and "Decision resp = DecisionAllow"
  shows "\<exists>es token u body recs r.
    calls s' = calls s @ es @ [(manager_get c (consents_url c u) token, Response 200 body)]
    \<and> unmarshal dec_consents body [] = Some recs \<and> r \<in> set recs \<and> authorizes req r"
proof -
  obtain token sd s1 where cr: "credentials (traced env) c f s = (Inr (token, sd), s1)"
    using assms(1) by (auto simp: check_def split: prod.splits sum.splits)
  obtain u s2 where re: "resolveUserIdentifier (traced env) c (Subject req) sd token s1 = (Inr (Some u), s2)"
    using assms cr by (auto simp: check_def split: prod.splits sum.splits option.splits)
  have h: "hasGrantedConsent (traced env) c token u req s2 = (Inr True, s')"
    using assms cr re by (auto simp: check_def split: prod.splits sum.splits bool.splits)
  obtain es where es: "calls s2 = calls s @ es"
    using issued_later [OF issued_trans [OF issued_credentials [OF cr] issued_resolve [OF re]]] by blast
  from h obtain body recs where "calls s' = calls s2 @ [(manager_get c (consents_url c u) token, Response 200 body)]"
    and "unmarshal dec_consents body [] = Some recs" and "True \<longleftrightarrow> (\<exists>r\<in>set recs. authorizes req r)"
    by (rule hasGrantedConsent_Inr)
  with es show ?thesis by auto
qed

lemma CheckConsent_allow:
  assumes "CheckConsent (traced env) c req s = (Inr resp, s')" and "Decision resp = DecisionAllow"
  shows "Subject req \<noteq> [] \<and> Consumer req \<noteq> [] \<and>
    (\<exists>es token u body recs r.
      calls s' = calls s @ es @ [(manager_get c (consents_url c u) token, Response 200 body)]
      \<and> unmarshal dec_consents body [] = Some recs \<and> r \<in> set recs \<and> authorizes req r)"
proof -
  have run: "Subject req \<noteq> []" "Consumer req \<noteq> []" "check_with_retry (traced env) c req s = (Inr resp, s')"
    using assms by (auto simp: CheckConsent_def split: if_splits prod.splits sum.splits)
  from run(3) have "\<exists>es token u body recs r.
      calls s' = calls s @ es @ [(manager_get c (consents_url c u) token, Response 200 body)]
      \<and> unmarshal dec_consents body [] = Some recs \<and> r \<in> set recs \<and> authorizes req r"
  proof (cases rule: check_with_retry_cases)
    case 1
    then show ?thesis using check_allow assms(2) by blast
  next
    case (2 s1 e)
    obtain es where "calls s1 = calls s @ es" using issued_later [OF issued_check [OF 2(1)]] by blast
    then show ?thesis using check_allow [OF 2(4) assms(2)] by (metis append.assoc)
  qed
  with run show ?thesis by simp
qed

section \<open>The registry\<close>

lemma issued_lookupParticipantSD:
  assumes "lookupParticipantSD (traced env) c did f s = (r, s')"
  shows "issued (client_request c) (credential_budget c + 1) s s'"
proof -
  obtain x s1 where cr: "credentials (traced env) c f s = (x, s1)" by fastforce
  note i1 = issued_credentials [OF cr]
  show ?thesis
  proof (cases "\<exists>ts rq. x = Inr ts \<and> new_request env ''GET'' (endpoint c ''/participants'') None = Inr rq")
    case True
    then obtain token sd rq where x: "x = Inr (token, sd)"
      and rq: "new_request env ''GET'' (endpoint c ''/participants'') None = Inr rq" by auto
    obtain y s2 where d: "client_do (traced env) c (bearer token rq) s1 = (y, s2)" by fastforce
    then obtain z where z: "calls s2 = calls s1 @ [(sent c (bearer token rq), z)]" by (rule calls_client_do)
    have "calls s' = calls s2"
      using assms cr x rq d
      by (auto simp: lookupParticipantSD_def split: sum.splits prod.splits if_splits dest!: calls_unexpectedStatus)
    with z sent_get [OF rq, of c token] have "issued (client_request c) 1 s1 s'" by (auto simp: issued_def)
    from issued_trans [OF i1 this] show ?thesis .
  next
    case False
    then have "s' = s1"
      using assms cr by (auto simp: lookupParticipantSD_def split: sum.splits)
    then show ?thesis using issued_mono [OF i1, of "credential_budget c + 1"] by simp
  qed
qed

lemma issued_lookup_with_retry:
  assumes "lookup_with_retry (traced env) c did s = (r, s')"
  shows "issued (client_request c) ((if staticToken c = [] then 2 else 1) * (credential_budget c + 1)) s s'"
proof -
  obtain x s1 where l: "lookupParticipantSD (traced env) c did False s = (x, s1)" by fastforce
  note i1 = issued_lookupParticipantSD [OF l]
  show ?thesis
  proof (cases "\<exists>e. x = Inl e \<and> errors_is e ParticipantUnauthorized \<and> staticToken c = []")
    case True
    then have "lookupParticipantSD (traced env) c did True s1 = (r, s')"
      using assms l by (auto simp: lookup_with_retry_def)
    from issued_trans [OF i1 issued_lookupParticipantSD [OF this]] True show ?thesis
      by (auto simp: mult_2)
  next
    case False
    then have "s' = s1" using assms l by (auto simp: lookup_with_retry_def split: sum.splits if_splits)
    then show ?thesis
      using issued_mono [OF i1, of "(if staticToken c = [] then 2 else 1) * (credential_budget c + 1)"] by simp
  qed
qed

lemma issued_ParticipantSD:
  assumes "ParticipantSelfDescriptionByDID (traced env) c did s = (r, s')"
  shows "issued (client_request c) ((if staticToken c = [] then 2 else 1) * (credential_budget c + 1)) s s'"
proof -
  let ?n = "(if staticToken c = [] then 2 else 1) * (credential_budget c + 1)"
  have fill: "issued (client_request c) ?n t t'" if "fill_participant_sd (traced env) c did t = (x, t')" for t x t'
    using that
    by (auto simp: fill_participant_sd_def Let_def split: prod.splits sum.splits option.splits if_splits
        dest!: issued_lookup_with_retry calls_time_now intro: issued_calls_eq)
  show ?thesis
    using assms
    by (auto simp: ParticipantSelfDescriptionByDID_def split: if_splits option.splits prod.splits
        dest!: fill calls_time_now intro: issued_from_eq)
qed

lemma issued_ProviderSelfDescription:
  "ProviderSelfDescription (traced env) c s = (r, s') \<Longrightarrow> issued (client_request c) (credential_budget c) s s'"
  by (auto simp: ProviderSelfDescription_def split: prod.splits sum.splits dest!: issued_credentials)

end
