(* ===== verification/Ttl_Cache.thy ===== *)
theory Ttl_Cache
  imports Prelude
begin

text \<open>
  The interface of a cache whose entries expire: what \<open>ParticipantSelfDescriptionByDID\<close> and
  \<open>resolveUserIdentifier\<close> rely on.  The laws say what a lookup returns after an insertion; the
  lemmas, proved once for every provider, say what a lookup can return after any history of
  insertions.  The consent client interprets the interface twice, for its identifier cache and for its
  self-description cache, whose negative answers live shorter than its positive ones.
\<close>

locale ttl_cache =
  fixes lookup :: "'k \<Rightarrow> time \<Rightarrow> 'm \<Rightarrow> 'v option"
    and put :: "'k \<Rightarrow> 'v \<Rightarrow> time \<Rightarrow> 'm \<Rightarrow> 'm"
    and ttl :: "'v \<Rightarrow> duration"
    and empty :: 'm
  assumes lookup_empty: "lookup k t empty = None"
    and lookup_put_same: "lookup k t (put k v t0 m) = (if t < t0 + ttl v then Some v else None)"
    and lookup_put_other: "k \<noteq> k' \<Longrightarrow> lookup k t (put k' v t0 m) = lookup k t m"
begin

lemma lookup_put:
  "lookup k t (put k' v t0 m) = (if k = k' then if t < t0 + ttl v then Some v else None else lookup k t m)"
  by (simp add: lookup_put_same lookup_put_other)

text \<open>A hit is an answer that was put under this very key less than its lifetime ago.\<close>

lemma hit_is_fresh:
  "lookup k t (foldl (\<lambda>m (k', v, t0). put k' v t0 m) empty ps) = Some v \<Longrightarrow>
   \<exists>t0. (k, v, t0) \<in> set ps \<and> t < t0 + ttl v"
proof (induction ps rule: rev_induct)
  case Nil
  then show ?case by (simp add: lookup_empty)
next
  case (snoc p ps)
  then show ?case by (cases p) (auto simp: lookup_put split: if_splits)
qed

text \<open>The newest answer under a key hides every older one, also after it has expired.\<close>

lemma newest_decides:
  "k \<notin> fst ` set qs \<Longrightarrow>
   lookup k t (foldl (\<lambda>m (k', v, t0). put k' v t0 m) empty (ps @ (k, v, t0) # qs))
     = (if t < t0 + ttl v then Some v else None)"
proof (induction qs rule: rev_induct)
  case Nil
  then show ?case by (simp add: lookup_put_same)
next
  case (snoc q qs)
  then show ?case by (cases q) (auto simp: lookup_put_other)
qed

end

end
