(* ===== verification/Client_Errors.thy ===== *)
theory Client_Errors
  imports Client_Calls Ttl_Cache
begin

text \<open>
  How the consent client fails, what its cached tokens are worth, and which cache entries it touches.
  An error from the network or from a library cannot carry the sentinel errors of this program
  (\<open>clean_env\<close>), which are package variables that only its own code wraps.
\<close>

section \<open>Errors\<close>

definition chain_in :: "sentinel set \<Rightarrow> gerror \<Rightarrow> bool" where
  "chain_in A e \<longleftrightarrow> set (err_chain e) \<subseteq> A"

definition clean_result :: "sentinel set \<Rightarrow> http_result \<Rightarrow> bool" where
  "clean_result A r \<longleftrightarrow> (case r of Do_Error e \<Rightarrow> chain_in A e | Read_Error _ e \<Rightarrow> chain_in A e | Response _ _ \<Rightarrow> True)"

definition clean_for :: "sentinel set \<Rightarrow> 'w env \<Rightarrow> bool" where
  "clean_for A env \<longleftrightarrow>
     (\<forall>rq w. clean_result A (fst (http_of env rq w)))
     \<and> (\<forall>u. case url_error env u of None \<Rightarrow> True | Some e \<Rightarrow> chain_in A e)
     \<and> (\<forall>u. case uri_error env u of None \<Rightarrow> True | Some e \<Rightarrow> chain_in A e)"

text \<open>Errors of the network and the libraries can only wrap the two errors of a context.\<close>

abbreviation context_errors :: "sentinel set" where
  "context_errors \<equiv> {Canceled, DeadlineExceeded}"

abbreviation external :: "gerror \<Rightarrow> bool" where
  "external \<equiv> chain_in context_errors"

abbreviation clean_env :: "'w env \<Rightarrow> bool" where
  "clean_env \<equiv> clean_for context_errors"

lemma chain_in_simps [simp]:
  "chain_in A (new_error t)" "chain_in A (errorf_w p e) \<longleftrightarrow> chain_in A e"
  by (simp_all add: chain_in_def new_error_def errorf_w_def)

lemma chain_in_not: "chain_in A e \<Longrightarrow> x \<notin> A \<Longrightarrow> \<not> errors_is e x"
  by (auto simp: chain_in_def errors_is_def)

lemma chain_in_mono: "chain_in A e \<Longrightarrow> A \<subseteq> B \<Longrightarrow> chain_in B e"
  by (auto simp: chain_in_def)

lemma external_not:
  "external e \<Longrightarrow> \<not> errors_is e NoCredentials" "external e \<Longrightarrow> \<not> errors_is e ParticipantNotRegistered"
  "external e \<Longrightarrow> \<not> errors_is e ParticipantUnauthorized" "external e \<Longrightarrow> \<not> errors_is e ClaimPathUnset"
  by (auto dest: chain_in_not)

lemma clean_traced: "clean_for A env \<Longrightarrow> clean_for A (traced env)"
  by (auto simp: clean_for_def traced_def split: prod.splits) (metis fst_conv)

lemma clean_http_do:
  assumes "http_do env rq s = (r, s')" and "clean_for A env"
  shows "clean_result A r"
proof -
  have "r = fst (http_of env rq (world s))" using assms(1) by (auto simp: http_do_def split: prod.splits)
  with assms(2) show ?thesis by (simp add: clean_for_def)
qed

lemma clean_new_request: "new_request env m u b = Inl e \<Longrightarrow> clean_for A env \<Longrightarrow> chain_in A e"
  by (auto simp: clean_for_def new_request_def split: option.splits)

lemma clean_json: "json_unmarshal env t d b z = Inl e \<Longrightarrow> chain_in A e"
  by (auto simp: json_unmarshal_def split: option.splits)

lemma clean_client_do: "client_do env c rq s = (Inl e, s') \<Longrightarrow> clean_for A env \<Longrightarrow> chain_in A e"
  by (auto simp: client_do_def clean_result_def split: prod.splits http_result.splits dest!: clean_http_do)

lemma clean_unexpectedStatus: "unexpectedStatus env op st b s = (e, s') \<Longrightarrow> chain_in A e"
  by (auto simp: unexpectedStatus_def)

lemmas clean_errors = clean_new_request clean_json clean_client_do clean_unexpectedStatus

text \<open>The error of a call to the consent-manager is one of its surroundings, or the 401 sentinel.\<close>

definition call_error :: "sentinel set \<Rightarrow> gerror \<Rightarrow> bool" where
  "call_error A e \<longleftrightarrow> chain_in A e \<or> e = unauthorized_error"

lemma errors_fetchToken: "clean_for A env \<Longrightarrow> fetchToken env c s = (Inl e, s') \<Longrightarrow> chain_in A e"
  by (auto simp: fetchToken_def clean_result_def
      split: sum.splits prod.splits http_result.splits if_splits dest!: clean_errors clean_http_do)

lemma errors_fetchProviderSD: "clean_for A env \<Longrightarrow> fetchProviderSD env c tok s = (Inl e, s') \<Longrightarrow> call_error A e"
  by (auto simp: fetchProviderSD_def call_error_def
      split: sum.splits prod.splits if_splits dest!: clean_errors)

lemma errors_search: "clean_for A env \<Longrightarrow> search_identifier env c sub sd tok s = (Inl e, s') \<Longrightarrow> call_error A e"
  by (auto simp: search_identifier_def call_error_def
      split: sum.splits prod.splits if_splits dest!: clean_errors)

lemma errors_resolve: "clean_for A env \<Longrightarrow> resolveUserIdentifier env c sub sd tok s = (Inl e, s') \<Longrightarrow> call_error A e"
  by (auto simp: resolveUserIdentifier_def split: option.splits prod.splits dest: errors_search)

lemma errors_hasGrantedConsent:
  "clean_for A env \<Longrightarrow> hasGrantedConsent env c tok u req s = (Inl e, s') \<Longrightarrow> call_error A e"
  by (auto simp: hasGrantedConsent_def call_error_def
      split: sum.splits prod.splits if_splits dest!: clean_errors)

lemma errors_participant_token:
  "clean_for A env \<Longrightarrow> participant_token env c f s = (Inl e, s') \<Longrightarrow> chain_in A e"
  by (auto simp: participant_token_def refresh_token_def Let_def
      split: if_splits sum.splits prod.splits dest: errors_fetchToken)

lemma errors_provider_sd: "clean_for A env \<Longrightarrow> provider_sd env c tok s = (Inl e, s') \<Longrightarrow> call_error A e"
  by (auto simp: provider_sd_def Let_def split: if_splits sum.splits prod.splits dest: errors_fetchProviderSD)

definition no_credentials :: "client \<Rightarrow> bool" where
  "no_credentials c \<longleftrightarrow> staticToken c = [] \<and> tokenServiceURL c = []"

lemma credentials_none: "no_credentials c \<Longrightarrow> credentials env c f s = (Inl no_credentials_error, s)"
  by (simp add: credentials_def no_credentials_def)

lemma errors_credentials:
  "clean_for A env \<Longrightarrow> \<not> no_credentials c \<Longrightarrow> credentials env c f s = (Inl e, s') \<Longrightarrow> call_error A e"
  by (auto simp: credentials_def no_credentials_def split: if_splits sum.splits prod.splits
      dest: errors_participant_token errors_provider_sd simp: call_error_def)

lemma errors_check:
  "clean_for A env \<Longrightarrow> \<not> no_credentials c \<Longrightarrow> check env c req f s = (Inl e, s') \<Longrightarrow> call_error A e"
  by (auto simp: check_def split: sum.splits prod.splits option.splits bool.splits
      dest: errors_credentials errors_resolve errors_hasGrantedConsent)

lemma errors_check_with_retry:
  "clean_for A env \<Longrightarrow> \<not> no_credentials c \<Longrightarrow> check_with_retry env c req s = (Inl e, s') \<Longrightarrow> call_error A e"
  by (auto simp: check_with_retry_def split: sum.splits prod.splits if_splits dest: errors_check)

lemma check_none: "no_credentials c \<Longrightarrow> check_with_retry env c req s = (Inl no_credentials_error, s)"
  by (simp add: check_with_retry_def check_def credentials_none no_credentials_error_def)

lemma errors_lookup:
  "clean_for A env \<Longrightarrow> \<not> no_credentials c \<Longrightarrow> lookupParticipantSD env c did f s = (Inl e, s') \<Longrightarrow> call_error A e"
  by (auto simp: lookupParticipantSD_def decodeParticipants_def call_error_def
      split: sum.splits prod.splits if_splits dest: clean_errors errors_credentials [unfolded call_error_def])

lemma lookup_none: "no_credentials c \<Longrightarrow> lookup_with_retry env c did s = (Inl no_credentials_error, s)"
  by (simp add: lookup_with_retry_def lookupParticipantSD_def credentials_none no_credentials_error_def)

lemma errors_lookup_with_retry:
  "clean_for A env \<Longrightarrow> lookup_with_retry env c did s = (Inl e, s') \<Longrightarrow> call_error A e \<or> e = no_credentials_error"
  by (cases "no_credentials c")
     (auto simp: lookup_none, auto simp: lookup_with_retry_def split: sum.splits prod.splits if_splits dest: errors_lookup)

section \<open>Tokens\<close>

lemma refresh_token_Inr:
  assumes "refresh_token env c s = (Inr tok, s')"
  obtains lifetime s1 now s2 where "fetchToken env c s = (Inr (tok, lifetime), s1)" and "time_now env s1 = (now, s2)"
    and "s' = set_entry (cacheKey c) ((cred_entry (cacheKey c) s2)\<lparr>ce_token := tok,
           ce_tokenExpiry := now + cacheFor lifetime (tokenTTL c)\<rparr>) s2"
  using assms by (auto simp: refresh_token_def split: prod.splits sum.splits)

lemma fetchToken_Inr:
  assumes "fetchToken (traced env) c s = (Inr (tok, lifetime), s')"
  shows "\<exists>rq body out. token_request c rq \<and> calls s' = calls s @ [(rq, Response 200 body)]
    \<and> unmarshal dec_token_response body \<lparr>AccessToken = [], TokenType = [], ExpiresIn = 0\<rparr> = Some out
    \<and> tok = AccessToken out \<and> tok \<noteq> [] \<and> lifetime = i64 (ExpiresIn out * second)"
  using assms
  by (auto simp: fetchToken_def new_request_Inr set_header_def gset_def token_request_def json_unmarshal_def
      split: sum.splits prod.splits http_result.splits if_splits option.splits
      dest!: calls_http_do calls_unexpectedStatus)

lemma cred_entry_set_entry [simp]:
  "cred_entry k (set_entry k' e s) = (if k = k' then e else cred_entry k s)"
  by (simp add: cred_entry_def set_entry_def)

section \<open>Isolation of the caches\<close>

text \<open>
  \<open>keeps_others K I s s'\<close>: the self-description cache is untouched, credential entries change only
  under the key \<open>K\<close> and identifiers only under the keys satisfying \<open>I\<close>.
\<close>

definition keeps_others :: "string \<Rightarrow> (string \<Rightarrow> bool)
    \<Rightarrow> ('w, 'z) client_proc_scheme \<Rightarrow> ('w, 'z) client_proc_scheme \<Rightarrow> bool" where
  "keeps_others K I s s' \<longleftrightarrow>
     participantSDCache s' = participantSDCache s
     \<and> (\<forall>k. k = K \<or> map_of (credCache s') k = map_of (credCache s) k)
     \<and> (\<forall>k. I k \<or> map_of (identifierCache s') k = map_of (identifierCache s) k)"

lemma keeps_refl [simp, intro]: "keeps_others K I s s"
  by (simp add: keeps_others_def)

lemma keeps_trans: "keeps_others K I s s1 \<Longrightarrow> keeps_others K I s1 s2 \<Longrightarrow> keeps_others K I s s2"
  unfolding keeps_others_def by metis

lemma keeps_time_now: "time_now env s = (t, s') \<Longrightarrow> keeps_others K I s s'"
  by (auto simp: keeps_others_def dest!: time_now_split)

lemma keeps_http_do: "http_do env rq s = (r, s') \<Longrightarrow> keeps_others K I s s'"
  by (auto simp: keeps_others_def dest!: http_do_split)

lemma keeps_log_every: "keeps_others K I s (log_every env lvl k m s)"
proof -
  obtain w m' l where "log_every env lvl k m s = s\<lparr>world := w, supp := m', log_lines := l\<rparr>"
    using log_every_split [of env lvl k m s] by blast
  then show ?thesis by (simp add: keeps_others_def)
qed

lemma keeps_unexpectedStatus: "unexpectedStatus env op st b s = (e, s') \<Longrightarrow> keeps_others K I s s'"
  by (auto simp: unexpectedStatus_def intro: keeps_log_every)

lemma keeps_client_do: "client_do env c rq s = (r, s') \<Longrightarrow> keeps_others K I s s'"
  by (auto simp: client_do_def split: prod.splits http_result.splits intro: keeps_http_do)

lemma keeps_set_entry: "keeps_others K I s (set_entry K e s)"
  by (simp add: keeps_others_def set_entry_def)

lemma keeps_get_or_create: "keeps_others K I s (get_or_create K s)"
  by (simp add: get_or_create_def keeps_set_entry)

lemmas keeps_intros = keeps_time_now keeps_http_do keeps_unexpectedStatus keeps_client_do
  keeps_set_entry keeps_get_or_create

lemma keeps_fetchToken: "fetchToken env c s = (r, s') \<Longrightarrow> keeps_others K I s s'"
  by (auto simp: fetchToken_def split: sum.splits prod.splits http_result.splits if_splits
      intro: keeps_intros keeps_trans)

lemma keeps_fetchProviderSD: "fetchProviderSD env c tok s = (r, s') \<Longrightarrow> keeps_others K I s s'"
  by (auto simp: fetchProviderSD_def split: sum.splits prod.splits if_splits intro: keeps_intros keeps_trans)

lemma keeps_refresh_token: "refresh_token env c s = (r, s') \<Longrightarrow> keeps_others (cacheKey c) I s s'"
  by (auto simp: refresh_token_def split: sum.splits prod.splits
      intro: keeps_time_now keeps_fetchToken keeps_trans [OF _ keeps_trans [OF _ keeps_set_entry]])

lemma keeps_participant_token: "participant_token env c f s = (r, s') \<Longrightarrow> keeps_others (cacheKey c) I s s'"
  by (auto simp: participant_token_def Let_def split: if_splits prod.splits
      intro: keeps_intros keeps_trans keeps_refresh_token)

lemma keeps_provider_sd: "provider_sd env c tok s = (r, s') \<Longrightarrow> keeps_others (cacheKey c) I s s'"
  by (auto simp: provider_sd_def Let_def split: if_splits sum.splits prod.splits
      intro: keeps_intros keeps_trans keeps_fetchProviderSD)

lemma keeps_credentials: "credentials env c f s = (r, s') \<Longrightarrow> keeps_others (cacheKey c) I s s'"
  by (auto simp: credentials_def split: if_splits sum.splits prod.splits
      dest!: keeps_participant_token [of env c f _ _ _ I] keeps_provider_sd [of env c _ _ _ _ I]
      intro: keeps_trans [OF keeps_get_or_create] keeps_trans)

lemma keeps_search:
  assumes "search_identifier env c sub sd tok s = (r, s')" and i: "I (identifierCacheKey c sd sub)"
  shows "keeps_others K I s s'"
proof -
  have put: "keeps_others K I s0 (t\<lparr>identifierCache := id_put (identifierCacheKey c sd sub) u now (identifierCache t)\<rparr>)"
    if "keeps_others K I s0 t" for s0 t :: "('a, 'b) client_proc_scheme" and u now
    using i that by (auto simp: keeps_others_def id_put_def)
  show ?thesis
    using assms(1)
    by (auto simp: search_identifier_def split: sum.splits prod.splits if_splits
        dest!: keeps_time_now [of env _ _ _ K I] keeps_client_do [of env c _ _ _ _ K I]
          keeps_unexpectedStatus [of env _ _ _ _ _ _ K I]
        intro: keeps_trans put)
qed

lemma keeps_resolve:
  "resolveUserIdentifier env c sub sd tok s = (r, s') \<Longrightarrow> I (identifierCacheKey c sd sub) \<Longrightarrow> keeps_others K I s s'"
  by (auto simp: resolveUserIdentifier_def split: option.splits prod.splits
      dest!: keeps_search [of env c sub sd tok _ _ _ I K] keeps_time_now [of env _ _ _ K I] intro: keeps_trans)

lemma keeps_hasGrantedConsent: "hasGrantedConsent env c tok u req s = (r, s') \<Longrightarrow> keeps_others K I s s'"
  by (auto simp: hasGrantedConsent_def split: sum.splits prod.splits if_splits
      dest!: keeps_client_do [of env c _ _ _ _ K I] keeps_unexpectedStatus [of env _ _ _ _ _ _ K I]
      intro: keeps_trans)

lemma keeps_check:
  assumes "check env c req f s = (r, s')" and i: "\<And>sd. I (identifierCacheKey c sd (Subject req))"
  shows "keeps_others (cacheKey c) I s s'"
proof -
  have re: "keeps_others (cacheKey c) I t t'" if "resolveUserIdentifier env c (Subject req) sd tok t = (x, t')" for sd tok t x t'
    using that i by (rule keeps_resolve)
  show ?thesis
    using assms(1)
    by (auto simp: check_def split: sum.splits prod.splits option.splits bool.splits
        dest!: re keeps_credentials [of env c f _ _ _ I] keeps_hasGrantedConsent [of env c _ _ req _ _ _ "cacheKey c" I]
        intro: keeps_trans)
qed

lemma keeps_check_with_retry:
  assumes "check_with_retry env c req s = (r, s')" and i: "\<And>sd. I (identifierCacheKey c sd (Subject req))"
  shows "keeps_others (cacheKey c) I s s'"
  using assms(1)
proof (cases rule: check_with_retry_cases)
  case 1
  then show ?thesis using i by (rule keeps_check)
next
  case (2 s1 e)
  have "keeps_others (cacheKey c) I s s1" using 2(1) i by (rule keeps_check)
  moreover have "keeps_others (cacheKey c) I s1 s'" using 2(4) i by (rule keeps_check)
  ultimately show ?thesis by (rule keeps_trans)
qed

end
