(* ===== verification/Sample_Runs.thy ===== *)
theory Sample_Runs
  imports Client_Errors
begin

text \<open>
  Small concrete environments and states on which the properties are instantiated: a scripted
  consent-manager that answers every request by a function, with a clock that advances one second at
  each reading.
\<close>

definition scripted_env :: "(http_request \<Rightarrow> http_result) \<Rightarrow> int env" where
  "scripted_env reply =
     \<lparr>now_of = \<lambda>t. (t, t + second), http_of = \<lambda>rq t. (reply rq, t),
      getenv = \<lambda>_. [], is_print = \<lambda>r. 32 \<le> r \<and> r < 127, uri_error = \<lambda>_. None,
      url_error = \<lambda>_. None, json_error = \<lambda>t _. t\<rparr>"

definition demo_client :: client where
  "demo_client = \<lparr>baseURL = ''http://cm'', host = [], apiPrefix = ''/v1'', consentKey = [], providerSD = ''sd:p'',
     staticToken = ''tok'', tokenServiceURL = [], tokenAudience = [], tokenTTL = DefaultTokenTTL, timeout = 5 * second\<rparr>"

definition demo_question :: consent_request where
  "demo_question = \<lparr>Subject = ''did:o'', Resource = ''/d'', Method = ''GET'', DataResource = [], Consumer = ''sd:c'', Purpose = []\<rparr>"

definition demo_reply :: "http_request \<Rightarrow> http_result" where
  "demo_reply rq = Response 200 (if rq_method rq = ''POST'' then ''{\"userIdentifier\":\"u1\"}''
     else ''{\"consents\":[{\"status\":\"granted\",\"recipients\":[\"sd:c\"]}]}'')"

definition empty_proc :: "int client_proc" where
  "empty_proc = \<lparr>world = 0, supp = [], log_lines = [], credCache = [], participantSDCache = [], identifierCache = []\<rparr>"

definition empty_traced :: "(int \<times> exchange list) client_proc" where
  "empty_traced = \<lparr>world = (0, []), supp = [], log_lines = [], credCache = [], participantSDCache = [], identifierCache = []\<rparr>"

lemma demo_parses:
  "json_parse ''{\"userIdentifier\":\"u1\"}'' = Some (JObj [(''userIdentifier'', JStr ''u1'')])"
  "json_parse ''{\"consents\":[{\"status\":\"granted\",\"recipients\":[\"sd:c\"]}]}'' =
     Some (JObj [(''consents'', JArr [JObj [(''status'', JStr ''granted''), (''recipients'', JArr [JStr ''sd:c''])]])])"
  by code_simp+

lemmas plain_defs = key_is_plain plain_key_def code_def in_range_def

lemma other_key: "\<not> key_is ''recipients'' ''dataConsumer''"
  by code_simp

lemma demo_bodies:
  "unmarshal (dec_struct identifier_field) ''{\"userIdentifier\":\"u1\"}'' [] = Some ''u1''"
  "unmarshal dec_consents ''{\"consents\":[{\"status\":\"granted\",\"recipients\":[\"sd:c\"]}]}'' [] =
     Some [zero_record\<lparr>Status := ''granted'', Recipients := [''sd:c'']\<rparr>]"
  unfolding unmarshal_def demo_parses
  by (simp_all add: identifier_field_def dec_consents_def visible_def consents_field_def record_field_def other_key plain_defs)
     (simp_all only: zero_record_def, simp_all add: key_is_def)

lemmas demo_defs = demo_client_def demo_question_def demo_reply_def empty_proc_def empty_traced_def scripted_env_def traced_def

lemmas check_defs = CheckConsent_def check_with_retry_def check_def credentials_def resolveUserIdentifier_def
  search_identifier_def new_request_def client_do_def http_do_def json_unmarshal_def time_now_def
  hasGrantedConsent_def identifier_request_def bearer_def set_header_def

lemmas match_defs = zero_record_def granted_status_def grantedTo_def ref_matches_def zero_ref_def coversPurpose_def
  coversResource_def

end
