(* ===== verification/Metrics_Props.thy ===== *)
theory Metrics_Props
  imports Metrics Sample_Runs
begin

text \<open>
  What the metrics guarantee: counters and histograms are what a recount of the recorded events gives,
  and the exposition is a function of the maps, independent of the order Go enumerates them in.
\<close>

section \<open>Histograms\<close>

text \<open>The bounds as durations: comparing floats puts every duration into the buckets it belongs to.\<close>

definition bucket_durations :: "duration list" where
  "bucket_durations = map (\<lambda>ms. ms * millisecond) [5, 10, 25, 50, 100, 250, 500, 1000, 2500, 5000, 10000]"

lemma bucket_exact:
  assumes "b \<in> set bucket_durations"
  shows "Seconds b = round64 (in_seconds b)"
proof -
  have "0 \<le> b \<and> b < second \<or> b \<in> {1 * second, 2 * second + 500 * millisecond, 5 * second, 10 * second}"
    using assms by (auto simp: bucket_durations_def second_def millisecond_def)
  moreover have "Seconds b = round64 (in_seconds b)" if "b \<in> {1 * second, 5 * second, 10 * second}"
  proof -
    have whole: "Seconds (n * second) = round64 (in_seconds (n * second))" if "0 \<le> n" for n
      by (simp only: Seconds_whole [OF that]) (simp add: second_def)
    show ?thesis using that whole [of 1] whole [of 5] whole [of 10] by auto
  qed
  moreover have "Seconds b = round64 (in_seconds b)" if "b = 2 * second + 500 * millisecond"
  proof -
    have "in_seconds b = of_int 2 + 1 / 2" by (simp add: that second_def millisecond_def)
    then show ?thesis unfolding that by (simp only: Seconds_half)
  qed
  ultimately show ?thesis using Seconds_below_one by blast
qed

lemma bucket_floats: "map fst latencyBuckets = map (\<lambda>b. round64 (in_seconds b)) bucket_durations"
  by (simp add: latencyBuckets_def bucket_durations_def millisecond_def)

lemma bucket_le_iff: "b \<in> set bucket_durations \<Longrightarrow> Seconds d \<le> round64 (in_seconds b) \<longleftrightarrow> d \<le> b"
  by (rule Seconds_le_iff [OF _ _ bucket_exact]) (auto simp: bucket_durations_def second_def millisecond_def)

definition recount :: "duration list \<Rightarrow> 64 word list" where
  "recount ds = map (\<lambda>b. word_of_nat (length (filter (\<lambda>d. d \<le> b) ds))) bucket_durations"

lemma observe_counts: "counts (observe h v) = map2 (\<lambda>b n. if v \<le> b then n + 1 else n) (map fst latencyBuckets) (counts h)"
  by (simp add: observe_def split_def zip_map1 o_def)

lemma map2_map_map: "map2 f (map g xs) (map h xs) = map (\<lambda>x. f (g x) (h x)) xs"
  by (induction xs) auto

lemma observe_recount: "counts h = recount ds \<Longrightarrow> counts (observe h (Seconds d)) = recount (ds @ [d])"
  unfolding observe_counts bucket_floats
  by (simp only: recount_def map2_map_map) (rule map_cong [OF refl], simp only: bucket_le_iff, simp)

lemma histogram_recount:
  "counts (foldl observe new_histogram (map Seconds ds)) = recount ds
   \<and> total (foldl observe new_histogram (map Seconds ds)) = word_of_nat (length ds)"
proof (induction ds rule: rev_induct)
  case Nil
  then show ?case by (simp add: new_histogram_def recount_def bucket_durations_def latencyBuckets_def)
next
  case (snoc d ds)
  with observe_recount [of "foldl observe new_histogram (map Seconds ds)" ds d] show ?case by (simp add: observe_def)
qed

text \<open>The float sum: every duration is rounded twice and then once for each addition that follows.\<close>

lemma histogram_sum:
  assumes "\<forall>d\<in>set ds. 0 \<le> d"
  shows "(1 - unit_roundoff) ^ (length ds + 2) * in_seconds (sum_list ds) \<le> sum_s (foldl observe new_histogram (map Seconds ds))
    \<and> sum_s (foldl observe new_histogram (map Seconds ds)) \<le> (1 + unit_roundoff) ^ (length ds + 2) * in_seconds (sum_list ds)"
  using assms
proof (induction ds rule: rev_induct)
  case Nil
  then show ?case by (simp add: new_histogram_def)
next
  case (snoc d ds)
  let ?u = unit_roundoff and ?n = "length ds + 2" and ?S = "in_seconds (sum_list ds)" and ?x = "in_seconds d"
  let ?a = "sum_s (foldl observe new_histogram (map Seconds ds))"
  have u: "0 \<le> ?u" "?u \<le> 1" by (simp_all add: unit_roundoff_def)
  have IH: "(1 - ?u) ^ ?n * ?S \<le> ?a" "?a \<le> (1 + ?u) ^ ?n * ?S" using snoc by auto
  have d: "0 \<le> d" and S: "0 \<le> ?S" "0 \<le> ?x" using snoc.prems by (auto intro: sum_list_nonneg)
  have "(1 - ?u) ^ ?n * ?x \<le> (1 - ?u) ^ 2 * ?x" "(1 + ?u) ^ 2 * ?x \<le> (1 + ?u) ^ ?n * ?x"
    using S(2) u power_decreasing [of 2 ?n "1 - ?u"] power_increasing [of 2 ?n "1 + ?u"] by (intro mult_right_mono; simp)+
  with Seconds_bounds [OF d] have v: "(1 - ?u) ^ ?n * ?x \<le> Seconds d" "Seconds d \<le> (1 + ?u) ^ ?n * ?x" by linarith+
  have "0 \<le> ?a" using IH(1) S(1) u by (meson diff_ge_0_iff_ge mult_nonneg_nonneg order_trans zero_le_power)
  then have "0 \<le> ?a + Seconds d" using Seconds_nonneg [OF d] by simp
  note r = round64_bounds [OF this]
  have lo: "(1 - ?u) ^ ?n * (?S + ?x) \<le> ?a + Seconds d" and hi: "?a + Seconds d \<le> (1 + ?u) ^ ?n * (?S + ?x)"
    using IH v by (simp_all add: distrib_left)
  have "(1 - ?u) * ((1 - ?u) ^ ?n * (?S + ?x)) \<le> (1 - ?u) * (?a + Seconds d)" using lo u by (intro mult_left_mono) simp_all
  with r(1) have lo': "(1 - ?u) ^ Suc ?n * (?S + ?x) \<le> round64 (?a + Seconds d)" by (simp only: power_Suc mult.assoc)
  have "(1 + ?u) * (?a + Seconds d) \<le> (1 + ?u) * ((1 + ?u) ^ ?n * (?S + ?x))" using hi u by (intro mult_left_mono) simp_all
  with r(2) have hi': "round64 (?a + Seconds d) \<le> (1 + ?u) ^ Suc ?n * (?S + ?x)" by (simp only: power_Suc mult.assoc)
  have s: "in_seconds (sum_list (ds @ [d])) = ?S + ?x" by (simp add: add_divide_distrib)
  have o': "sum_s (foldl observe new_histogram (map Seconds (ds @ [d]))) = round64 (?a + Seconds d)" by (simp add: observe_def)
  show ?case unfolding o' s using lo' hi' by simp
qed

section \<open>Counters\<close>

lemma count_of_increment [simp]: "count_of k (increment k' m) = (if k = k' then count_of k m + 1 else count_of k m)"
  by (simp add: count_of_def increment_def)

lemma wf_increment [simp]: "wf_map m \<Longrightarrow> wf_map (increment k m)"
  by (simp add: increment_def)

lemma count_of_foldl: "count_of k (foldl (\<lambda>m k. increment k m) m ks) = count_of k m + word_of_nat (count_list ks k)"
  by (induction ks arbitrary: m) (auto simp: algebra_simps)

section \<open>Enumeration order\<close>

lemma sorted_keys_eq:
  assumes "wf_map m" and "wf_map m'" and "map_of m = map_of m'"
  shows "sorted_keys m = sorted_keys m'"
proof -
  have "set (map fst m) = set (map fst m')"
    using assms(3) dom_map_of_conv_image_fst by (metis image_set)
  with assms(1,2) show ?thesis
    unfolding sorted_keys_def wf_map_def by (intro sorted_distinct_set_unique) auto
qed

lemma writeCounter_eq:
  "wf_map m \<Longrightarrow> wf_map m' \<Longrightarrow> map_of m = map_of m' \<Longrightarrow> writeCounter env n h f l m = writeCounter env n h f l m'"
  using sorted_keys_eq [of m m'] by (simp add: writeCounter_def count_of_def)

section \<open>Claims\<close>

text \<open>
  C39.  The latency histogram counts exactly and sums to within rounding: after any sequence of recorded
  durations, each bucket holds the number of durations at most its bound and the total their number, modulo 64
  bits, although the code compares \<open>float64\<close> seconds; and the \<open>float64\<close> sum of non-negative durations differs from
  the exact sum by at most one rounding of 53 bits for each duration and two more.
\<close>

theorem histogram_counts:
  assumes "\<forall>d\<in>set ds. 0 \<le> d"
  shows "let h = foldl observe new_histogram (map Seconds ds) in
     counts h = map (\<lambda>ms. word_of_nat (length (filter (\<lambda>d. d \<le> ms * 1000000) ds)))
                  [5, 10, 25, 50, 100, 250, 500, 1000, 2500, 5000, 10000]
     \<and> total h = word_of_nat (length ds)
     \<and> (1 - 1 / 2 ^ 53) ^ (length ds + 2) * (of_int (sum_list ds) / 10 ^ 9) \<le> sum_s h
     \<and> sum_s h \<le> (1 + 1 / 2 ^ 53) ^ (length ds + 2) * (of_int (sum_list ds) / 10 ^ 9)"
  using histogram_recount [of ds] histogram_sum [OF assms]
  by (simp add: Let_def recount_def bucket_durations_def millisecond_def unit_roundoff_def)

theorem histogram_counts_witness:
  "counts (foldl observe new_histogram (map Seconds [5000000, 5000001, 3 * 1000000000])) = [1, 2, 2, 2, 2, 2, 2, 2, 2, 3, 3]
   \<and> total (foldl observe new_histogram (map Seconds [5000000, 5000001, 3 * 1000000000])) = 3"
proof -
  have "\<forall>d\<in>set [5000000, 5000001, 3 * 1000000000 :: duration]. 0 \<le> d" by simp
  from histogram_counts [OF this] show ?thesis by (simp add: Let_def)
qed

text \<open>
  Every recorded decision is counted once, under its decision and fail mode: after any sequence of
  records the counter of a pair is the number of its occurrences, with the empty mode read as none.
\<close>

theorem decisions_counted:
  "count_of k (decisions (foldl (\<lambda>s (d, m). RecordDecision d m s) s ds)) =
     count_of k (decisions s)
     + word_of_nat (count_list (map (\<lambda>(d, m). Label_Pair d (if m = [] then ''none'' else m)) ds) k)"
proof -
  have "decisions (foldl (\<lambda>s (d, m). RecordDecision d m s) s ds) =
      foldl (\<lambda>m k. increment k m) (decisions s) (map (\<lambda>(d, m). Label_Pair d (if m = [] then ''none'' else m)) ds)"
    by (induction ds arbitrary: s) (auto simp: RecordDecision_def)
  then show ?thesis by (simp add: count_of_foldl)
qed

text \<open>
  The exposition is stable: two states whose maps have the same entries render the same text,
  whatever order their maps are enumerated in.
\<close>

theorem render_is_stable:
  assumes "wf_map (decisions s)" "wf_map (decisions s')" "map_of (decisions s) = map_of (decisions s')"
    and "wf_map (dependencyCalls s)" "wf_map (dependencyCalls s')" "map_of (dependencyCalls s) = map_of (dependencyCalls s')"
    and "wf_map (latency s)" "wf_map (latency s')" "map_of (latency s) = map_of (latency s')"
    and "wf_map (callbacks s)" "wf_map (callbacks s')" "map_of (callbacks s) = map_of (callbacks s')"
    and "purposeUnconstrained s = purposeUnconstrained s'" and "RequestContextStoreSize s = RequestContextStoreSize s'"
    and "RequestContextsEvicted s = RequestContextsEvicted s'"
  shows "render env fmt dropped s = render env fmt dropped s'"
proof -
  have "read_metric s dropped = read_metric s' dropped"
    using assms(14,15) by (simp add: fun_eq_iff read_metric_def split: metric_source.split)
  then have "writeCallbacks s dropped = writeCallbacks s' dropped"
    unfolding writeCallbacks_def sorted_keys_eq [OF assms(10-12)] assms(12)
    by (simp cong: option.case_cong)
  then show ?thesis
    using writeCounter_eq [OF assms(1-3), of env] writeCounter_eq [OF assms(4-6), of env] sorted_keys_eq [OF assms(7-9)] assms(9,13)
    by (simp add: render_def)
qed

definition demo_metrics :: "int metrics_proc" where
  "demo_metrics = \<lparr>world = 0, supp = [], log_lines = [], credCache = [], participantSDCache = [], identifierCache = [],
     store = empty_store, janitorStarted = False, decisions = [(Label_Pair ''allow'' ''none'', 1), (Label_Pair ''deny'' ''none'', 2)],
     dependencyCalls = [], latency = [], purposeUnconstrained = 0, callbacks = []\<rparr>"

theorem render_is_stable_witness:
  "render (scripted_env demo_reply) (\<lambda>_. ''1.5'') 0 demo_metrics
     = render (scripted_env demo_reply) (\<lambda>_. ''1.5'') 0
         (demo_metrics\<lparr>decisions := [(Label_Pair ''deny'' ''none'', 2), (Label_Pair ''allow'' ''none'', 1)]\<rparr>)"
proof (rule render_is_stable)
  show "map_of (decisions demo_metrics) = map_of (decisions (demo_metrics\<lparr>decisions := [(Label_Pair ''deny'' ''none'', 2), (Label_Pair ''allow'' ''none'', 1)]\<rparr>))"
    by (auto simp: demo_metrics_def fun_eq_iff)
qed (simp_all add: demo_metrics_def wf_map_def RequestContextStoreSize_def RequestContextsEvicted_def)

end
