(* ===== verification/Config.thy ===== *)
theory Config
  imports Consent_Client
begin

text \<open>
  The route configuration of \<open>internal/plugin/config.go\<close>: the record decoded from the route's JSON,
  its defaults, the environment fallbacks and the validation, composed by \<open>ParseConfig\<close>.
\<close>

section \<open>Constants\<close>

definition DefaultConsentAPITimeout :: int where "DefaultConsentAPITimeout = 5000"
definition DefaultOwnerResolverTimeout :: int where "DefaultOwnerResolverTimeout = 2000"
definition DefaultResponsePhaseTimeout :: int where "DefaultResponsePhaseTimeout = 10000"
definition DefaultMaxOwnersPerResponse :: int where "DefaultMaxOwnersPerResponse = 50"
definition MinMaxOwnersPerResponse :: int where "MinMaxOwnersPerResponse = 1"
definition MaxMaxOwnersPerResponse :: int where "MaxMaxOwnersPerResponse = 1000"
definition DefaultMaxResolveBodyBytes :: int where "DefaultMaxResolveBodyBytes = 1048576"
definition MinMaxResolveBodyBytes :: int where "MinMaxResolveBodyBytes = 1"
definition MaxMaxResolveBodyBytes :: int where "MaxMaxResolveBodyBytes = 104857600"
definition MinResponsePhaseTimeout :: int where "MinResponsePhaseTimeout = 1"
definition MaxResponsePhaseTimeout :: int where "MaxResponsePhaseTimeout = 120000"
definition MinOwnerResolverTimeout :: int where "MinOwnerResolverTimeout = 1"
definition MaxOwnerResolverTimeout :: int where "MaxOwnerResolverTimeout = 60000"
definition DefaultParticipantTokenTTL :: int where "DefaultParticipantTokenTTL = 3000"
definition MinParticipantTokenTTL :: int where "MinParticipantTokenTTL = 1"
definition MaxParticipantTokenTTL :: int where "MaxParticipantTokenTTL = 86400"
definition apiPrefixSeparator :: string where "apiPrefixSeparator = ''/''"
definition DefaultConsumerClaim :: string where "DefaultConsumerClaim = ''verifiableCredential.issuer''"
definition DefaultTokenAudience :: string where "DefaultTokenAudience = ''consent-manager''"
definition DefaultJWTHeaderName :: string where "DefaultJWTHeaderName = ''Authorization''"
definition DefaultConsentAPIPrefix :: string where "DefaultConsentAPIPrefix = ''/v1''"
definition DefaultDenyStatusCode :: int where "DefaultDenyStatusCode = 403"
definition DefaultDenyResponseBody :: string where
  "DefaultDenyResponseBody = ''{\"error\":\"access denied by consent policy\"}''"
definition DefaultDenyResponseContentType :: string where "DefaultDenyResponseContentType = ''application/json''"
definition MinConsentAPITimeout :: int where "MinConsentAPITimeout = 1"
definition MaxConsentAPITimeout :: int where "MaxConsentAPITimeout = 60000"
definition MinHTTPStatusCode :: int where "MinHTTPStatusCode = 100"
definition MaxHTTPStatusCode :: int where "MaxHTTPStatusCode = 599"
definition EnvConsentKey :: string where "EnvConsentKey = ''CONSENT_KEY''"
definition EnvTokenServiceURL :: string where "EnvTokenServiceURL = ''CONSENT_TOKEN_SERVICE_URL''"
definition EnvAuditOTLPEndpoint :: string where "EnvAuditOTLPEndpoint = ''CONSENT_AUDIT_OTLP_ENDPOINT''"
definition schemeHTTP :: string where "schemeHTTP = ''http''"
definition schemeHTTPS :: string where "schemeHTTPS = ''https''"

section \<open>The configuration\<close>

record config =
  ConsentAPIURL :: string
  ConsentAPITimeout :: int
  JWTHeaderName :: string
  JWTClaimsToForward :: "string list"
  ConsentAPIPrefix :: string
  OwnerResolverURL :: string
  ConsentAPIHost :: string
  OwnerResolverTimeout :: int
  ResponsePhaseTimeout :: int
  RequirePurpose :: bool
  MaxResolveBodyBytes :: int
  MaxOwnersPerResponse :: int
  Service :: string
  ConsumerClaim :: string
  ConsentKey :: string
  TokenServiceURL :: string
  TokenAudience :: string
  ParticipantTokenTTL :: int
  ParticipantToken :: string
  ProviderSD :: string
  DenyStatusCode :: int
  DenyResponseBody :: string
  DenyResponseContentType :: string
  FailOpen :: "bool option"
  AuditEnabled :: bool
  AuditOTLPEndpoint :: string
  AuditOTLPHeaders :: "(string \<times> string) list"
  AuditServiceName :: string

definition zero_config :: config where
  "zero_config =
     \<lparr>ConsentAPIURL = [], ConsentAPITimeout = 0, JWTHeaderName = [], JWTClaimsToForward = [],
      ConsentAPIPrefix = [], OwnerResolverURL = [], ConsentAPIHost = [], OwnerResolverTimeout = 0,
      ResponsePhaseTimeout = 0, RequirePurpose = False, MaxResolveBodyBytes = 0, MaxOwnersPerResponse = 0,
      Service = [], ConsumerClaim = [], ConsentKey = [], TokenServiceURL = [], TokenAudience = [],
      ParticipantTokenTTL = 0, ParticipantToken = [], ProviderSD = [], DenyStatusCode = 0,
      DenyResponseBody = [], DenyResponseContentType = [], FailOpen = None, AuditEnabled = False,
      AuditOTLPEndpoint = [], AuditOTLPHeaders = [], AuditServiceName = []\<rparr>"

definition config_field :: "string \<Rightarrow> json \<Rightarrow> config \<Rightarrow> config option" where
  "config_field k v c =
     (if key_is k ''consent_api_url'' then map_option (\<lambda>x. c\<lparr>ConsentAPIURL := x\<rparr>) (dec_string v (ConsentAPIURL c))
      else if key_is k ''consent_api_timeout'' then map_option (\<lambda>x. c\<lparr>ConsentAPITimeout := x\<rparr>) (dec_int v (ConsentAPITimeout c))
      else if key_is k ''jwt_header_name'' then map_option (\<lambda>x. c\<lparr>JWTHeaderName := x\<rparr>) (dec_string v (JWTHeaderName c))
      else if key_is k ''consent_api_prefix'' then map_option (\<lambda>x. c\<lparr>ConsentAPIPrefix := x\<rparr>) (dec_string v (ConsentAPIPrefix c))
      else if key_is k ''owner_resolver_url'' then map_option (\<lambda>x. c\<lparr>OwnerResolverURL := x\<rparr>) (dec_string v (OwnerResolverURL c))
      else if key_is k ''consent_api_host'' then map_option (\<lambda>x. c\<lparr>ConsentAPIHost := x\<rparr>) (dec_string v (ConsentAPIHost c))
      else if key_is k ''owner_resolver_timeout'' then map_option (\<lambda>x. c\<lparr>OwnerResolverTimeout := x\<rparr>) (dec_int v (OwnerResolverTimeout c))
      else if key_is k ''response_phase_timeout'' then map_option (\<lambda>x. c\<lparr>ResponsePhaseTimeout := x\<rparr>) (dec_int v (ResponsePhaseTimeout c))
      else if key_is k ''require_purpose'' then map_option (\<lambda>x. c\<lparr>RequirePurpose := x\<rparr>) (dec_bool v (RequirePurpose c))
      else if key_is k ''max_resolve_body_bytes'' then map_option (\<lambda>x. c\<lparr>MaxResolveBodyBytes := x\<rparr>) (dec_int v (MaxResolveBodyBytes c))
      else if key_is k ''max_owners_per_response'' then map_option (\<lambda>x. c\<lparr>MaxOwnersPerResponse := x\<rparr>) (dec_int v (MaxOwnersPerResponse c))
      else if key_is k ''service'' then map_option (\<lambda>x. c\<lparr>Service := x\<rparr>) (dec_string v (Service c))
      else if key_is k ''consumer_claim'' then map_option (\<lambda>x. c\<lparr>ConsumerClaim := x\<rparr>) (dec_string v (ConsumerClaim c))
      else if key_is k ''consent_key'' then map_option (\<lambda>x. c\<lparr>ConsentKey := x\<rparr>) (dec_string v (ConsentKey c))
      else if key_is k ''token_service_url'' then map_option (\<lambda>x. c\<lparr>TokenServiceURL := x\<rparr>) (dec_string v (TokenServiceURL c))
      else if key_is k ''token_audience'' then map_option (\<lambda>x. c\<lparr>TokenAudience := x\<rparr>) (dec_string v (TokenAudience c))
      else if key_is k ''participant_token_ttl'' then map_option (\<lambda>x. c\<lparr>ParticipantTokenTTL := x\<rparr>) (dec_int v (ParticipantTokenTTL c))
      else if key_is k ''participant_token'' then map_option (\<lambda>x. c\<lparr>ParticipantToken := x\<rparr>) (dec_string v (ParticipantToken c))
      else if key_is k ''provider_sd'' then map_option (\<lambda>x. c\<lparr>ProviderSD := x\<rparr>) (dec_string v (ProviderSD c))
      else if key_is k ''deny_status_code'' then map_option (\<lambda>x. c\<lparr>DenyStatusCode := x\<rparr>) (dec_int v (DenyStatusCode c))
      else if key_is k ''deny_response_body'' then map_option (\<lambda>x. c\<lparr>DenyResponseBody := x\<rparr>) (dec_string v (DenyResponseBody c))
      else if key_is k ''deny_response_content_type''
        then map_option (\<lambda>x. c\<lparr>DenyResponseContentType := x\<rparr>) (dec_string v (DenyResponseContentType c))
      else if key_is k ''fail_open'' then map_option (\<lambda>x. c\<lparr>FailOpen := x\<rparr>) (dec_ptr False dec_bool v (FailOpen c))
      else if key_is k ''audit_enabled'' then map_option (\<lambda>x. c\<lparr>AuditEnabled := x\<rparr>) (dec_bool v (AuditEnabled c))
      else if key_is k ''audit_otlp_endpoint'' then map_option (\<lambda>x. c\<lparr>AuditOTLPEndpoint := x\<rparr>) (dec_string v (AuditOTLPEndpoint c))
      else if key_is k ''audit_otlp_headers''
        then map_option (\<lambda>x. c\<lparr>AuditOTLPHeaders := x\<rparr>) (dec_string_map v (AuditOTLPHeaders c))
      else if key_is k ''audit_service_name'' then map_option (\<lambda>x. c\<lparr>AuditServiceName := x\<rparr>) (dec_string v (AuditServiceName c))
      else Some c)"

text \<open>The whole object; the slice of claims comes with what its array holds behind it.\<close>

definition config_member :: "string \<Rightarrow> json \<Rightarrow> config \<times> string list \<Rightarrow> (config \<times> string list) option" where
  "config_member k v cs = (case cs of (c, spare) \<Rightarrow>
     (if key_is k ''jwt_claims_to_forward''
      then map_option (\<lambda>(x, y). (c\<lparr>JWTClaimsToForward := x\<rparr>, y)) (dec_slice [] dec_string v (JWTClaimsToForward c, spare))
      else map_option (\<lambda>c'. (c', spare)) (config_field k v c)))"

definition dec_config :: "config decoder" where
  "dec_config v c = map_option fst (dec_struct config_member v (c, []))"

definition IsFailOpen :: "config \<Rightarrow> bool" where
  "IsFailOpen c = (case FailOpen c of None \<Rightarrow> False | Some b \<Rightarrow> b)"

text \<open>A Go assignment guarded by the zero value of the field.\<close>

definition or_default :: "'a \<Rightarrow> 'a \<Rightarrow> 'a \<Rightarrow> 'a" where
  "or_default zero d x = (if x = zero then d else x)"

definition trim_api_prefix :: "string \<Rightarrow> string" where
  "trim_api_prefix p = (if p \<noteq> apiPrefixSeparator then trim_right CHR ''/'' p else p)"

definition applyDefaults :: "config \<Rightarrow> config" where
  "applyDefaults c =
     c\<lparr>ConsentAPITimeout := or_default 0 DefaultConsentAPITimeout (ConsentAPITimeout c),
       JWTHeaderName := or_default [] DefaultJWTHeaderName (JWTHeaderName c),
       ConsentAPIPrefix := trim_api_prefix (or_default [] DefaultConsentAPIPrefix (ConsentAPIPrefix c)),
       OwnerResolverTimeout := or_default 0 DefaultOwnerResolverTimeout (OwnerResolverTimeout c),
       ResponsePhaseTimeout := or_default 0 DefaultResponsePhaseTimeout (ResponsePhaseTimeout c),
       MaxOwnersPerResponse := or_default 0 DefaultMaxOwnersPerResponse (MaxOwnersPerResponse c),
       MaxResolveBodyBytes := or_default 0 DefaultMaxResolveBodyBytes (MaxResolveBodyBytes c),
       ParticipantTokenTTL := or_default 0 DefaultParticipantTokenTTL (ParticipantTokenTTL c),
       ConsumerClaim := or_default [] DefaultConsumerClaim (ConsumerClaim c),
       TokenAudience := or_default [] DefaultTokenAudience (TokenAudience c),
       DenyStatusCode := or_default 0 DefaultDenyStatusCode (DenyStatusCode c),
       DenyResponseBody := or_default [] DefaultDenyResponseBody (DenyResponseBody c),
       DenyResponseContentType := or_default [] DefaultDenyResponseContentType (DenyResponseContentType c)\<rparr>"

definition applyEnv :: "'w env \<Rightarrow> config \<Rightarrow> config" where
  "applyEnv env c =
     c\<lparr>ConsentKey := or_default [] (getenv env EnvConsentKey) (ConsentKey c),
       TokenServiceURL := or_default [] (getenv env EnvTokenServiceURL) (TokenServiceURL c),
       AuditOTLPEndpoint := or_default [] (getenv env EnvAuditOTLPEndpoint) (AuditOTLPEndpoint c)\<rparr>"

section \<open>Validation\<close>

definition url_problem :: "'w env \<Rightarrow> string \<Rightarrow> string \<Rightarrow> gerror option" where
  "url_problem env name url =
     (case parse_request_uri env url of
        Inl e \<Rightarrow> Some (errorf_w (''config validation: '' @ name @ '' is not a valid URL: '') e)
      | Inr scheme \<Rightarrow>
          if scheme \<noteq> schemeHTTP \<and> scheme \<noteq> schemeHTTPS
          then Some (new_error (''config validation: '' @ name @ '' must use http or https scheme, got '' @ quote env scheme))
          else None)"

definition range_problem :: "string \<Rightarrow> int \<Rightarrow> int \<Rightarrow> int \<Rightarrow> gerror option" where
  "range_problem name lo hi x =
     (if x < lo \<or> x > hi
      then Some (new_error (''config validation: '' @ name @ '' must be between '' @ itoa lo @ '' and '' @ itoa hi
                   @ '', got '' @ itoa x))
      else None)"

definition problem_if :: "bool \<Rightarrow> string \<Rightarrow> gerror option" where
  "problem_if b text = (if b then Some (new_error text) else None)"

text \<open>The first check that fails decides.\<close>

fun first_problem :: "gerror option list \<Rightarrow> gerror option" where
  "first_problem [] = None"
| "first_problem (p # ps) = (case p of Some e \<Rightarrow> Some e | None \<Rightarrow> first_problem ps)"

definition Validate :: "'w env \<Rightarrow> config \<Rightarrow> gerror option" where
  "Validate env c = first_problem
     [problem_if (ConsentAPIURL c = []) ''config validation: consent_api_url is required'',
      url_problem env ''consent_api_url'' (ConsentAPIURL c),
      problem_if (OwnerResolverURL c = [])
        (''config validation: owner_resolver_url is required '' @ [byte 0xE2, byte 0x80, byte 0x94] @ '' ''
         @ ''the data owner is resolved from the response data, and without a resolver the plugin cannot determine whose consent to check''),
      url_problem env ''owner_resolver_url'' (OwnerResolverURL c),
      problem_if (\<not> has_prefix (ConsentAPIPrefix c) apiPrefixSeparator)
        (''config validation: consent_api_prefix must start with '' @ quote env apiPrefixSeparator
         @ '', got '' @ quote env (ConsentAPIPrefix c)),
      range_problem ''consent_api_timeout'' MinConsentAPITimeout MaxConsentAPITimeout (ConsentAPITimeout c),
      range_problem ''deny_status_code'' MinHTTPStatusCode MaxHTTPStatusCode (DenyStatusCode c),
      range_problem ''owner_resolver_timeout'' MinOwnerResolverTimeout MaxOwnerResolverTimeout (OwnerResolverTimeout c),
      range_problem ''response_phase_timeout'' MinResponsePhaseTimeout MaxResponsePhaseTimeout (ResponsePhaseTimeout c),
      range_problem ''max_resolve_body_bytes'' MinMaxResolveBodyBytes MaxMaxResolveBodyBytes (MaxResolveBodyBytes c),
      range_problem ''participant_token_ttl'' MinParticipantTokenTTL MaxParticipantTokenTTL (ParticipantTokenTTL c),
      range_problem ''max_owners_per_response'' MinMaxOwnersPerResponse MaxMaxOwnersPerResponse (MaxOwnersPerResponse c),
      problem_if (AuditEnabled c \<and> AuditOTLPEndpoint c = [])
        ''config validation: audit_otlp_endpoint is required when audit_enabled is true'',
      (if TokenServiceURL c \<noteq> [] then url_problem env ''token_service_url'' (TokenServiceURL c) else None),
      problem_if (TokenServiceURL c = [] \<and> ParticipantToken c = [])
        (''config validation: one of token_service_url or participant_token is required '' @ [byte 0xE2, byte 0x80, byte 0x94] @ '' ''
         @ ''without a way to authenticate as the participant no consent check can succeed'')]"

definition ParseConfig :: "'w env \<Rightarrow> string \<Rightarrow> ('w, 'z) log_proc_scheme \<Rightarrow> (gerror + config) \<times> ('w, 'z) log_proc_scheme" where
  "ParseConfig env input s =
     (if input = [] then (Inl (new_error ''config parsing: input is empty''), s)
      else (case json_unmarshal env ''Config'' dec_config input zero_config of
          Inl e \<Rightarrow> (Inl (errorf_w ''config parsing: failed to unmarshal JSON: '' e), s)
        | Inr c0 \<Rightarrow>
            let conf = applyEnv env (applyDefaults c0)
            in (case Validate env conf of
                  Some e \<Rightarrow> (Inl e, s)
                | None \<Rightarrow>
                    (Inr conf,
                     if IsFailOpen conf
                     then logf Warn (''fail_open is enabled for '' @ ConsentAPIURL conf @ '' '' @ [byte 0xE2, byte 0x80, byte 0x94]
                            @ '' a consent-manager or resolver outage will RELEASE personal data instead of denying it'') s
                     else s))))"

end
