(* ===== verification/Owner_Resolver.thy ===== *)
theory Owner_Resolver
  imports Sample_Runs
begin

text \<open>
  The client of the OwnerResolver, \<open>internal/ownerresolver/client.go\<close>: how a payload is described, the
  request that asks whose data it is, and the reply.  The properties at the end show that a payload that
  is there but unreadable is never described as absent, and that a resolver failure is always an error.
\<close>

section \<open>Data\<close>

record claim =
  cl_OwnerID :: string
  cl_DataResource :: string
  cl_Purpose :: string

record resolve_result =
  ConsentRequired :: bool
  Claims :: "claim list"

record parties =
  pt_Consumer :: string
  pt_Provider :: string

record resource =
  rs_Service :: string
  rs_Method :: string
  rs_Path :: string
  rs_ContentType :: string

record body_descriptor =
  bd_Encoding :: string
  bd_Content :: "json option"
  bd_ContentType :: string
  bd_Size :: nat

record resolver_client =
  or_url :: string
  or_timeout :: duration

definition encodingJSON :: string where "encodingJSON = ''json''"
definition encodingNone :: string where "encodingNone = ''none''"
definition encodingOpaque :: string where "encodingOpaque = ''opaque''"
definition resolver_DefaultTimeoutMs :: int where "resolver_DefaultTimeoutMs = 2000"

definition resolver_NewClient :: "string \<Rightarrow> int \<Rightarrow> resolver_client" where
  "resolver_NewClient url timeoutMs =
     \<lparr>or_url = url,
      or_timeout = i64 ((if timeoutMs \<le> 0 then resolver_DefaultTimeoutMs else timeoutMs) * millisecond)\<rparr>"

definition parties_IsZero :: "parties \<Rightarrow> bool" where
  "parties_IsZero p \<longleftrightarrow> pt_Consumer p = [] \<and> pt_Provider p = []"

section \<open>The request\<close>

text \<open>
  The content of a readable payload is the JSON value it denotes; the code forwards its bytes.
\<close>

definition describeBody :: "string \<Rightarrow> string \<Rightarrow> body_descriptor" where
  "describeBody payload contentType =
     (if payload = [] then \<lparr>bd_Encoding = encodingNone, bd_Content = None, bd_ContentType = [], bd_Size = 0\<rparr>
      else if json_valid payload
        then \<lparr>bd_Encoding = encodingJSON, bd_Content = json_parse payload, bd_ContentType = [], bd_Size = 0\<rparr>
      else \<lparr>bd_Encoding = encodingOpaque, bd_Content = None, bd_ContentType = contentType, bd_Size = length payload\<rparr>)"

text \<open>A member tagged \<open>omitempty\<close>.\<close>

definition member_if :: "string \<Rightarrow> string \<Rightarrow> (string \<times> json) list" where
  "member_if k v = (if v = [] then [] else [(k, json_string v)])"

definition resource_json :: "resource \<Rightarrow> json" where
  "resource_json r = JObj
     (member_if ''service'' (rs_Service r) @ member_if ''method'' (rs_Method r)
      @ member_if ''path'' (rs_Path r) @ member_if ''contentType'' (rs_ContentType r))"

definition parties_json :: "parties \<Rightarrow> json" where
  "parties_json p = JObj (member_if ''consumer'' (pt_Consumer p) @ member_if ''provider'' (pt_Provider p))"

definition body_json :: "body_descriptor \<Rightarrow> json" where
  "body_json b = JObj
     ([(''encoding'', JStr (bd_Encoding b))]
      @ (case bd_Content b of None \<Rightarrow> [] | Some v \<Rightarrow> [(''content'', v)])
      @ member_if ''contentType'' (bd_ContentType b)
      @ (if bd_Size b = 0 then [] else [(''size'', JNum (show_nat (bd_Size b)))]))"

definition resolve_json :: "resource \<Rightarrow> parties \<Rightarrow> string \<Rightarrow> json" where
  "resolve_json res p payload = JObj
     ([(''resource'', resource_json res)]
      @ (if parties_IsZero p then [] else [(''parties'', parties_json p)])
      @ [(''body'', body_json (describeBody payload (rs_ContentType res)))])"

section \<open>The reply\<close>

definition zero_claim :: claim where
  "zero_claim = \<lparr>cl_OwnerID = [], cl_DataResource = [], cl_Purpose = []\<rparr>"

definition zero_result :: resolve_result where
  "zero_result = \<lparr>ConsentRequired = False, Claims = []\<rparr>"

definition claim_field :: "string \<Rightarrow> json \<Rightarrow> claim \<Rightarrow> claim option" where
  "claim_field k v c =
     (if key_is k ''ownerId'' then map_option (\<lambda>x. c\<lparr>cl_OwnerID := x\<rparr>) (dec_string v (cl_OwnerID c))
      else if key_is k ''dataResource'' then map_option (\<lambda>x. c\<lparr>cl_DataResource := x\<rparr>) (dec_string v (cl_DataResource c))
      else if key_is k ''purpose'' then map_option (\<lambda>x. c\<lparr>cl_Purpose := x\<rparr>) (dec_string v (cl_Purpose c))
      else Some c)"

text \<open>The result, with what the array of its claims holds behind them.\<close>

definition result_field :: "string \<Rightarrow> json \<Rightarrow> resolve_result \<times> claim list \<Rightarrow> (resolve_result \<times> claim list) option" where
  "result_field k v rs = (case rs of (r, spare) \<Rightarrow>
     (if key_is k ''consentRequired''
        then map_option (\<lambda>x. (r\<lparr>ConsentRequired := x\<rparr>, spare)) (dec_bool v (ConsentRequired r))
      else if key_is k ''claims''
        then map_option (\<lambda>(x, y). (r\<lparr>Claims := x\<rparr>, y)) (dec_slice zero_claim (dec_struct claim_field) v (Claims r, spare))
      else Some (r, spare)))"

definition dec_result :: "resolve_result decoder" where
  "dec_result v r = map_option fst (dec_struct result_field v (r, []))"

definition Resolve :: "'w env \<Rightarrow> resolver_client \<Rightarrow> resource \<Rightarrow> parties \<Rightarrow> string \<Rightarrow> ('w, 'z) log_proc_scheme
    \<Rightarrow> (gerror + resolve_result) \<times> ('w, 'z) log_proc_scheme" where
  "Resolve env c res p payload s =
     (case new_request env ''POST'' (or_url c) (Some (resolve_json res p payload)) of
        Inl e \<Rightarrow> (Inl (errorf_w ''owner-resolver: create request: '' e), s)
      | Inr rq \<Rightarrow>
          (case http_do env ((set_header ''Content-Type'' ''application/json'' rq)\<lparr>rq_timeout := or_timeout c\<rparr>) s of
             (Do_Error e, s1) \<Rightarrow> (Inl (errorf_w ''owner-resolver: request failed: '' e), s1)
           | (Read_Error _ e, s1) \<Rightarrow> (Inl (errorf_w ''owner-resolver: read response: '' e), s1)
           | (Response status body, s1) \<Rightarrow>
               if status \<noteq> 200 then
                 (Inl (new_error (''owner-resolver: status '' @ itoa status)),
                  log_every env Debug ''resolver-body''
                    (''owner-resolver: status '' @ itoa status @ '', body: '' @ Sanitize body) s1)
               else
                 (case json_unmarshal env ''Result'' dec_result body zero_result of
                    Inl e \<Rightarrow> (Inl (errorf_w ''owner-resolver: decode response: '' e), s1)
                  | Inr out \<Rightarrow> (Inr out, s1))))"

section \<open>Facts\<close>

lemma errors_Resolve: "clean_for A env \<Longrightarrow> Resolve env c res p payload s = (Inl e, s') \<Longrightarrow> chain_in A e"
  by (auto simp: Resolve_def clean_result_def
      split: sum.splits prod.splits http_result.splits if_splits dest!: clean_errors clean_http_do)

definition resolve_request :: "resolver_client \<Rightarrow> resource \<Rightarrow> parties \<Rightarrow> string \<Rightarrow> http_request" where
  "resolve_request c res p payload =
     \<lparr>rq_method = ''POST'', rq_url = or_url c, rq_host = [], rq_headers = [(''Content-Type'', ''application/json'')],
      rq_body = Some (resolve_json res p payload), rq_timeout = or_timeout c\<rparr>"

lemma calls_Resolve:
  assumes "Resolve (traced env) c res p payload s = (r, s')"
  shows "calls s' = calls s \<and> (\<exists>e. r = Inl e)
    \<or> (\<exists>x. calls s' = calls s @ [(resolve_request c res p payload, x)]
         \<and> (\<forall>out. r = Inr out \<longrightarrow> (\<exists>body. x = Response 200 body \<and> unmarshal dec_result body zero_result = Some out)))"
  using assms
  by (auto simp: Resolve_def new_request_Inr set_header_def gset_def resolve_request_def json_unmarshal_def
      split: sum.splits prod.splits http_result.splits if_splits option.splits dest!: calls_http_do)

section \<open>Claims\<close>

text \<open>
  A payload is described faithfully: as absent exactly when it is empty, as readable exactly when
  it is valid JSON, and then with its value, and otherwise as opaque with its content type and size, so
  an unreadable payload is never judged as if there were none.
\<close>

theorem describeBody_faithful:
  "(bd_Encoding (describeBody payload ct) = ''none'' \<longleftrightarrow> payload = [])
   \<and> (bd_Encoding (describeBody payload ct) = ''json'' \<longleftrightarrow>
        (\<exists>v. payload \<noteq> [] \<and> json_parse payload = Some v \<and> bd_Content (describeBody payload ct) = Some v))
   \<and> (bd_Encoding (describeBody payload ct) = ''opaque'' \<longleftrightarrow> payload \<noteq> [] \<and> json_parse payload = None)
   \<and> bd_Size (describeBody payload ct) = (if payload \<noteq> [] \<and> json_parse payload = None then length payload else 0)"
  by (cases "json_parse payload")
     (auto simp: describeBody_def json_valid_def encodingNone_def encodingJSON_def encodingOpaque_def)

text \<open>
  C27.  A resolution is never assumed: \<open>Resolve\<close> returns a result only from a 200 reply, to exactly one
  request carrying the description of this payload, that decodes to it; every other outcome is an error.
\<close>

theorem Resolve_result:
  assumes "Resolve (traced env) c res p payload s = (Inr out, s')"
  shows "\<exists>body. calls s' = calls s @ [(resolve_request c res p payload, Response 200 body)]
    \<and> unmarshal dec_result body zero_result = Some out"
  using calls_Resolve [OF assms] by auto

definition owner_reply :: "http_request \<Rightarrow> http_result" where
  "owner_reply rq = Response 200 ''{\"claims\":[{\"purpose\":\"p\"}]}''"

lemma owner_reply_decodes:
  "unmarshal dec_result ''{\"claims\":[{\"purpose\":\"p\"}]}'' zero_result =
     Some \<lparr>ConsentRequired = False, Claims = [zero_claim\<lparr>cl_Purpose := ''p''\<rparr>]\<rparr>"
  by code_simp

theorem Resolve_result_witness:
  "\<exists>s' body. Resolve (traced (scripted_env owner_reply)) (resolver_NewClient ''http://r'' 0)
       \<lparr>rs_Service = [], rs_Method = ''GET'', rs_Path = ''/d'', rs_ContentType = []\<rparr> \<lparr>pt_Consumer = [], pt_Provider = []\<rparr> [] empty_traced
     = (Inr \<lparr>ConsentRequired = False, Claims = [zero_claim\<lparr>cl_Purpose := ''p''\<rparr>]\<rparr>, s')
     \<and> unmarshal dec_result body zero_result = Some \<lparr>ConsentRequired = False, Claims = [zero_claim\<lparr>cl_Purpose := ''p''\<rparr>]\<rparr>"
proof -
  let ?res = "\<lparr>rs_Service = [], rs_Method = ''GET'', rs_Path = ''/d'', rs_ContentType = []\<rparr>"
  obtain s' where r: "Resolve (traced (scripted_env owner_reply)) (resolver_NewClient ''http://r'' 0) ?res
      \<lparr>pt_Consumer = [], pt_Provider = []\<rparr> [] empty_traced
      = (Inr \<lparr>ConsentRequired = False, Claims = [zero_claim\<lparr>cl_Purpose := ''p''\<rparr>]\<rparr>, s')"
    by (simp add: Resolve_def demo_defs check_defs owner_reply_def owner_reply_decodes)
  from Resolve_result [OF r] r show ?thesis by blast
qed

end
