(* ===== verification/Owners.thy ===== *)
theory Owners
  imports Config Owner_Resolver Metrics
begin

text \<open>
  The decision over all data owners of a response, \<open>internal/plugin/consent.go\<close>: outcomes and the fail
  policy, the claims to check, the concurrent checks with their slots and cancellation, and the
  reduction of the results to one outcome.

  The goroutines of \<open>checkOwners\<close> are a vector of states and what the Go scheduler does is a list of
  steps: a goroutine gets a slot and starts, gives up because its context is done, or completes its
  check; the response phase may run out of time at any point.  A step that is not enabled does nothing,
  and the steps are followed by those that let every remaining goroutine finish, since \<open>checkOwners\<close>
  waits for all of them.  A check takes effect on the shared caches in one step; once its context is
  done, any of its calls may fail with the context's error (\<open>bites\<close>).
\<close>

section \<open>Outcomes\<close>

record checked_owner =
  ck_subject :: string
  ck_resource :: string
  ck_decision :: string
  ck_reason :: string

record response_outcome =
  oc_decision :: string
  oc_reason :: string
  oc_requestID :: string
  oc_subject :: string
  oc_resource :: string
  oc_method :: string
  oc_checked :: "checked_owner list"
  oc_failMode :: string

datatype fail_mode = FailByPolicy | FailAlwaysClosed

definition decisionAllow :: string where "decisionAllow = ''allow''"
definition decisionDeny :: string where "decisionDeny = ''deny''"

definition zero_checked :: checked_owner where
  "zero_checked = \<lparr>ck_subject = [], ck_resource = [], ck_decision = [], ck_reason = []\<rparr>"

definition zero_outcome :: response_outcome where
  "zero_outcome = \<lparr>oc_decision = [], oc_reason = [], oc_requestID = [], oc_subject = [], oc_resource = [],
     oc_method = [], oc_checked = [], oc_failMode = []\<rparr>"

definition fail_mode_text :: "fail_mode \<Rightarrow> string" where
  "fail_mode_text m = (if m = FailAlwaysClosed then ''always_closed'' else ''by_policy'')"

definition failOutcome :: "config \<Rightarrow> fail_mode \<Rightarrow> string \<Rightarrow> string \<Rightarrow> consent_request option \<Rightarrow> response_outcome" where
  "failOutcome cfg mode reason requestID req =
     (let decision = (if mode = FailByPolicy \<and> IsFailOpen cfg then decisionAllow else decisionDeny);
          o0 = zero_outcome\<lparr>oc_decision := decision, oc_reason := reason, oc_requestID := requestID,
                           oc_failMode := fail_mode_text mode\<rparr>
      in (case req of
            None \<Rightarrow> o0
          | Some r \<Rightarrow> o0\<lparr>oc_subject := Subject r, oc_resource := Resource r, oc_method := Method r\<rparr>))"

definition failModeForError :: "gerror \<Rightarrow> fail_mode" where
  "failModeForError e =
     (if errors_is e NoCredentials \<or> errors_is e ParticipantNotRegistered then FailAlwaysClosed else FailByPolicy)"

definition outcomeOf :: "gerror option \<Rightarrow> string" where
  "outcomeOf err = (case err of Some _ \<Rightarrow> OutcomeError | None \<Rightarrow> OutcomeSuccess)"

definition resourceOrPath :: "string \<Rightarrow> string \<Rightarrow> string" where
  "resourceOrPath dataResource path = (if dataResource \<noteq> [] then dataResource else path)"

section \<open>The claims to check\<close>

record owner_claim =
  ow_owner :: string
  ow_dataResource :: string
  ow_purpose :: string

definition no_owner_error :: gerror where
  "no_owner_error = new_error ''resolved claim without a data owner''"

fun distinct_loop :: "(string \<times> string) list \<Rightarrow> claim list \<Rightarrow> owner_claim list \<Rightarrow> gerror + owner_claim list" where
  "distinct_loop seen [] found = Inr found"
| "distinct_loop seen (c # cs) found =
     (if cl_OwnerID c = [] then Inl no_owner_error
      else
        let p = (cl_OwnerID c, cl_DataResource c)
        in if p \<in> set seen then distinct_loop seen cs found
           else distinct_loop (p # seen) cs
             (found @ [\<lparr>ow_owner = cl_OwnerID c, ow_dataResource = cl_DataResource c, ow_purpose = cl_Purpose c\<rparr>]))"

definition distinctClaims :: "claim list \<Rightarrow> gerror + owner_claim list" where
  "distinctClaims claims = distinct_loop [] claims []"

fun checkPurposeScoping :: "'w env \<Rightarrow> config \<Rightarrow> string \<Rightarrow> owner_claim list \<Rightarrow> ('w, 'z) metrics_proc_scheme
    \<Rightarrow> response_outcome option \<times> ('w, 'z) metrics_proc_scheme" where
  "checkPurposeScoping env cfg key [] s = (None, s)"
| "checkPurposeScoping env cfg key (c # cs) s =
     (if ow_purpose c \<noteq> [] then checkPurposeScoping env cfg key cs s
      else if RequirePurpose cfg
        then (Some (failOutcome cfg FailAlwaysClosed ''resolved claim without a processing purpose'' key None),
              log_every env Warn ''purpose-required''
                (''ResponseFilter: resolved claim without a processing purpose for request '' @ key
                 @ '' and require_purpose is set; denying'') s)
      else checkPurposeScoping env cfg key cs
        (log_every env Warn ''purpose-unconstrained''
           ''ResponseFilter: the resolver named no processing purpose, so consent is matched on the consumer alone; set require_purpose once the resolver emits one''
           (RecordPurposeUnconstrained s)))"

section \<open>The checks\<close>

definition maxConcurrentConsentChecks :: nat where "maxConcurrentConsentChecks = 8"

record owner_check_result =
  or_outcome :: response_outcome
  or_err :: "gerror option"
  or_request :: "consent_request option"   \<comment> \<open>set when the check is attempted\<close>
  or_record :: checked_owner
  or_problem :: bool
  or_attempted :: bool

definition zero_result_of_check :: owner_check_result where
  "zero_result_of_check = \<lparr>or_outcome = zero_outcome, or_err = None, or_request = None,
     or_record = zero_checked, or_problem = False, or_attempted = False\<rparr>"

datatype goroutine = Waiting | Running time | Finished

text \<open>\<open>checks_done\<close> is \<open>checksCtx.Err()\<close>, \<open>phase_done\<close> is \<open>ctx.Err()\<close>.\<close>

record check_run =
  goroutines :: "goroutine list"
  results :: "owner_check_result list"
  checks_done :: "sentinel option"
  phase_done :: "sentinel option"

definition start_run :: "owner_claim list \<Rightarrow> check_run" where
  "start_run claims = \<lparr>goroutines = replicate (length claims) Waiting,
     results = replicate (length claims) zero_result_of_check, checks_done = None, phase_done = None\<rparr>"

definition is_running :: "goroutine \<Rightarrow> bool" where
  "is_running g = (case g of Running _ \<Rightarrow> True | _ \<Rightarrow> False)"

definition in_flight :: "check_run \<Rightarrow> nat" where
  "in_flight r = length (filter is_running (goroutines r))"

text \<open>A call of a check whose context is done: it fails, before or while its reply is read, or goes through.\<close>

type_synonym 'w bites = "http_request \<Rightarrow> 'w \<Rightarrow> ((int option \<times> string) \<times> 'w) option"

definition cut_env :: "sentinel option \<Rightarrow> 'w bites \<Rightarrow> 'w env \<Rightarrow> 'w env" where
  "cut_env ctx_err bites env =
     (case ctx_err of
        None \<Rightarrow> env
      | Some cause \<Rightarrow> env\<lparr>http_of := (\<lambda>rq w.
          case bites rq w of
            None \<Rightarrow> http_of env rq w
          | Some ((None, text), w') \<Rightarrow> (Do_Error \<lparr>err_text = text, err_chain = [cause]\<rparr>, w')
          | Some ((Some status, text), w') \<Rightarrow> (Read_Error status \<lparr>err_text = text, err_chain = [cause]\<rparr>, w'))\<rparr>)"

datatype 'w owner_op = Start nat | Give_Up nat | Finish nat "'w bites" | Expire

definition owner_request :: "request_context \<Rightarrow> string \<Rightarrow> owner_claim \<Rightarrow> consent_request" where
  "owner_request ctx consumerSD c =
     \<lparr>Subject = ow_owner c, Resource = rc_Path ctx, Method = rc_Method ctx, DataResource = ow_dataResource c,
      Consumer = consumerSD, Purpose = ow_purpose c\<rparr>"

text \<open>The switch on what \<open>CheckConsent\<close> returned.\<close>

definition check_result :: "string \<Rightarrow> request_context \<Rightarrow> owner_claim \<Rightarrow> gerror + consent_response
    \<Rightarrow> owner_check_result \<Rightarrow> owner_check_result" where
  "check_result key ctx c answer r =
     (let ownerResource = resourceOrPath (ow_dataResource c) (rc_Path ctx)
      in (case answer of
            Inl e \<Rightarrow> r\<lparr>or_err := Some e, or_problem := True\<rparr>
          | Inr resp \<Rightarrow>
              if Decision resp \<noteq> DecisionAllow
              then r\<lparr>or_record := \<lparr>ck_subject = ow_owner c, ck_resource = ownerResource, ck_decision = decisionDeny,
                                   ck_reason = Reason resp\<rparr>,
                     or_outcome := zero_outcome\<lparr>oc_decision := decisionDeny, oc_reason := Reason resp, oc_requestID := key,
                                   oc_subject := ow_owner c, oc_resource := ownerResource, oc_method := rc_Method ctx\<rparr>,
                     or_problem := True\<rparr>
              else r\<lparr>or_record := \<lparr>ck_subject = ow_owner c, ck_resource = ownerResource, ck_decision = decisionAllow,
                                   ck_reason = Reason resp\<rparr>\<rparr>))"

definition start_check :: "'w env \<Rightarrow> request_context \<Rightarrow> string \<Rightarrow> owner_claim list \<Rightarrow> nat
    \<Rightarrow> check_run \<times> ('w, 'z) metrics_proc_scheme \<Rightarrow> check_run \<times> ('w, 'z) metrics_proc_scheme" where
  "start_check env ctx consumerSD claims i st = (case st of (r, s) \<Rightarrow>
     (case time_now env s of
        (started, s1) \<Rightarrow>
          (r\<lparr>goroutines := (goroutines r)[i := Running started],
             results := (results r)[i := (results r ! i)\<lparr>or_attempted := True,
                           or_request := Some (owner_request ctx consumerSD (claims ! i))\<rparr>]\<rparr>, s1)))"

definition finish_check :: "'w env \<Rightarrow> string \<Rightarrow> request_context \<Rightarrow> client \<Rightarrow> string \<Rightarrow> owner_claim list \<Rightarrow> nat \<Rightarrow> 'w bites \<Rightarrow> time
    \<Rightarrow> check_run \<times> ('w, 'z) metrics_proc_scheme \<Rightarrow> check_run \<times> ('w, 'z) metrics_proc_scheme" where
  "finish_check env key ctx client consumerSD claims i bites started st = (case st of (r, s) \<Rightarrow>
     (case CheckConsent (cut_env (checks_done r) bites env) client (owner_request ctx consumerSD (claims ! i)) s of
        (answer, s1) \<Rightarrow>
          (case time_now env s1 of
             (now, s2) \<Rightarrow>
               let res = check_result key ctx (claims ! i) answer (results r ! i)
               in (r\<lparr>goroutines := (goroutines r)[i := Finished], results := (results r)[i := res],
                     checks_done := (if or_problem res \<and> checks_done r = None then Some Canceled else checks_done r)\<rparr>,
                   RecordDependencyCall DependencyConsentManager
                     (outcomeOf (case answer of Inl e \<Rightarrow> Some e | Inr _ \<Rightarrow> None)) (time_sub now started) s2))))"

definition owner_step :: "'w env \<Rightarrow> string \<Rightarrow> request_context \<Rightarrow> client \<Rightarrow> string \<Rightarrow> owner_claim list \<Rightarrow> 'w owner_op
    \<Rightarrow> check_run \<times> ('w, 'z) metrics_proc_scheme \<Rightarrow> check_run \<times> ('w, 'z) metrics_proc_scheme" where
  "owner_step env key ctx client consumerSD claims op st = (case st of (r, s) \<Rightarrow>
     (case op of
        Start i \<Rightarrow>
          if i < length (goroutines r) \<and> goroutines r ! i = Waiting \<and> in_flight r < maxConcurrentConsentChecks
          then start_check env ctx consumerSD claims i st else st
      | Give_Up i \<Rightarrow>
          if i < length (goroutines r) \<and> goroutines r ! i = Waiting \<and> checks_done r \<noteq> None
          then (r\<lparr>goroutines := (goroutines r)[i := Finished]\<rparr>, s) else st
      | Finish i bites \<Rightarrow>
          if i < length (goroutines r)
          then (case goroutines r ! i of
                  Running started \<Rightarrow> finish_check env key ctx client consumerSD claims i bites started st
                | _ \<Rightarrow> st)
          else st
      | Expire \<Rightarrow>
          (r\<lparr>phase_done := Some DeadlineExceeded,
             checks_done := (if checks_done r = None then Some DeadlineExceeded else checks_done r)\<rparr>, s)))"

definition run_steps :: "'w env \<Rightarrow> string \<Rightarrow> request_context \<Rightarrow> client \<Rightarrow> string \<Rightarrow> owner_claim list \<Rightarrow> 'w owner_op list
    \<Rightarrow> check_run \<times> ('w, 'z) metrics_proc_scheme \<Rightarrow> check_run \<times> ('w, 'z) metrics_proc_scheme" where
  "run_steps env key ctx client consumerSD claims ops st =
     foldl (\<lambda>st op. owner_step env key ctx client consumerSD claims op st) st ops"

text \<open>What is left when the given steps are done: the running checks end, the waiting ones run.\<close>

definition remaining_steps :: "nat \<Rightarrow> 'w owner_op list" where
  "remaining_steps n =
     map (\<lambda>i. Finish i (\<lambda>_ _. None)) [0..<n]
     @ concat (map (\<lambda>i. [Start i, Finish i (\<lambda>_ _. None)]) [0..<n])"

section \<open>The verdict\<close>

definition consulted :: "owner_check_result list \<Rightarrow> checked_owner list" where
  "consulted rs = map or_record (filter (\<lambda>r. or_attempted r \<and> ck_subject (or_record r) \<noteq> []) rs)"

fun first_denial :: "owner_check_result list \<Rightarrow> response_outcome option" where
  "first_denial [] = None"
| "first_denial (r # rs) =
     (if or_attempted r \<and> or_problem r \<and> or_err r = None then Some (or_outcome r) else first_denial rs)"

fun first_failure :: "sentinel option \<Rightarrow> owner_check_result list \<Rightarrow> (gerror \<times> consent_request option) option" where
  "first_failure phaseErr [] = None"
| "first_failure phaseErr (r # rs) =
     (case or_err r of
        None \<Rightarrow> first_failure phaseErr rs
      | Some e \<Rightarrow>
          if \<not> or_attempted r then first_failure phaseErr rs
          else if errors_is e Canceled \<and> phaseErr = None then first_failure phaseErr rs
          else Some (e, or_request r))"

definition reduceOwnerResults :: "'w env \<Rightarrow> config \<Rightarrow> string \<Rightarrow> request_context \<Rightarrow> sentinel option \<Rightarrow> owner_check_result list
    \<Rightarrow> ('w, 'z) metrics_proc_scheme \<Rightarrow> response_outcome \<times> ('w, 'z) metrics_proc_scheme" where
  "reduceOwnerResults env cfg key ctx phaseErr rs s =
     (case first_denial rs of
        Some outcome \<Rightarrow> (outcome\<lparr>oc_checked := consulted rs\<rparr>, s)
      | None \<Rightarrow>
          (case first_failure phaseErr rs of
             Some (e, req) \<Rightarrow>
               ((failOutcome cfg (failModeForError e) (''consent check error: '' @ err_text e) key req)
                  \<lparr>oc_checked := consulted rs\<rparr>,
                log_every env Error ''consent-check''
                  (''ResponseFilter: consent check error for request '' @ key @ '': '' @ Sanitize (err_text e)) s)
           | None \<Rightarrow>
               (zero_outcome\<lparr>oc_decision := decisionAllow, oc_requestID := key, oc_resource := rc_Path ctx,
                  oc_method := rc_Method ctx, oc_checked := consulted rs\<rparr>, s)))"

definition checkOwners :: "'w env \<Rightarrow> 'w owner_op list \<Rightarrow> config \<Rightarrow> string \<Rightarrow> request_context \<Rightarrow> client \<Rightarrow> owner_claim list \<Rightarrow> string
    \<Rightarrow> ('w, 'z) metrics_proc_scheme \<Rightarrow> response_outcome \<times> ('w, 'z) metrics_proc_scheme" where
  "checkOwners env ops cfg key ctx client claims consumerSD s =
     (case run_steps env key ctx client consumerSD claims (ops @ remaining_steps (length claims)) (start_run claims, s) of
        (r, s1) \<Rightarrow> reduceOwnerResults env cfg key ctx (phase_done r) (results r) s1)"

end
