(* ===== verification/Client_Props.thy ===== *)
theory Client_Props
  imports Sample_Runs
begin

text \<open>
  What the consent client guarantees.  An environment is instrumented so that it records every HTTP
  exchange; the model is the same under it, and statements about the calls of an operation are
  statements about the exchanges it adds.  The lemmas bound and classify the calls of every
  operation, tie an allow verdict to a receipt in a reply the consent-manager gave to this very check,
  classify the errors, and separate the caches of different credential identities.
\<close>

section \<open>Cache keys\<close>

definition nul_free :: "string \<Rightarrow> bool" where
  "nul_free s \<longleftrightarrow> CHR 0x00 \<notin> set s"

definition nul_free_client :: "client \<Rightarrow> bool" where
  "nul_free_client c \<longleftrightarrow>
     list_all nul_free [baseURL c, host c, apiPrefix c, tokenAudience c, tokenServiceURL c, providerSD c]"

definition credential_identity :: "client \<Rightarrow> string list" where
  "credential_identity c =
     [baseURL c, host c, apiPrefix c, tokenAudience c, tokenServiceURL c, providerSD c,
      hashSecret (staticToken c), hashSecret (consentKey c)]"

lemma hashSecret_nul_free: "nul_free (hashSecret s)"
  using hex_encode_printable [of "CHR 0x00" "sha256 s"]
  by (auto simp: nul_free_def hashSecret_def code_def)

lemma cacheKey_inj:
  assumes "nul_free_client c" and "nul_free_client c'"
  shows "cacheKey c = cacheKey c' \<longleftrightarrow> credential_identity c = credential_identity c'"
proof -
  have "join [CHR 0x00] (credential_identity c) = join [CHR 0x00] (credential_identity c')
      \<longleftrightarrow> credential_identity c = credential_identity c'"
    using assms hashSecret_nul_free
    by (intro join_inj) (auto simp: credential_identity_def nul_free_client_def nul_free_def)
  then show ?thesis by (simp add: cacheKey_def key_separator_def credential_identity_def)
qed

lemma nul_separated:
  "nul_free x \<Longrightarrow> nul_free x' \<Longrightarrow> x @ CHR 0x00 # t = x' @ CHR 0x00 # t' \<longleftrightarrow> x = x' \<and> t = t'"
  unfolding nul_free_def by (rule append_sep_inj)

text \<open>A key that extends a credential key determines the credential identity, whatever it is extended by.\<close>

lemma extended_key_inj:
  assumes "nul_free_client c" and "nul_free_client c'" and "cacheKey c @ CHR 0x00 # t = cacheKey c' @ CHR 0x00 # t'"
  shows "credential_identity c = credential_identity c' \<and> t = t'"
  using assms hashSecret_nul_free
  by (simp add: cacheKey_def key_separator_def credential_identity_def nul_free_client_def nul_separated)

lemma identifierCacheKey_alt: "identifierCacheKey c sd sub = cacheKey c @ CHR 0x00 # sd @ CHR 0x00 # sub"
  by (simp add: identifierCacheKey_def key_separator_def)

lemma identifierCacheKey_identity:
  "nul_free_client c \<Longrightarrow> nul_free_client c' \<Longrightarrow> identifierCacheKey c sd sub = identifierCacheKey c' sd' sub' \<Longrightarrow>
   credential_identity c = credential_identity c'"
  unfolding identifierCacheKey_alt using extended_key_inj by blast

text \<open>Every part of a key is fixed by it, the client as far as its credential identity goes.\<close>

lemma identifierCacheKey_inj:
  assumes "nul_free_client c" and "nul_free_client c'" and "nul_free sd" and "nul_free sd'"
    and "identifierCacheKey c sd sub = identifierCacheKey c' sd' sub'"
  shows "credential_identity c = credential_identity c' \<and> sd = sd' \<and> sub = sub'"
proof -
  note k = extended_key_inj [OF assms(1,2) assms(5) [unfolded identifierCacheKey_alt]]
  with nul_separated [OF assms(3,4)] show ?thesis by simp
qed

lemma participantCacheKey_inj:
  assumes "nul_free_client c" and "nul_free_client c'" and "participantCacheKey c did = participantCacheKey c' did'"
  shows "credential_identity c = credential_identity c' \<and> did = did'"
  using extended_key_inj [OF assms(1,2)] assms(3) by (auto simp: participantCacheKey_def key_separator_def)

section \<open>The caches as interpretations of the interface\<close>

definition id_lookup :: "string \<Rightarrow> time \<Rightarrow> (string \<times> identifier_entry) list \<Rightarrow> string option" where
  "id_lookup k t m = Option.bind (map_of m k) (id_entry_get t)"

definition sd_lookup :: "string \<Rightarrow> time \<Rightarrow> (string \<times> participant_sd_entry) list \<Rightarrow> string option option" where
  "sd_lookup k t m = Option.bind (map_of m k) (sd_entry_get t)"

interpretation idc: ttl_cache id_lookup id_put "\<lambda>_. identifier_cache_ttl" "[]"
  by unfold_locales (auto simp: id_lookup_def id_put_def id_entry_get_def)

interpretation sdc: ttl_cache sd_lookup sd_put sd_ttl "[]"
  by unfold_locales (auto simp: sd_lookup_def sd_put_def sd_entry_get_def split: option.splits)

text \<open>\<open>resolveUserIdentifier\<close> answers from the cache exactly when a lookup at the clock's instant hits.\<close>

lemma resolve_from_cache:
  assumes "now_of env (world s) = (now, w)"
    and "id_lookup (identifierCacheKey c sd subject) now (identifierCache s) = Some u"
  shows "resolveUserIdentifier env c subject sd token s = (Inr (Some u), s\<lparr>world := w\<rparr>)"
  using assms by (auto simp: id_lookup_def resolveUserIdentifier_def time_now_def bind_eq_Some_conv)

lemma sd_from_cache:
  assumes "now_of env (world s) = (now, w)" and "did \<noteq> []"
    and "sd_lookup (participantCacheKey c did) now (participantSDCache s) = Some a"
  shows "ParticipantSelfDescriptionByDID env c did s =
    ((case a of None \<Rightarrow> Inl (notRegistered did) | Some sd \<Rightarrow> Inr sd), s\<lparr>world := w\<rparr>)"
  using assms
  by (auto simp: sd_lookup_def ParticipantSelfDescriptionByDID_def time_now_def bind_eq_Some_conv split: option.splits)



section \<open>Claims\<close>

text \<open>
  C3.  An allow verdict of \<open>CheckConsent\<close> is never an accident: its last call was the consents lookup
  of this very check, answered 200 with a body that decodes to receipts, one of which is granted, names
  the asking consumer (which is not empty), and covers the purpose and the data resource asked for.
\<close>

theorem allow_is_authorized:
  assumes "CheckConsent (traced env) c req s = (Inr resp, s')" and "Decision resp = DecisionAllow"
  shows "Subject req \<noteq> [] \<and> Consumer req \<noteq> [] \<and>
    (\<exists>es token u body recs r.
      calls s' = calls s @ es @ [(manager_get c (consents_url c u) token, Response 200 body)]
      \<and> unmarshal dec_consents body [] = Some recs \<and> r \<in> set recs \<and> authorizes req r)"
  using assms by (rule CheckConsent_allow)

theorem allow_is_authorized_witness:
  "\<exists>es token u body recs r.
     calls (snd (CheckConsent (traced (scripted_env demo_reply)) demo_client demo_question empty_traced))
       = calls empty_traced @ es @ [(manager_get demo_client (consents_url demo_client u) token, Response 200 body)]
     \<and> unmarshal dec_consents body [] = Some recs \<and> r \<in> set recs \<and> authorizes demo_question r"
proof -
  obtain s' where "CheckConsent (traced (scripted_env demo_reply)) demo_client demo_question empty_traced
      = (Inr \<lparr>Decision = DecisionAllow, Reason = []\<rparr>, s')"
    by (simp add: demo_defs check_defs match_defs demo_bodies)
  from allow_is_authorized [OF this] this show ?thesis by simp
qed

text \<open>
  C17.  One check makes a bounded number of calls, each of them one of the client's five requests: the
  token service is asked only by a client without a static token, without Host override, Bearer token
  or consent key; every other request goes to the consent-manager's base URL under the configured Host
  with the configured timeout, and the consent key is sent on the identifier search only.
\<close>

theorem CheckConsent_calls:
  "issued (client_request c) (check_budget c) s (snd (CheckConsent (traced env) c req s))
   \<and> check_budget c \<le> 8 \<and> (staticToken c \<noteq> [] \<and> providerSD c \<noteq> [] \<longrightarrow> check_budget c = 2)"
  using issued_CheckConsent [of env c req s "fst (CheckConsent (traced env) c req s)"]
  by (auto simp: check_budget_def credential_budget_def)

theorem CheckConsent_calls_witness:
  "staticToken demo_client \<noteq> [] \<and> providerSD demo_client \<noteq> [] \<and> check_budget demo_client = 2"
  using CheckConsent_calls [of demo_client empty_traced "scripted_env demo_reply" demo_question]
  by (simp add: demo_client_def)

text \<open>
  C18.  Errors are classified: a check never surfaces the internal 401 sentinel or the registry's, and
  its error is \<open>ErrNoCredentials\<close> exactly when the client has neither a static token nor a token
  service, so a network failure can never be taken for that misconfiguration, nor the reverse.
\<close>

theorem CheckConsent_errors:
  assumes "clean_env env" and "CheckConsent env c req s = (Inl e, s')"
  shows "\<not> errors_is e ParticipantUnauthorized \<and> \<not> errors_is e ParticipantNotRegistered
    \<and> (errors_is e NoCredentials \<longleftrightarrow> staticToken c = [] \<and> tokenServiceURL c = [])"
proof (cases "no_credentials c")
  case True
  then have "e = no_credentials_error"
    using assms(2) by (auto simp: CheckConsent_def check_none no_credentials_error_def split: if_splits)
  with True show ?thesis by (auto simp: no_credentials_error_def no_credentials_def)
next
  case False
  have "external e"
    using assms False
    by (auto simp: CheckConsent_def call_error_def unauthorized_error_def split: if_splits prod.splits sum.splits
        dest!: errors_check_with_retry [OF assms(1) False])
  with False external_not show ?thesis by (auto simp: no_credentials_def)
qed

theorem CheckConsent_errors_witness:
  "\<exists>e. CheckConsent (scripted_env (\<lambda>_. Do_Error (new_error ''refused''))) demo_client demo_question empty_proc = (Inl e, empty_proc)
     \<and> \<not> errors_is e NoCredentials"
proof -
  let ?env = "scripted_env (\<lambda>_. Do_Error (new_error ''refused''))"
  have c: "clean_env ?env" by (simp add: clean_for_def clean_result_def scripted_env_def)
  obtain e where e: "CheckConsent ?env demo_client demo_question empty_proc = (Inl e, empty_proc)"
    by (simp add: demo_defs check_defs)
  with CheckConsent_errors [OF c e] show ?thesis by (auto simp: demo_client_def)
qed

text \<open>
  C14.  Checks of one participant never touch the cached state of another: if two clients differ in any
  part of their credential identity (and no part holds the separator byte), a check by the first leaves
  the second's credential entry, all its cached identifiers and every self-description as they were.
\<close>

theorem caches_isolated:
  assumes "nul_free_client c" and "nul_free_client c'" and "credential_identity c \<noteq> credential_identity c'"
  shows "let s' = snd (CheckConsent env c req s) in
    cred_entry (cacheKey c') s' = cred_entry (cacheKey c') s
    \<and> map_of (identifierCache s') (identifierCacheKey c' sd subject) = map_of (identifierCache s) (identifierCacheKey c' sd subject)
    \<and> participantSDCache s' = participantSDCache s"
proof -
  obtain r s' where run: "CheckConsent env c req s = (r, s')" by fastforce
  define I where "I k \<longleftrightarrow> (\<exists>sd'. k = identifierCacheKey c sd' (Subject req))" for k
  have "keeps_others (cacheKey c) I s s'"
    using run
  proof (cases rule: CheckConsent_state)
    case 1
    then show ?thesis by simp
  next
    case (2 r')
    then show ?thesis by (rule keeps_check_with_retry) (auto simp: I_def)
  qed
  moreover have "cacheKey c' \<noteq> cacheKey c" using cacheKey_inj assms by metis
  moreover have "\<not> I (identifierCacheKey c' sd subject)"
    using identifierCacheKey_identity [OF assms(1,2)] assms(3) unfolding I_def by metis
  ultimately show ?thesis using run by (auto simp: keeps_others_def cred_entry_def)
qed

theorem caches_isolated_witness:
  "let s' = snd (CheckConsent (scripted_env demo_reply) demo_client demo_question empty_proc) in
    cred_entry (cacheKey (demo_client\<lparr>host := ''h''\<rparr>)) s' = cred_entry (cacheKey (demo_client\<lparr>host := ''h''\<rparr>)) empty_proc
    \<and> map_of (identifierCache s') (identifierCacheKey (demo_client\<lparr>host := ''h''\<rparr>) ''sd:p'' ''did:o'')
      = map_of (identifierCache empty_proc) (identifierCacheKey (demo_client\<lparr>host := ''h''\<rparr>) ''sd:p'' ''did:o'')
    \<and> participantSDCache s' = participantSDCache empty_proc"
  by (rule caches_isolated)
     (auto simp: nul_free_client_def nul_free_def demo_client_def credential_identity_def)

lemma clock_read: "time_now (traced env) s = (t, s') \<Longrightarrow> now_of (traced env) (fst (world s), calls s) = (t, world s')"
  by (auto simp: time_now_def calls_def split: prod.splits)

text \<open>
  C20.  The retry after a 401 presents a token minted after it: when credentials are forced, a client
  without a static token makes exactly one call to the token service, takes the non-empty
  \<open>access_token\<close> of its 200 answer, and caches it until the moment given by \<open>cacheFor\<close>.
\<close>

theorem forced_token_is_new:
  assumes "participant_token (traced env) c True s = (Inr tok, s')" and "staticToken c = []"
  shows "tok \<noteq> [] \<and> (\<exists>rq body out now w.
    now_of (traced env) (w, calls s') = (now, world s')
    \<and> token_request c rq \<and> calls s' = calls s @ [(rq, Response 200 body)]
    \<and> unmarshal dec_token_response body \<lparr>AccessToken = [], TokenType = [], ExpiresIn = 0\<rparr> = Some out
    \<and> tok = AccessToken out \<and> ce_token (cred_entry (cacheKey c) s') = tok
    \<and> ce_tokenExpiry (cred_entry (cacheKey c) s') = now + cacheFor (i64 (ExpiresIn out * second)) (tokenTTL c))"
proof -
  have "refresh_token (traced env) c (set_entry (cacheKey c) ((cred_entry (cacheKey c) s)\<lparr>ce_token := []\<rparr>) s) = (Inr tok, s')"
    using assms by (auto simp: participant_token_def)
  then obtain lifetime s1 now s2 where
    f: "fetchToken (traced env) c (set_entry (cacheKey c) ((cred_entry (cacheKey c) s)\<lparr>ce_token := []\<rparr>) s) = (Inr (tok, lifetime), s1)"
    and t: "time_now (traced env) s1 = (now, s2)"
    and s': "s' = set_entry (cacheKey c) ((cred_entry (cacheKey c) s2)\<lparr>ce_token := tok,
           ce_tokenExpiry := now + cacheFor lifetime (tokenTTL c)\<rparr>) s2"
    by (rule refresh_token_Inr)
  have "world s' = world s2" and cs: "calls s' = calls s1"
    using s' calls_time_now [OF t] by (simp add: set_entry_def, simp)
  with clock_read [OF t] have w: "now_of (traced env) (fst (world s1), calls s') = (now, world s')" by simp
  from fetchToken_Inr [OF f] obtain rq body out where "token_request c rq" "calls s1 = calls s @ [(rq, Response 200 body)]"
    "unmarshal dec_token_response body \<lparr>AccessToken = [], TokenType = [], ExpiresIn = 0\<rparr> = Some out"
    "tok = AccessToken out" "tok \<noteq> []" "lifetime = i64 (ExpiresIn out * second)" by auto
  with s' w cs have "now_of (traced env) (fst (world s1), calls s') = (now, world s')
    \<and> token_request c rq \<and> calls s' = calls s @ [(rq, Response 200 body)]
    \<and> unmarshal dec_token_response body \<lparr>AccessToken = [], TokenType = [], ExpiresIn = 0\<rparr> = Some out
    \<and> tok = AccessToken out \<and> ce_token (cred_entry (cacheKey c) s') = tok
    \<and> ce_tokenExpiry (cred_entry (cacheKey c) s') = now + cacheFor (i64 (ExpiresIn out * second)) (tokenTTL c)"
    by simp
  with \<open>tok \<noteq> []\<close> show ?thesis by blast
qed

definition token_client :: client where
  "token_client = demo_client\<lparr>staticToken := [], tokenServiceURL := ''http://ts''\<rparr>"

definition token_reply :: "http_request \<Rightarrow> http_result" where
  "token_reply rq = Response 200 ''{\"access_token\":\"t2\",\"expires_in\":3600}''"

lemma token_body:
  "unmarshal dec_token_response ''{\"access_token\":\"t2\",\"expires_in\":3600}'' \<lparr>AccessToken = [], TokenType = [], ExpiresIn = 0\<rparr>
   = Some \<lparr>AccessToken = ''t2'', TokenType = [], ExpiresIn = 3600\<rparr>"
  by code_simp

theorem forced_token_is_new_witness:
  "\<exists>s' rq body. participant_token (traced (scripted_env token_reply)) token_client True empty_traced = (Inr ''t2'', s')
     \<and> token_request token_client rq \<and> calls s' = [(rq, Response 200 body)]"
proof -
  have st: "staticToken token_client = []" by (simp add: token_client_def)
  obtain s' where run: "participant_token (traced (scripted_env token_reply)) token_client True empty_traced = (Inr ''t2'', s')"
    by (simp add: participant_token_def refresh_token_def fetchToken_def set_entry_def token_client_def demo_defs check_defs
        token_reply_def token_body gset_def cred_entry_def)
  have "calls empty_traced = []" by (simp add: calls_def empty_traced_def)
  with forced_token_is_new [OF run st] run show ?thesis by auto
qed

text \<open>
  C19.  A token served without a call is the configured static one, or the cached one, which has not
  expired at the instant of the check; credentials never serve an expired token, and never an empty one
  from the cache.
\<close>

theorem cached_token_is_live:
  assumes "participant_token (traced env) c f s = (Inr tok, s')" and "calls s' = calls s"
  shows "tok \<noteq> [] \<and> (tok = staticToken c
    \<or> \<not> f \<and> tok = ce_token (cred_entry (cacheKey c) s)
        \<and> (\<exists>now. time_now (traced env) s = (now, s') \<and> now \<le> ce_tokenExpiry (cred_entry (cacheKey c) s)))"
proof -
  have no: False if r: "refresh_token (traced env) c t = (Inr x, s')" and t: "calls t = calls s" for t x
  proof -
    from r obtain lifetime s1 now s2 where "fetchToken (traced env) c t = (Inr (x, lifetime), s1)"
      and "time_now (traced env) s1 = (now, s2)"
      and "s' = set_entry (cacheKey c) ((cred_entry (cacheKey c) s2)\<lparr>ce_token := x,
             ce_tokenExpiry := now + cacheFor lifetime (tokenTTL c)\<rparr>) s2"
      by (rule refresh_token_Inr)
    with t assms(2) show False by (auto dest!: fetchToken_Inr calls_time_now)
  qed
  show ?thesis
    using assms(1)
    by (auto simp: participant_token_def Let_def split: if_splits prod.splits
        dest: no [OF _ calls_set_entry] no [OF _ refl] no [OF _ calls_time_now])
qed

theorem cached_token_is_live_witness:
  "''tok'' \<noteq> [] \<and> participant_token (traced (scripted_env token_reply)) demo_client False empty_traced = (Inr ''tok'', empty_traced)"
proof -
  have run: "participant_token (traced (scripted_env token_reply)) demo_client False empty_traced = (Inr ''tok'', empty_traced)"
    by (simp add: participant_token_def demo_client_def)
  from cached_token_is_live [OF run] run show ?thesis by simp
qed

text \<open>
  C21.  The lifetime of a cached token: positive, at most the configured cap, at most the lifetime the
  token service reported when it reported one, and a minute short of both when that minute exists.
\<close>

theorem cacheFor_bounds:
  assumes "0 < cap"
  shows "0 < cacheFor lifetime cap \<and> cacheFor lifetime cap \<le> cap
    \<and> (0 < lifetime \<longrightarrow> cacheFor lifetime cap \<le> lifetime)
    \<and> (token_refresh_skew < lifetime \<and> token_refresh_skew < cap \<longrightarrow> cacheFor lifetime cap = min lifetime cap - token_refresh_skew)
    \<and> (lifetime \<le> 0 \<longrightarrow> cacheFor lifetime cap = cacheFor cap cap)"
  using assms by (auto simp: cacheFor_def token_refresh_skew_def second_def Let_def)

theorem cacheFor_bounds_witness:
  "0 < cacheFor (3600 * second) DefaultTokenTTL \<and> cacheFor (3600 * second) DefaultTokenTTL = 2940 * second"
  using cacheFor_bounds [of DefaultTokenTTL "3600 * second"]
  by (simp add: DefaultTokenTTL_def second_def token_refresh_skew_def)

text \<open>The steps behind a self-description that was not in the cache.\<close>

definition registry_says :: "'w env \<Rightarrow> client \<Rightarrow> string \<Rightarrow> string option \<Rightarrow> exchange \<Rightarrow> bool" where
  "registry_says env c did answer x \<longleftrightarrow>
     (\<exists>token body ps. x = (manager_get c (endpoint c ''/participants'') token, Response 200 body)
      \<and> decodeParticipants env body = Inr ps
      \<and> (case answer of
           Some sd \<Rightarrow> sd \<noteq> [] \<and> (\<exists>p\<in>set ps. pl_DID p = did \<and> pl_SelfDescriptionURL p = sd)
         | None \<Rightarrow> (\<forall>p\<in>set ps. pl_DID p = did \<longrightarrow> pl_SelfDescriptionURL p = [])))"

lemma find_sd_some: "find_sd did ps = sd \<Longrightarrow> sd \<noteq> [] \<Longrightarrow> \<exists>p\<in>set ps. pl_DID p = did \<and> pl_SelfDescriptionURL p = sd"
  by (induction ps) (auto split: if_splits)

lemma find_sd_none: "find_sd did ps = [] \<Longrightarrow> p \<in> set ps \<Longrightarrow> pl_DID p = did \<Longrightarrow> pl_SelfDescriptionURL p = []"
  by (induction ps) (auto split: if_splits)

definition sd_answer :: "string \<Rightarrow> string option" where
  "sd_answer sd = (if sd = [] then None else Some sd)"

lemma decodeParticipants_traced [simp]: "decodeParticipants (traced env) body = decodeParticipants env body"
  by (simp add: decodeParticipants_def split: sum.splits)

lemma lookup_Inr:
  assumes "lookupParticipantSD (traced env) c did f s = (Inr sd, s')"
  shows "\<exists>es x. calls s' = calls s @ es @ [x] \<and> registry_says env c did (sd_answer sd) x"
proof -
  obtain token psd s1 where cr: "credentials (traced env) c f s = (Inr (token, psd), s1)"
    using assms by (auto simp: lookupParticipantSD_def split: prod.splits sum.splits)
  obtain rq where rq: "new_request env ''GET'' (endpoint c ''/participants'') None = Inr rq"
    using assms cr by (auto simp: lookupParticipantSD_def split: prod.splits sum.splits)
  obtain x s2 where d: "client_do (traced env) c (bearer token rq) s1 = (x, s2)" by fastforce
  then obtain y where y: "calls s2 = calls s1 @ [(sent c (bearer token rq), y)]"
    and y': "\<And>status body. x = Inr (status, body) \<Longrightarrow> y = Response status body"
    by (rule calls_client_do) blast
  obtain body ps where "x = Inr (200, body)" "s' = s2" "decodeParticipants env body = Inr ps" "sd = find_sd did ps"
    using assms cr rq d
    by (auto simp: lookupParticipantSD_def split: sum.splits prod.splits if_splits dest!: calls_unexpectedStatus)
  moreover obtain es where "calls s1 = calls s @ es" using issued_later [OF issued_credentials [OF cr]] by blast
  moreover have "registry_says env c did (sd_answer sd) (manager_get c (endpoint c ''/participants'') token, Response 200 body)"
    using find_sd_some [of did ps sd] find_sd_none [of did ps] calculation
    by (auto simp: registry_says_def sd_answer_def)
  ultimately show ?thesis using y y' sent_get [OF rq, of c token] by auto
qed

lemma retry_Inr:
  assumes "lookup_with_retry (traced env) c did s = (Inr sd, s')"
  shows "\<exists>es x. calls s' = calls s @ es @ [x] \<and> registry_says env c did (sd_answer sd) x"
proof (cases "fst (lookupParticipantSD (traced env) c did False s)")
  case (Inl e)
  then obtain s1 where l1: "lookupParticipantSD (traced env) c did False s = (Inl e, s1)" by (metis prod.collapse)
  then have l2: "lookupParticipantSD (traced env) c did True s1 = (Inr sd, s')"
    using assms by (auto simp: lookup_with_retry_def split: if_splits)
  obtain es where "calls s1 = calls s @ es" using issued_later [OF issued_lookupParticipantSD [OF l1]] by blast
  with lookup_Inr [OF l2] show ?thesis by (metis append.assoc)
next
  case (Inr x)
  then have "lookupParticipantSD (traced env) c did False s = (Inr sd, s')"
    using assms by (auto simp: lookup_with_retry_def split: prod.splits sum.splits)
  then show ?thesis by (rule lookup_Inr)
qed

abbreviation fill_ids :: "(string \<times> string \<times> time) list \<Rightarrow> (string \<times> identifier_entry) list" where
  "fill_ids ps \<equiv> foldl (\<lambda>m (k, v, t). id_put k v t m) [] ps"

abbreviation fill_sds :: "(string \<times> string option \<times> time) list \<Rightarrow> (string \<times> participant_sd_entry) list" where
  "fill_sds ps \<equiv> foldl (\<lambda>m (k, v, t). sd_put k v t m) [] ps"

text \<open>The caches after a history of answers: who asked, for what, and what was put when.\<close>

definition answered_ids :: "(client \<times> string \<times> string \<times> string \<times> time) list \<Rightarrow> (string \<times> identifier_entry) list" where
  "answered_ids ps = fill_ids (map (\<lambda>(c, sd, subject, u, t). (identifierCacheKey c sd subject, u, t)) ps)"

definition answered_sds :: "(client \<times> string \<times> string option \<times> time) list \<Rightarrow> (string \<times> participant_sd_entry) list" where
  "answered_sds ps = fill_sds (map (\<lambda>(c, did, answer, t). (participantCacheKey c did, answer, t)) ps)"

lemma answered_ids_snoc:
  "answered_ids (ps @ [(c, sd, subject, u, t)]) = id_put (identifierCacheKey c sd subject) u t (answered_ids ps)"
  by (simp add: answered_ids_def)

lemma answered_sds_snoc:
  "answered_sds (ps @ [(c, did, answer, t)]) = sd_put (participantCacheKey c did) answer t (answered_sds ps)"
  by (simp add: answered_sds_def)

lemma answered_ids_hit:
  assumes "id_lookup (identifierCacheKey c sd subject) now (answered_ids ps) = Some u"
    and "nul_free_client c" and "nul_free sd" and "\<forall>(c0, sd0, _) \<in> set ps. nul_free_client c0 \<and> nul_free sd0"
  shows "\<exists>c0 t0. (c0, sd, subject, u, t0) \<in> set ps \<and> credential_identity c0 = credential_identity c
    \<and> now < t0 + identifier_cache_ttl"
proof -
  obtain c0 sd0 sub0 t0 where p: "(c0, sd0, sub0, u, t0) \<in> set ps" and k: "identifierCacheKey c sd subject = identifierCacheKey c0 sd0 sub0"
    and t: "now < t0 + identifier_cache_ttl"
    using idc.hit_is_fresh [OF assms(1) [unfolded answered_ids_def]] by auto
  have "nul_free_client c0 \<and> nul_free sd0" using assms(4) p by auto
  with identifierCacheKey_inj [OF assms(2) _ assms(3) _ k] p t show ?thesis by auto
qed

lemma answered_sds_hit:
  assumes "sd_lookup (participantCacheKey c did) now (answered_sds ps) = Some a"
    and "nul_free_client c" and "\<forall>(c0, _) \<in> set ps. nul_free_client c0"
  shows "\<exists>c0 t0. (c0, did, a, t0) \<in> set ps \<and> credential_identity c0 = credential_identity c \<and> now < t0 + sd_ttl a"
proof -
  obtain c0 did0 t0 where p: "(c0, did0, a, t0) \<in> set ps" and k: "participantCacheKey c did = participantCacheKey c0 did0"
    and t: "now < t0 + sd_ttl a"
    using sdc.hit_is_fresh [OF assms(1) [unfolded answered_sds_def]] by auto
  have "nul_free_client c0" using assms(3) p by auto
  with participantCacheKey_inj [OF assms(2) _ k] p t show ?thesis by auto
qed

text \<open>A lookup in the registry leaves the self-description cache to its caller.\<close>

lemma keeps_lookupParticipantSD:
  "lookupParticipantSD env c did f s = (r, s') \<Longrightarrow> keeps_others (cacheKey c) I s s'"
  by (auto simp: lookupParticipantSD_def split: sum.splits prod.splits if_splits
      dest!: keeps_credentials [of env c f _ _ _ I] keeps_client_do [of env c _ _ _ _ "cacheKey c" I]
        keeps_unexpectedStatus [of env _ _ _ _ _ _ "cacheKey c" I]
      intro: keeps_trans)

lemma keeps_lookup_with_retry: "lookup_with_retry env c did s = (r, s') \<Longrightarrow> participantSDCache s' = participantSDCache s"
  by (auto simp: lookup_with_retry_def keeps_others_def split: sum.splits prod.splits if_splits
      dest!: keeps_lookupParticipantSD [of env c did _ _ _ _ "\<lambda>_. True"])

text \<open>
  C16.  A self-description, or the answer that a DID is not registered, is never invented: it was put
  into the cache for this very DID, by a client of the same credential identity, less than ten minutes
  (thirty seconds for a negative answer) ago, or the registry said so of this DID in a 200 reply to this
  call, and then the answer enters the cache under the client and the DID.
\<close>

theorem registry_answers:
  assumes "clean_env env" and "participantSDCache s = answered_sds ps"
    and "nul_free_client c" and "\<forall>(c0, _) \<in> set ps. nul_free_client c0"
    and "ParticipantSelfDescriptionByDID (traced env) c did s = (r, s')"
    and "(case r of Inl e \<Rightarrow> errors_is e ParticipantNotRegistered \<and> answer = None | Inr sd \<Rightarrow> answer = Some sd)"
  shows "did \<noteq> [] \<and>
    ((\<exists>now c0 t0. time_now (traced env) s = (now, s') \<and> (c0, did, answer, t0) \<in> set ps
        \<and> credential_identity c0 = credential_identity c \<and> now < t0 + sd_ttl answer)
     \<or> (\<exists>es x t0. calls s' = calls s @ es @ [x] \<and> registry_says env c did answer x
        \<and> participantSDCache s' = answered_sds (ps @ [(c, did, answer, t0)])))"
proof -
  have ct: "clean_env (traced env)"
    using assms(1) by (rule clean_traced)
  have nr: "\<not> errors_is e ParticipantNotRegistered"
    if "lookup_with_retry (traced env) c did t = (Inl e, t')" for e t t'
    using errors_lookup_with_retry [OF ct that] external_not(2)
    by (auto simp: call_error_def unauthorized_error_def no_credentials_error_def)
  have clock: "participantSDCache t' = participantSDCache t" if "time_now (traced env) t = (now, t')" for now t t'
    using time_now_split [OF that] by auto
  have filled: "\<exists>es x t0. calls s' = calls t @ es @ [x] \<and> registry_says env c did answer x
      \<and> participantSDCache s' = answered_sds (ps @ [(c, did, answer, t0)])"
    if "fill_participant_sd (traced env) c did t = (r, s')" and pc: "participantSDCache t = participantSDCache s" for t
  proof -
    obtain sd t1 where l: "lookup_with_retry (traced env) c did t = (Inr sd, t1)"
    proof (cases "lookup_with_retry (traced env) c did t")
      case (Pair x t1)
      then show thesis using that nr [of t] \<open>fill_participant_sd (traced env) c did t = (r, s')\<close> assms(6)
        by (cases x) (auto simp: fill_participant_sd_def split: if_splits)
    qed
    obtain now t2 where n: "time_now (traced env) t1 = (now, t2)" by fastforce
    have "participantSDCache t2 = answered_sds ps"
      using keeps_lookup_with_retry [OF l] time_now_split [OF n] pc assms(2) by auto
    then have "answer = sd_answer sd \<and> calls s' = calls t1 \<and> participantSDCache s' = answered_sds (ps @ [(c, did, sd_answer sd, now)])"
      using that(1) assms(6) l n calls_time_now [OF n]
      by (auto simp: fill_participant_sd_def Let_def sd_answer_def answered_sds_snoc split: if_splits)
    with retry_Inr [OF l] show ?thesis by metis
  qed
  show ?thesis
  proof (cases "\<exists>now s1 a. did \<noteq> [] \<and> time_now (traced env) s = (now, s1) \<and> sd_lookup (participantCacheKey c did) now (participantSDCache s) = Some a")
    case True
    then obtain now s1 a where d: "did \<noteq> []" and t: "time_now (traced env) s = (now, s1)"
      and l: "sd_lookup (participantCacheKey c did) now (participantSDCache s) = Some a" by blast
    obtain w where n: "now_of (traced env) (world s) = (now, w)" and s1: "s1 = s\<lparr>world := w\<rparr>"
      using t by (auto simp: time_now_def split: prod.splits)
    from sd_from_cache [OF n d l] assms(5,6) s1 have "s' = s1 \<and> answer = a"
      by (auto split: option.splits)
    with answered_sds_hit [OF l [unfolded assms(2)] assms(3,4)] t d show ?thesis by auto
  next
    case False
    then have d: "did \<noteq> []" using assms(5,6) by (auto simp: ParticipantSelfDescriptionByDID_def)
    obtain t where "fill_participant_sd (traced env) c did t = (r, s')" and "calls t = calls s"
      and "participantSDCache t = participantSDCache s"
      using False d assms(5)
      by (auto simp: ParticipantSelfDescriptionByDID_def sd_lookup_def bind_eq_Some_conv
          split: option.splits prod.splits dest: calls_time_now clock)
    with filled [of t] d show ?thesis by auto
  qed
qed

definition registry_reply :: "http_request \<Rightarrow> http_result" where
  "registry_reply rq = Response 200 ''[{\"did\":\"did:x\",\"selfDescriptionURL\":\"sd:x\"}]''"

lemma registry_body:
  "unmarshal dec_participants ''[{\"did\":\"did:x\",\"selfDescriptionURL\":\"sd:x\"}]'' []
   = Some [\<lparr>pl_DID = ''did:x'', pl_SelfDescriptionURL = ''sd:x''\<rparr>]"
  by code_simp

theorem registry_answers_witness:
  "\<exists>s' es x. ParticipantSelfDescriptionByDID (traced (scripted_env registry_reply)) demo_client ''did:x'' empty_traced = (Inr ''sd:x'', s')
     \<and> calls s' = es @ [x] \<and> registry_says (scripted_env registry_reply) demo_client ''did:x'' (Some ''sd:x'') x"
proof -
  have nf: "nul_free_client demo_client" by (simp add: nul_free_client_def nul_free_def demo_client_def)
  have c: "clean_env (scripted_env registry_reply)"
    by (simp add: clean_for_def clean_result_def scripted_env_def registry_reply_def)
  obtain s' where run: "ParticipantSelfDescriptionByDID (traced (scripted_env registry_reply)) demo_client ''did:x'' empty_traced = (Inr ''sd:x'', s')"
    by (simp add: ParticipantSelfDescriptionByDID_def fill_participant_sd_def lookup_with_retry_def lookupParticipantSD_def
        decodeParticipants_def demo_defs check_defs registry_reply_def registry_body)
  have "participantSDCache empty_traced = answered_sds []" "calls empty_traced = []"
    by (simp_all add: empty_traced_def calls_def answered_sds_def)
  with registry_answers [OF c _ nf _ run, of "[]" "Some ''sd:x''"] run show ?thesis by auto
qed

lemma search_Inr:
  assumes "search_identifier (traced env) c subject sd token s = (Inr (Some u), s')"
  shows "\<exists>body t0 w. calls s' = calls s @ [(manager_search c subject sd token, Response 200 body)]
    \<and> unmarshal (dec_struct identifier_field) body [] = Some u \<and> u \<noteq> []
    \<and> now_of (traced env) (w, calls s') = (t0, world s')
    \<and> identifierCache s' = id_put (identifierCacheKey c sd subject) u t0 (identifierCache s)"
proof -
  obtain rq where rq: "new_request env ''POST'' (endpoint c ''/users/identifier/search'')
     (Some (JObj [(''email'', json_string subject), (''selfDescription'', json_string sd)])) = Inr rq"
    using assms by (auto simp: search_identifier_def split: sum.splits)
  obtain x s1 where d: "client_do (traced env) c (identifier_request c token rq) s = (x, s1)" by fastforce
  then obtain y where y: "calls s1 = calls s @ [(sent c (identifier_request c token rq), y)]"
    and y': "\<And>status body. x = Inr (status, body) \<Longrightarrow> y = Response status body"
    by (rule calls_client_do) blast
  have "identifierCache s1 = identifierCache s"
    using d by (auto simp: client_do_def split: prod.splits http_result.splits dest!: http_do_split)
  moreover obtain body t0 s2 where "x = Inr (200, body)" "unmarshal (dec_struct identifier_field) body [] = Some u"
    "u \<noteq> []" "time_now (traced env) s1 = (t0, s2)"
    "s' = s2\<lparr>identifierCache := id_put (identifierCacheKey c sd subject) u t0 (identifierCache s2)\<rparr>"
    using assms rq d
    by (auto simp: search_identifier_def json_unmarshal_def split: sum.splits prod.splits if_splits option.splits)
  moreover have "calls s' = calls s1" and "identifierCache s2 = identifierCache s1" and "world s' = world s2"
    using calculation calls_time_now [of env s1 t0 s2] time_now_split [of "traced env" s1 t0 s2] by auto
  moreover have "manager_search c subject sd token = sent c (identifier_request c token rq)"
    using sent_search [OF rq, of token] by simp
  ultimately have "calls s' = calls s @ [(manager_search c subject sd token, Response 200 body)]
    \<and> unmarshal (dec_struct identifier_field) body [] = Some u \<and> u \<noteq> []
    \<and> now_of (traced env) (fst (world s1), calls s') = (t0, world s')
    \<and> identifierCache s' = id_put (identifierCacheKey c sd subject) u t0 (identifierCache s)"
    using y y' [of 200 body] clock_read [of env s1 t0 s2] by simp
  then show ?thesis by blast
qed

text \<open>An identifier is answered by the cache, or by the search.\<close>

lemma resolve_cases:
  assumes "resolveUserIdentifier (traced env) c subject sd token s = (Inr (Some u), s')"
  obtains now where "time_now (traced env) s = (now, s')" "id_lookup (identifierCacheKey c sd subject) now (identifierCache s) = Some u"
    | t where "search_identifier (traced env) c subject sd token t = (Inr (Some u), s')" "calls t = calls s"
      "identifierCache t = identifierCache s" "credCache t = credCache s"
proof (cases "map_of (identifierCache s) (identifierCacheKey c sd subject)")
  case None
  then show thesis using assms that(2) [of s] by (auto simp: resolveUserIdentifier_def)
next
  case (Some entry)
  obtain now s1 where t: "time_now (traced env) s = (now, s1)" by fastforce
  show thesis
  proof (cases "id_entry_get now entry")
    case None
    with t Some assms have "search_identifier (traced env) c subject sd token s1 = (Inr (Some u), s')"
      by (simp add: resolveUserIdentifier_def)
    then show thesis using that(2) calls_time_now [OF t] time_now_split [OF t] by auto
  next
    case (Some v)
    with t assms \<open>map_of (identifierCache s) _ = Some entry\<close> show thesis
      by (intro that(1) [of now]) (simp_all add: resolveUserIdentifier_def id_lookup_def)
  qed
qed

text \<open>
  C15.  An identifier is used only for the subject and the provider it was resolved for, by a client of
  the same credential identity: the cache holds an answer for exactly this subject and provider, put in
  less than a minute ago by such a client, or the identifier search for them answered it in this call,
  and then it enters the cache for them with the clock's reading after the reply.
\<close>

theorem identifier_is_fresh:
  assumes "identifierCache s = answered_ids ps"
    and "nul_free_client c" and "nul_free sd" and "\<forall>(c0, sd0, _) \<in> set ps. nul_free_client c0 \<and> nul_free sd0"
    and "resolveUserIdentifier (traced env) c subject sd token s = (Inr (Some u), s')"
  shows "(\<exists>now c0 t0. time_now (traced env) s = (now, s') \<and> (c0, sd, subject, u, t0) \<in> set ps
        \<and> credential_identity c0 = credential_identity c \<and> now < t0 + identifier_cache_ttl)
    \<or> (\<exists>body t0 w. calls s' = calls s @ [(manager_search c subject sd token, Response 200 body)]
        \<and> unmarshal (dec_struct identifier_field) body [] = Some u \<and> u \<noteq> []
        \<and> now_of (traced env) (w, calls s') = (t0, world s')
        \<and> identifierCache s' = answered_ids (ps @ [(c, sd, subject, u, t0)]))"
  using assms(5)
proof (cases rule: resolve_cases)
  case (1 now)
  with answered_ids_hit [OF _ assms(2-4), of subject now u] assms(1) show ?thesis by auto
next
  case (2 t)
  from search_Inr [OF 2(1)] 2(2,3) assms(1) show ?thesis by (auto simp: answered_ids_snoc)
qed

theorem identifier_is_fresh_witness:
  "\<exists>s'. resolveUserIdentifier (traced (scripted_env demo_reply)) demo_client ''did:o'' ''sd:p'' ''tok'' empty_traced = (Inr (Some ''u1''), s')
     \<and> (\<exists>t0. identifierCache s' = answered_ids [(demo_client, ''sd:p'', ''did:o'', ''u1'', t0)])"
proof -
  have nf: "nul_free_client demo_client" "nul_free ''sd:p''" by (simp_all add: nul_free_client_def nul_free_def demo_client_def)
  obtain s' where run: "resolveUserIdentifier (traced (scripted_env demo_reply)) demo_client ''did:o'' ''sd:p'' ''tok'' empty_traced = (Inr (Some ''u1''), s')"
    by (simp add: demo_defs check_defs demo_bodies)
  have "identifierCache empty_traced = answered_ids []" by (simp add: empty_traced_def answered_ids_def)
  from identifier_is_fresh [OF this nf _ run] run show ?thesis by auto
qed

end
