(* ===== verification/Provenance.thy ===== *)
theory Provenance
  imports Client_Props
begin

text \<open>
  Where a cached identifier comes from.  The exchanges of a run are its trace, and an entry of the identifier
  cache is \<^emph>\<open>sourced\<close> when the trace holds the identifier search that answered it, for the subject and the
  provider of its key.  Every operation of the client keeps the caches sourced, also when some of its calls are
  cut off; so a consent check, which may take the identifier from the cache, rests on a search for the very
  subject it was asked about.
\<close>

section \<open>Traces\<close>

text \<open>An environment that keeps the trace and adds every reply to it.\<close>

definition recording :: "('w \<times> exchange list) env \<Rightarrow> bool" where
  "recording E \<longleftrightarrow>
     (\<forall>w l. set l \<subseteq> set (snd (snd (now_of E (w, l)))))
     \<and> (\<forall>rq w l. set l \<subseteq> set (snd (snd (http_of E rq (w, l)))))
     \<and> (\<forall>rq w l status body. fst (http_of E rq (w, l)) = Response status body \<longrightarrow>
          (rq, Response status body) \<in> set (snd (snd (http_of E rq (w, l)))))"

text \<open>No provider self-description that \<open>/participants/me\<close> can answer holds the separator byte.\<close>

definition plain_replies :: "'w env \<Rightarrow> bool" where
  "plain_replies E \<longleftrightarrow>
     (\<forall>rq w body sd. fst (http_of E rq w) = Response 200 body \<longrightarrow> unmarshal (dec_struct me_field) body [] = Some sd
        \<longrightarrow> nul_free sd)"

lemma recording_traced: "recording (traced env)"
  by (auto simp: recording_def traced_def split: prod.split)

lemma plain_traced: "plain_replies env \<Longrightarrow> plain_replies (traced env)"
  by (auto simp: plain_replies_def traced_def split: prod.splits) (metis fst_conv)

section \<open>Sourced caches\<close>

text \<open>A client of this credential identity asked for the subject's identifier and was answered with it.\<close>

definition search_answered :: "client \<Rightarrow> string \<Rightarrow> string \<Rightarrow> string \<Rightarrow> exchange \<Rightarrow> bool" where
  "search_answered c sd subject u x \<longleftrightarrow>
     (\<exists>c' token body. credential_identity c' = credential_identity c
        \<and> x = (manager_search c' subject sd token, Response 200 body)
        \<and> unmarshal (dec_struct identifier_field) body [] = Some u \<and> u \<noteq> [])"

lemma search_answered_identity:
  "search_answered c sd subject u x \<Longrightarrow> credential_identity c = credential_identity c' \<Longrightarrow> search_answered c' sd subject u x"
  by (auto simp: search_answered_def)

definition entry_sourced :: "exchange list \<Rightarrow> string \<Rightarrow> identifier_entry \<Rightarrow> bool" where
  "entry_sourced xs k e \<longleftrightarrow>
     (\<exists>c sd subject. k = identifierCacheKey c sd subject \<and> nul_free_client c \<and> nul_free sd
        \<and> (\<exists>x\<in>set xs. search_answered c sd subject (ie_userIdentifier e) x))"

definition sourced :: "('w \<times> exchange list, 'z) client_proc_scheme \<Rightarrow> bool" where
  "sourced s \<longleftrightarrow>
     (\<forall>k e. map_of (credCache s) k = Some e \<longrightarrow> nul_free (ce_providerSD e))
     \<and> (\<forall>k e. map_of (identifierCache s) k = Some e \<longrightarrow> entry_sourced (calls s) k e)"

lemma entry_sourced_mono: "entry_sourced xs k e \<Longrightarrow> set xs \<subseteq> set ys \<Longrightarrow> entry_sourced ys k e"
  unfolding entry_sourced_def by blast

text \<open>Empty caches are sourced.\<close>

lemma sourced_empty: "credCache s = [] \<Longrightarrow> identifierCache s = [] \<Longrightarrow> sourced s"
  by (simp add: sourced_def)

text \<open>What an operation does to the trace and to the caches.\<close>

definition tracks :: "('w \<times> exchange list, 'z) client_proc_scheme \<Rightarrow> ('w \<times> exchange list, 'z) client_proc_scheme \<Rightarrow> bool" where
  "tracks s s' \<longleftrightarrow> set (calls s) \<subseteq> set (calls s') \<and> (sourced s \<longrightarrow> sourced s')"

lemma tracks_refl [simp, intro]: "tracks s s"
  by (simp add: tracks_def)

lemma tracks_trans: "tracks s s1 \<Longrightarrow> tracks s1 s2 \<Longrightarrow> tracks s s2"
  by (auto simp: tracks_def)

lemma tracks_same:
  "set (calls s) \<subseteq> set (calls s') \<Longrightarrow> credCache s' = credCache s \<Longrightarrow> identifierCache s' = identifierCache s \<Longrightarrow> tracks s s'"
  unfolding tracks_def sourced_def using entry_sourced_mono by metis

text \<open>A step outside the client: its caches and the world are as they were.\<close>

lemma tracks_outside:
  "world s' = world s \<Longrightarrow> credCache s' = credCache s \<Longrightarrow> identifierCache s' = identifierCache s \<Longrightarrow> tracks s s'"
  by (rule tracks_same) (simp_all add: calls_def)

section \<open>The operations\<close>

lemma tracks_time_now: "recording E \<Longrightarrow> time_now E s = (t, s') \<Longrightarrow> tracks s s'"
  by (cases "world s")
     (auto simp: time_now_def recording_def calls_def intro!: tracks_same split: prod.splits dest!: spec [of _ "fst (world s)"], metis snd_conv subsetD)

lemma http_do_recorded:
  assumes "recording E" and "http_do E rq s = (r, s')"
  shows "tracks s s' \<and> (\<forall>status body. r = Response status body \<longrightarrow> (rq, r) \<in> set (calls s'))"
proof -
  obtain w l where w: "world s = (w, l)" by fastforce
  obtain w' l' where h: "http_of E rq (w, l) = (r, (w', l'))" and s': "s' = s\<lparr>world := (w', l')\<rparr>"
    using assms(2) w by (auto simp: http_do_def split: prod.splits)
  have "set l \<subseteq> set l'" and "r = Response status body \<Longrightarrow> (rq, r) \<in> set l'" for status body
    using assms(1) h unfolding recording_def by (metis snd_conv, metis fst_conv snd_conv)
  then show ?thesis using w s' by (auto simp: calls_def intro!: tracks_same)
qed

lemma tracks_http_do: "recording E \<Longrightarrow> http_do E rq s = (r, s') \<Longrightarrow> tracks s s'"
  using http_do_recorded by blast

lemma tracks_log_every:
  assumes "recording E"
  shows "tracks s (log_every E l k m s)"
proof -
  obtain ok n s' where a: "allow E k s = ((ok, n), s')" by (metis prod.exhaust)
  then have "tracks s s'"
    by (auto simp: allow_def split: if_splits prod.splits
        dest!: tracks_time_now [OF assms] intro: tracks_trans [OF _ tracks_outside])
  moreover have "tracks s' (log_every E l k m s)"
    using a by (auto simp: log_every_def logf_def intro: tracks_outside)
  ultimately show ?thesis by (rule tracks_trans)
qed

lemma tracks_client_do: "recording E \<Longrightarrow> client_do E c rq s = (r, s') \<Longrightarrow> tracks s s'"
  by (auto simp: client_do_def split: prod.splits http_result.splits dest: tracks_http_do)

lemma client_do_recorded:
  "recording E \<Longrightarrow> client_do E c rq s = (Inr (status, body), s') \<Longrightarrow> (sent c rq, Response status body) \<in> set (calls s')"
  by (auto simp: client_do_def sent_def split: prod.splits http_result.splits if_splits dest!: http_do_recorded)

lemma client_do_plain:
  "plain_replies E \<Longrightarrow> client_do E c rq s = (Inr (200, body), s') \<Longrightarrow> unmarshal (dec_struct me_field) body [] = Some sd \<Longrightarrow> nul_free sd"
  by (auto simp: client_do_def http_do_def plain_replies_def split: prod.splits http_result.splits) (metis fst_conv)+

lemma tracks_unexpectedStatus: "recording E \<Longrightarrow> unexpectedStatus E op st b s = (e, s') \<Longrightarrow> tracks s s'"
  by (auto simp: unexpectedStatus_def intro: tracks_log_every)

lemmas tracks_calls = tracks_time_now tracks_http_do tracks_client_do tracks_unexpectedStatus

lemma sourced_entry: "sourced s \<Longrightarrow> nul_free (ce_providerSD (cred_entry k s))"
  by (auto simp: sourced_def cred_entry_def zero_entry_def nul_free_def split: option.split)

lemma tracks_set_entry: "(sourced s \<Longrightarrow> nul_free (ce_providerSD e)) \<Longrightarrow> tracks s (set_entry k e s)"
  by (auto simp: tracks_def sourced_def set_entry_def calls_def)

lemma tracks_token: "tracks s (set_entry k ((cred_entry k s)\<lparr>ce_token := tok, ce_tokenExpiry := t\<rparr>) s)"
    "tracks s (set_entry k ((cred_entry k s)\<lparr>ce_token := tok\<rparr>) s)"
  by (rule tracks_set_entry, simp add: sourced_entry)+

lemma tracks_get_or_create: "tracks s (get_or_create k s)"
  by (simp add: get_or_create_def tracks_set_entry zero_entry_def nul_free_def)

lemma tracks_fetchToken:
  assumes "recording E" shows "fetchToken E c s = (r, s') \<Longrightarrow> tracks s s'"
  by (auto simp: fetchToken_def split: sum.splits prod.splits http_result.splits if_splits
      dest!: tracks_calls [OF assms] intro: tracks_trans)

lemma tracks_refresh_token:
  assumes "recording E" shows "refresh_token E c s = (r, s') \<Longrightarrow> tracks s s'"
  by (auto simp: refresh_token_def split: sum.splits prod.splits
      dest!: tracks_fetchToken [OF assms] tracks_calls [OF assms] intro: tracks_trans [OF _ tracks_trans [OF _ tracks_token(1)]])

lemma tracks_participant_token:
  assumes "recording E" shows "participant_token E c f s = (r, s') \<Longrightarrow> tracks s s'"
  by (auto simp: participant_token_def Let_def split: if_splits prod.splits
      dest!: tracks_refresh_token [OF assms] tracks_calls [OF assms] intro: tracks_trans tracks_trans [OF tracks_token(2)])

lemma tracks_fetchProviderSD:
  assumes "recording E" shows "fetchProviderSD E c tok s = (r, s') \<Longrightarrow> tracks s s'"
  by (auto simp: fetchProviderSD_def split: sum.splits prod.splits if_splits dest!: tracks_calls [OF assms] intro: tracks_trans)

lemma fetched_plain: "plain_replies E \<Longrightarrow> fetchProviderSD E c tok s = (Inr sd, s') \<Longrightarrow> nul_free sd"
  by (auto simp: fetchProviderSD_def json_unmarshal_def split: sum.splits prod.splits if_splits option.splits dest: client_do_plain)

lemma tracks_provider_sd:
  assumes "recording E" and "plain_replies E" and "provider_sd E c tok s = (r, s')"
  shows "tracks s s'"
proof -
  have "tracks s (set_entry (cacheKey c) ((cred_entry (cacheKey c) t)\<lparr>ce_providerSD := sd\<rparr>) t)"
    if "fetchProviderSD E c tok s = (Inr sd, t)" for sd t
    using tracks_trans [OF tracks_fetchProviderSD [OF assms(1) that] tracks_set_entry] fetched_plain [OF assms(2) that] by simp
  then show ?thesis
    using assms(3)
    by (auto simp: provider_sd_def Let_def split: if_splits sum.splits prod.splits dest: tracks_fetchProviderSD [OF assms(1)])
qed

lemma provider_sd_nul_free:
  "plain_replies E \<Longrightarrow> nul_free_client c \<Longrightarrow> provider_sd E c tok s = (Inr sd, s') \<Longrightarrow> sourced s' \<Longrightarrow>
   nul_free sd \<and> (providerSD c \<noteq> [] \<longrightarrow> sd = providerSD c)"
  by (auto simp: provider_sd_def Let_def nul_free_client_def sourced_entry split: if_splits sum.splits prod.splits dest: fetched_plain)

lemma tracks_credentials:
  assumes "recording E" and "plain_replies E" shows "credentials E c f s = (r, s') \<Longrightarrow> tracks s s'"
  by (auto simp: credentials_def split: if_splits sum.splits prod.splits
      dest!: tracks_participant_token [OF assms(1)] tracks_provider_sd [OF assms]
      intro: tracks_trans [OF tracks_get_or_create] tracks_trans)

lemma credentials_nul_free:
  "plain_replies E \<Longrightarrow> nul_free_client c \<Longrightarrow> credentials E c f s = (Inr (tok, sd), s') \<Longrightarrow> sourced s' \<Longrightarrow>
   nul_free sd \<and> (providerSD c \<noteq> [] \<longrightarrow> sd = providerSD c)"
  by (auto simp: credentials_def nul_free_client_def split: if_splits sum.splits prod.splits dest!: provider_sd_nul_free)

text \<open>An identifier enters the cache together with the search that answered it.\<close>

lemma tracks_put:
  assumes "sourced s \<Longrightarrow> nul_free sd" and "nul_free_client c" and "(manager_search c subject sd token, Response 200 body) \<in> set (calls s)"
    and "unmarshal (dec_struct identifier_field) body [] = Some u" and "u \<noteq> []"
  shows "tracks s (s\<lparr>identifierCache := id_put (identifierCacheKey c sd subject) u now (identifierCache s)\<rparr>)"
proof -
  let ?e = "\<lparr>ie_userIdentifier = u, ie_expiry = now + identifier_cache_ttl\<rparr>"
  have "search_answered c sd subject u (manager_search c subject sd token, Response 200 body)"
    using assms(4,5) by (auto simp: search_answered_def)
  then have "entry_sourced (calls s) (identifierCacheKey c sd subject) ?e" if "sourced s"
    using assms(1-3) that by (auto simp: entry_sourced_def)
  then show ?thesis by (auto simp: tracks_def sourced_def id_put_def)
qed

lemma tracks_step:
  "tracks s t \<Longrightarrow> set (calls t) \<subseteq> set (calls u) \<Longrightarrow> (sourced s \<Longrightarrow> tracks t u) \<Longrightarrow> tracks s u"
  by (auto simp: tracks_def)

lemma tracks_search:
  assumes "recording E" and "nul_free_client c" and sd: "sourced s0 \<Longrightarrow> nul_free sd" and t0: "tracks s0 s"
    and run: "search_identifier E c subject sd token s = (r, s')"
  shows "tracks s0 s'"
proof (cases "new_request E ''POST'' (endpoint c ''/users/identifier/search'')
     (Some (JObj [(''email'', json_string subject), (''selfDescription'', json_string sd)]))")
  case (Inl e)
  then show ?thesis using run t0 by (auto simp: search_identifier_def)
next
  case (Inr rq)
  obtain x s1 where d: "client_do E c (identifier_request c token rq) s = (x, s1)" by fastforce
  note t1 = tracks_trans [OF t0 tracks_client_do [OF assms(1) d]]
  consider (other) "tracks s1 s'"
    | (found) body u now s2 where "x = Inr (200, body)" "unmarshal (dec_struct identifier_field) body [] = Some u" "u \<noteq> []"
      "time_now E s1 = (now, s2)" "s' = s2\<lparr>identifierCache := id_put (identifierCacheKey c sd subject) u now (identifierCache s2)\<rparr>"
    using run Inr d
    by (auto simp: search_identifier_def json_unmarshal_def split: sum.splits prod.splits if_splits option.splits
        dest: tracks_unexpectedStatus [OF assms(1)])
  then show ?thesis
  proof cases
    case found
    note t2 = tracks_time_now [OF assms(1) found(4)]
    have "(manager_search c subject sd token, Response 200 body) \<in> set (calls s2)"
      using client_do_recorded [OF assms(1) d [unfolded found(1)]] sent_search [OF Inr, of token] t2 by (auto simp: tracks_def)
    from tracks_put [OF _ assms(2) this found(2,3)] sd show ?thesis
      unfolding found(5) by (intro tracks_step [OF tracks_trans [OF t1 t2]]) (auto simp: calls_def)
  qed (use t1 in \<open>rule tracks_trans\<close>)
qed

lemma tracks_resolve:
  assumes "recording E" and "nul_free_client c" and "sourced s \<Longrightarrow> nul_free sd"
    and "resolveUserIdentifier E c subject sd token s = (r, s')"
  shows "tracks s s'"
  using assms(4)
  by (auto simp: resolveUserIdentifier_def split: option.splits prod.splits
      dest: tracks_time_now [OF assms(1)] intro: tracks_search [OF assms(1-3)])

lemma tracks_hasGrantedConsent:
  assumes "recording E" shows "hasGrantedConsent E c tok u req s = (r, s') \<Longrightarrow> tracks s s'"
  by (auto simp: hasGrantedConsent_def split: sum.splits prod.splits if_splits dest!: tracks_calls [OF assms] intro: tracks_trans)

lemma tracks_check:
  assumes "recording E" and "plain_replies E" and "nul_free_client c" and "check E c req f s = (r, s')"
  shows "tracks s s'"
proof -
  obtain x s1 where cr: "credentials E c f s = (x, s1)" by fastforce
  note t1 = tracks_credentials [OF assms(1,2) cr]
  show ?thesis
  proof (cases x)
    case (Inl e)
    with assms(4) cr t1 show ?thesis by (simp add: check_def)
  next
    case (Inr ts)
    obtain tok sd where ts: "ts = (tok, sd)" by fastforce
    obtain y s2 where re: "resolveUserIdentifier E c (Subject req) sd tok s1 = (y, s2)" by fastforce
    have "sourced s1 \<Longrightarrow> nul_free sd" using credentials_nul_free [OF assms(2,3)] cr Inr ts by blast
    note t2 = tracks_trans [OF t1 tracks_resolve [OF assms(1,3) this re]]
    have "s' = s2 \<or> (\<exists>u z. hasGrantedConsent E c tok u req s2 = (z, s'))"
      using assms(4) cr Inr ts re by (auto simp: check_def split: sum.splits prod.splits option.splits bool.splits)
    with t2 show ?thesis by (auto dest: tracks_hasGrantedConsent [OF assms(1)] intro: tracks_trans)
  qed
qed

lemma tracks_CheckConsent:
  assumes "recording E" and "plain_replies E" and "nul_free_client c" and "CheckConsent E c req s = (r, s')"
  shows "tracks s s'"
  using assms(4)
proof (cases rule: CheckConsent_state)
  case (2 r')
  then show ?thesis
    by (cases rule: check_with_retry_cases) (auto dest: tracks_check [OF assms(1-3)] intro: tracks_trans)
qed simp

lemma tracks_lookup:
  assumes "recording E" and "plain_replies E" shows "lookupParticipantSD E c did f s = (r, s') \<Longrightarrow> tracks s s'"
  by (auto simp: lookupParticipantSD_def split: sum.splits prod.splits if_splits
      dest!: tracks_credentials [OF assms] tracks_calls [OF assms(1)] intro: tracks_trans)

lemma tracks_lookup_with_retry:
  assumes "recording E" and "plain_replies E" shows "lookup_with_retry E c did s = (r, s') \<Longrightarrow> tracks s s'"
  by (auto simp: lookup_with_retry_def split: sum.splits prod.splits if_splits dest!: tracks_lookup [OF assms] intro: tracks_trans)

lemma tracks_sds: "tracks s t \<Longrightarrow> tracks s (t\<lparr>participantSDCache := m\<rparr>)"
  by (rule tracks_trans) (auto intro: tracks_outside)

lemma tracks_fill:
  assumes "recording E" and "plain_replies E" shows "fill_participant_sd E c did s = (r, s') \<Longrightarrow> tracks s s'"
  by (auto simp: fill_participant_sd_def Let_def split: sum.splits prod.splits if_splits option.splits
      dest!: tracks_lookup_with_retry [OF assms] tracks_calls [OF assms(1)]
      intro: tracks_trans tracks_sds)

lemma tracks_ParticipantSD:
  assumes "recording E" and "plain_replies E" shows "ParticipantSelfDescriptionByDID E c did s = (r, s') \<Longrightarrow> tracks s s'"
  by (auto simp: ParticipantSelfDescriptionByDID_def split: option.splits prod.splits if_splits
      dest!: tracks_fill [OF assms] tracks_calls [OF assms(1)] intro: tracks_trans)

lemma tracks_ProviderSD:
  assumes "recording E" and "plain_replies E" shows "ProviderSelfDescription E c s = (r, s') \<Longrightarrow> tracks s s'"
  by (auto simp: ProviderSelfDescription_def split: sum.splits prod.splits dest!: tracks_credentials [OF assms])

section \<open>Evidence of consent\<close>

text \<open>
  The consent-manager answered a search for the subject of the question with an identifier (\<open>hist\<close>: in this phase,
  or earlier, when the identifier came from the cache), and a consents lookup for that identifier (\<open>xs\<close>: in this
  phase) with a receipt that authorises the question.
\<close>

definition consent_evidence :: "client \<Rightarrow> consent_request \<Rightarrow> exchange list \<Rightarrow> exchange list \<Rightarrow> bool" where
  "consent_evidence c req hist xs \<longleftrightarrow>
     (\<exists>sd u x token body recs r. (providerSD c \<noteq> [] \<longrightarrow> sd = providerSD c)
        \<and> x \<in> set hist \<and> search_answered c sd (Subject req) u x
        \<and> (manager_get c (consents_url c u) token, Response 200 body) \<in> set xs
        \<and> unmarshal dec_consents body [] = Some recs \<and> r \<in> set recs \<and> authorizes req r)"

lemma consent_evidence_mono:
  "consent_evidence c req hist xs \<Longrightarrow> set hist \<subseteq> set hist' \<Longrightarrow> set xs \<subseteq> set xs' \<Longrightarrow> consent_evidence c req hist' xs'"
  unfolding consent_evidence_def by blast

lemma resolved_by_search:
  assumes "resolveUserIdentifier (traced env) c subject sd token s = (Inr (Some u), s')"
    and "sourced s" and "nul_free_client c" and "nul_free sd"
  shows "\<exists>x\<in>set (calls s'). search_answered c sd subject u x"
  using assms(1)
proof (cases rule: resolve_cases)
  case (1 now)
  then obtain e where e: "map_of (identifierCache s) (identifierCacheKey c sd subject) = Some e" "u = ie_userIdentifier e"
    by (auto simp: id_lookup_def id_entry_get_def bind_eq_Some_conv split: if_splits)
  then obtain c0 sd0 sub0 x where k: "identifierCacheKey c sd subject = identifierCacheKey c0 sd0 sub0"
    and "nul_free_client c0" "nul_free sd0" and x: "x \<in> set (calls s)" "search_answered c0 sd0 sub0 u x"
    using assms(2) unfolding sourced_def entry_sourced_def by metis
  with identifierCacheKey_inj [OF assms(3) _ assms(4) _ k] have "search_answered c sd subject u x"
    using search_answered_identity by metis
  with x(1) calls_time_now [OF 1(1)] show ?thesis by auto
next
  case (2 t)
  from search_Inr [OF 2(1)] show ?thesis by (fastforce simp: search_answered_def)
qed

lemma check_evidence:
  assumes run: "check (traced env) c req f s = (Inr resp, s')" and allow: "Decision resp = DecisionAllow"
    and so: "sourced s" and nf: "nul_free_client c" and pl: "plain_replies env"
  shows "\<exists>es. calls s' = calls s @ es \<and> consent_evidence c req (calls s') es"
proof -
  obtain token sd s1 where cr: "credentials (traced env) c f s = (Inr (token, sd), s1)"
    using run by (auto simp: check_def split: prod.splits sum.splits)
  obtain u s2 where re: "resolveUserIdentifier (traced env) c (Subject req) sd token s1 = (Inr (Some u), s2)"
    using run allow cr by (auto simp: check_def split: prod.splits sum.splits option.splits)
  have h: "hasGrantedConsent (traced env) c token u req s2 = (Inr True, s')"
    using run allow cr re by (auto simp: check_def split: prod.splits sum.splits bool.splits)
  have s1: "sourced s1" using tracks_credentials [OF recording_traced plain_traced [OF pl] cr] so by (simp add: tracks_def)
  from credentials_nul_free [OF plain_traced [OF pl] nf cr s1]
  have sd: "nul_free sd" "providerSD c \<noteq> [] \<longrightarrow> sd = providerSD c" by auto
  obtain x where x: "x \<in> set (calls s2)" "search_answered c sd (Subject req) u x"
    using resolved_by_search [OF re s1 nf sd(1)] by blast
  obtain es where es: "calls s2 = calls s @ es"
    using issued_later [OF issued_trans [OF issued_credentials [OF cr] issued_resolve [OF re]]] by blast
  from h obtain body recs where g: "calls s' = calls s2 @ [(manager_get c (consents_url c u) token, Response 200 body)]"
    "unmarshal dec_consents body [] = Some recs" and "True \<longleftrightarrow> (\<exists>r\<in>set recs. authorizes req r)"
    by (rule hasGrantedConsent_Inr)
  then obtain r where "r \<in> set recs" "authorizes req r" by blast
  moreover have "x \<in> set (calls s')" using g(1) x(1) by simp
  ultimately have "consent_evidence c req (calls s') (es @ [(manager_get c (consents_url c u) token, Response 200 body)])"
    unfolding consent_evidence_def using g(2) sd(2) x(2)
    by (intro exI [of _ sd] exI [of _ u] exI [of _ x] exI [of _ token] exI [of _ body] exI [of _ recs] exI [of _ r]) simp
  with g(1) es show ?thesis by (intro exI [of _ "es @ [(manager_get c (consents_url c u) token, Response 200 body)]"]) simp
qed

lemma CheckConsent_evidence:
  assumes run: "CheckConsent (traced env) c req s = (Inr resp, s')" and allow: "Decision resp = DecisionAllow"
    and so: "sourced s" and nf: "nul_free_client c" and pl: "plain_replies env"
  shows "\<exists>es. calls s' = calls s @ es \<and> consent_evidence c req (calls s') es"
proof -
  have "check_with_retry (traced env) c req s = (Inr resp, s')"
    using run allow by (auto simp: CheckConsent_def split: if_splits prod.splits sum.splits)
  then show ?thesis
  proof (cases rule: check_with_retry_cases)
    case 1
    from check_evidence [OF 1 allow so nf pl] show ?thesis .
  next
    case (2 s1 e)
    have "sourced s1"
      using tracks_check [OF recording_traced plain_traced [OF pl] nf 2(1)] so by (simp add: tracks_def)
    from check_evidence [OF 2(4) allow this nf pl] obtain es where
      es: "calls s' = calls s1 @ es" "consent_evidence c req (calls s') es" by blast
    obtain es0 where "calls s1 = calls s @ es0" using issued_later [OF issued_check [OF 2(1)]] by blast
    with es show ?thesis by (intro exI [of _ "es0 @ es"]) (auto intro: consent_evidence_mono)
  qed
qed

end
