(* ===== verification/Owners_Props.thy ===== *)
theory Owners_Props
  imports Owners Provenance
begin

text \<open>
  What the concurrent owner checks guarantee, for every schedule: an allow without a fail-open policy
  and within the phase's budget has consent evidence for every claim, a recorded refusal is enforced
  whatever the policy, the concurrency is bounded and every run ends.
\<close>

section \<open>Reachable states\<close>

type_synonym ('w, 'z) check_state = "check_run \<times> ('w, 'z) metrics_proc_scheme"

inductive check_reach :: "'w env \<Rightarrow> string \<Rightarrow> request_context \<Rightarrow> client \<Rightarrow> string \<Rightarrow> owner_claim list
    \<Rightarrow> ('w, 'z) metrics_proc_scheme \<Rightarrow> 'w owner_op list \<Rightarrow> ('w, 'z) check_state \<Rightarrow> bool"
  for env key ctx client sd claims s0 where
  start: "check_reach env key ctx client sd claims s0 [] (start_run claims, s0)"
| step: "check_reach env key ctx client sd claims s0 ops st \<Longrightarrow>
    check_reach env key ctx client sd claims s0 (ops @ [p]) (owner_step env key ctx client sd claims p st)"

inductive_cases check_reachE: "check_reach env key ctx client sd claims s0 ops st"

lemma run_steps_Nil [simp]: "run_steps env key ctx client sd claims [] st = st"
  by (simp add: run_steps_def)

lemma run_steps_append:
  "run_steps env key ctx client sd claims (ops @ ops') st
     = run_steps env key ctx client sd claims ops' (run_steps env key ctx client sd claims ops st)"
  by (simp add: run_steps_def)

lemma run_steps_Cons [simp]:
  "run_steps env key ctx client sd claims (p # ops) st
     = run_steps env key ctx client sd claims ops (owner_step env key ctx client sd claims p st)"
  by (simp add: run_steps_def)

lemma run_steps_reach:
  "check_reach env key ctx client sd claims s0 ops (run_steps env key ctx client sd claims ops (start_run claims, s0))"
proof (induction ops rule: rev_induct)
  case Nil
  show ?case by (simp add: check_reach.start)
next
  case (snoc p ops)
  from check_reach.step [OF this, of p] show ?case by (simp add: run_steps_append)
qed

section \<open>What a step does\<close>

text \<open>The five effects of a step; all facts below are read off them.\<close>

lemma owner_step_cases [consumes 1, case_names idle start give_up finish expire]:
  assumes "owner_step env key ctx client sd claims p (r, s) = (r', s')"
  obtains "r' = r" and "s' = s" and "p \<noteq> Expire"
  | i started where "p = Start i" and "i < length (goroutines r)" and "goroutines r ! i = Waiting"
      and "in_flight r < maxConcurrentConsentChecks" and "time_now env s = (started, s')"
      and "r' = r\<lparr>goroutines := (goroutines r)[i := Running started],
                  results := (results r)[i := (results r ! i)\<lparr>or_attempted := True,
                                or_request := Some (owner_request ctx sd (claims ! i))\<rparr>]\<rparr>"
  | i where "p = Give_Up i" and "i < length (goroutines r)" and "goroutines r ! i = Waiting" and "checks_done r \<noteq> None"
      and "r' = r\<lparr>goroutines := (goroutines r)[i := Finished]\<rparr>" and "s' = s"
  | i bites started answer s1 now s2 where "p = Finish i bites" and "i < length (goroutines r)"
      and "goroutines r ! i = Running started"
      and "CheckConsent (cut_env (checks_done r) bites env) client (owner_request ctx sd (claims ! i)) s = (answer, s1)"
      and "time_now env s1 = (now, s2)"
      and "r' = r\<lparr>goroutines := (goroutines r)[i := Finished],
                  results := (results r)[i := check_result key ctx (claims ! i) answer (results r ! i)],
                  checks_done := (if or_problem (check_result key ctx (claims ! i) answer (results r ! i)) \<and> checks_done r = None
                                  then Some Canceled else checks_done r)\<rparr>"
      and "s' = RecordDependencyCall DependencyConsentManager
                  (outcomeOf (case answer of Inl e \<Rightarrow> Some e | Inr _ \<Rightarrow> None)) (time_sub now started) s2"
  | "p = Expire" and "s' = s" and "r' = r\<lparr>phase_done := Some DeadlineExceeded,
        checks_done := (if checks_done r = None then Some DeadlineExceeded else checks_done r)\<rparr>"
proof (cases p)
  case (Start i)
  obtain started s1 where t: "time_now env s = (started, s1)" by fastforce
  show ?thesis
  proof (cases "i < length (goroutines r) \<and> goroutines r ! i = Waiting \<and> in_flight r < maxConcurrentConsentChecks")
    case True
    with assms t have "r' = r\<lparr>goroutines := (goroutines r)[i := Running started],
        results := (results r)[i := (results r ! i)\<lparr>or_attempted := True,
                      or_request := Some (owner_request ctx sd (claims ! i))\<rparr>]\<rparr>" and "s' = s1"
      by (simp_all add: Start owner_step_def start_check_def)
    with that(2) [OF Start, of started] True t show ?thesis by blast
  next
    case False
    with assms have "r' = r" "s' = s" by (auto simp: Start owner_step_def)
    with that(1) Start show ?thesis by simp
  qed
next
  case (Give_Up i)
  show ?thesis
  proof (cases "i < length (goroutines r) \<and> goroutines r ! i = Waiting \<and> checks_done r \<noteq> None")
    case True
    with assms have "r' = r\<lparr>goroutines := (goroutines r)[i := Finished]\<rparr>" "s' = s"
      by (simp_all add: Give_Up owner_step_def)
    with that(3) [OF Give_Up] True show ?thesis by blast
  next
    case False
    with assms have "r' = r" "s' = s" by (auto simp: Give_Up owner_step_def)
    with that(1) Give_Up show ?thesis by simp
  qed
next
  case (Finish i bites)
  show ?thesis
  proof (cases "i < length (goroutines r)")
    case True
    show ?thesis
    proof (cases "goroutines r ! i")
      case (Running started)
      obtain answer s1 where c: "CheckConsent (cut_env (checks_done r) bites env) client (owner_request ctx sd (claims ! i)) s = (answer, s1)"
        by fastforce
      obtain now s2 where t: "time_now env s1 = (now, s2)" by fastforce
      show ?thesis
      proof -
        have "finish_check env key ctx client sd claims i bites started (r, s) = (r', s')"
          using assms by (simp add: Finish owner_step_def True Running)
        then have "r' = r\<lparr>goroutines := (goroutines r)[i := Finished],
              results := (results r)[i := check_result key ctx (claims ! i) answer (results r ! i)],
              checks_done := (if or_problem (check_result key ctx (claims ! i) answer (results r ! i)) \<and> checks_done r = None
                              then Some Canceled else checks_done r)\<rparr>"
          and "s' = RecordDependencyCall DependencyConsentManager
              (outcomeOf (case answer of Inl e \<Rightarrow> Some e | Inr _ \<Rightarrow> None)) (time_sub now started) s2"
          unfolding finish_check_def Let_def prod.case c t prod.inject by (rule conjunct1 [THEN sym], rule conjunct2 [THEN sym])
        then show ?thesis by (rule that(4) [OF Finish True Running c t])
      qed
    qed (use assms Finish True that(1) in \<open>auto simp: owner_step_def\<close>)
  qed (use assms Finish that(1) in \<open>auto simp: owner_step_def\<close>)
next
  case Expire
  then show ?thesis using assms that(5) by (auto simp: owner_step_def)
qed

lemma in_flight_update:
  "i < length (goroutines r) \<Longrightarrow>
   length (filter is_running ((goroutines r)[i := g])) + (if is_running (goroutines r ! i) then 1 else 0)
     = in_flight r + (if is_running g then 1 else 0)"
proof -
  assume i: "i < length (goroutines r)"
  obtain xs y zs where g: "goroutines r = xs @ y # zs" "length xs = i" using id_take_nth_drop [OF i] i by fastforce
  then show ?thesis by (simp add: in_flight_def list_update_append nth_append)
qed

section \<open>Every run ends\<close>

definition work_left :: "goroutine \<Rightarrow> nat" where
  "work_left g = (case g of Waiting \<Rightarrow> 2 | Running _ \<Rightarrow> 1 | Finished \<Rightarrow> 0)"

definition run_work :: "check_run \<Rightarrow> nat" where
  "run_work r = sum_list (map work_left (goroutines r))"

lemma sum_list_lower:
  "i < length gs \<Longrightarrow> work_left g < work_left (gs ! i) \<Longrightarrow> sum_list (map work_left (gs[i := g])) < sum_list (map work_left gs)"
proof (induction gs arbitrary: i)
  case (Cons a gs)
  then show ?case by (cases i) auto
qed simp

definition same_shape :: "check_run \<Rightarrow> check_run \<Rightarrow> bool" where
  "same_shape r r' \<longleftrightarrow> length (goroutines r') = length (goroutines r) \<and> length (results r') = length (results r)"

lemma owner_step_shape:
  "owner_step env key ctx client sd claims p (r, s) = (r', s') \<Longrightarrow> same_shape r r'"
  by (erule owner_step_cases) (auto simp: same_shape_def)

lemma reach_shape:
  "check_reach env key ctx client sd claims s0 ops st \<Longrightarrow>
   length (goroutines (fst st)) = length claims \<and> length (results (fst st)) = length claims"
proof (induction rule: check_reach.induct)
  case (step ops st p)
  obtain r s r' s' where "st = (r, s)" "owner_step env key ctx client sd claims p (r, s) = (r', s')" by fastforce
  with owner_step_shape [OF this(2)] step.IH show ?case by (simp add: same_shape_def)
qed (simp add: start_run_def)

lemma owner_step_work:
  assumes "owner_step env key ctx client sd claims p (r, s) = (r', s')" and "p \<noteq> Expire"
  shows "run_work r' < run_work r \<or> (r' = r \<and> s' = s)"
  using assms
proof (cases rule: owner_step_cases)
  case (start i started)
  then show ?thesis by (auto simp: run_work_def work_left_def intro!: disjI1 sum_list_lower)
next
  case (give_up i)
  then show ?thesis by (auto simp: run_work_def work_left_def intro!: disjI1 sum_list_lower)
next
  case (finish i bites started answer s1 now s2)
  then show ?thesis by (auto simp: run_work_def work_left_def intro!: disjI1 sum_list_lower)
qed auto

lemma is_running_iff: "is_running g \<longleftrightarrow> (\<exists>t. g = Running t)"
  by (auto simp: is_running_def split: goroutine.splits)

text \<open>A running check can always end, and with nothing running a waiting one can always start.\<close>

lemma progress_Finish:
  assumes "i < length (goroutines r)" and "goroutines r ! i = Running started"
  shows "goroutines (fst (owner_step env key ctx client sd claims (Finish i bites) (r, s))) = (goroutines r)[i := Finished]"
proof -
  obtain r' s' where st: "owner_step env key ctx client sd claims (Finish i bites) (r, s) = (r', s')" by fastforce
  then have "finish_check env key ctx client sd claims i bites started (r, s) = (r', s')"
    using assms by (simp add: owner_step_def)
  with st show ?thesis by (auto simp: finish_check_def Let_def split: prod.splits)
qed

lemma progress_Start:
  assumes "i < length (goroutines r)" and "goroutines r ! i = Waiting" and "in_flight r < maxConcurrentConsentChecks"
  shows "\<exists>t. goroutines (fst (owner_step env key ctx client sd claims (Start i) (r, s))) = (goroutines r)[i := Running t]"
  using assms by (cases "time_now env s") (auto simp: owner_step_def start_check_def)

lemma idle_in_flight: "(\<And>g. g \<in> set (goroutines r) \<Longrightarrow> \<not> is_running g) \<Longrightarrow> in_flight r < maxConcurrentConsentChecks"
  by (simp add: in_flight_def maxConcurrentConsentChecks_def)

abbreviation no_bites :: "'w bites" where
  "no_bites \<equiv> \<lambda>_ _. None"

definition quiet :: "goroutine list \<Rightarrow> bool" where
  "quiet gs \<longleftrightarrow> list_all (\<lambda>g. \<not> is_running g) gs"

lemma Finish_goroutines:
  "goroutines (fst (owner_step env key ctx client sd claims (Finish i bites) st))
     = (if i < length (goroutines (fst st)) \<and> is_running (goroutines (fst st) ! i)
        then (goroutines (fst st))[i := Finished] else goroutines (fst st))"
proof (cases "i < length (goroutines (fst st)) \<and> is_running (goroutines (fst st) ! i)")
  case True
  then obtain started where "goroutines (fst st) ! i = Running started" by (auto simp: is_running_iff)
  with True progress_Finish [of i "fst st" started env key ctx client sd claims bites "snd st"] show ?thesis by simp
next
  case False
  then show ?thesis by (cases st) (auto simp: owner_step_def is_running_iff split: goroutine.splits)
qed

text \<open>A goroutine that has its slot ends; in a quiet state a goroutine runs from start to end.\<close>

lemma run_pair:
  assumes "quiet (goroutines (fst st))" and "i < length (goroutines (fst st))"
  shows "goroutines (fst (run_steps env key ctx client sd claims [Start i, Finish i bites] st)) = (goroutines (fst st))[i := Finished]"
proof -
  obtain r s where st: "st = (r, s)" by fastforce
  have q: "\<not> is_running (goroutines r ! i)" "in_flight r < maxConcurrentConsentChecks"
    using assms by (auto simp: quiet_def list_all_iff st intro!: idle_in_flight)
  show ?thesis
  proof (cases "goroutines r ! i")
    case Waiting
    obtain t where "goroutines (fst (owner_step env key ctx client sd claims (Start i) (r, s))) = (goroutines r)[i := Running t]"
      using progress_Start [OF _ Waiting q(2), of env key ctx client sd claims s] assms(2) st by auto
    with assms(2) st show ?thesis by (simp add: Finish_goroutines is_running_iff)
  next
    case Finished
    then have "owner_step env key ctx client sd claims (Start i) (r, s) = (r, s)" by (simp add: owner_step_def)
    with Finished st show ?thesis
      using list_update_id [of "goroutines r" i] by (simp add: Finish_goroutines is_running_iff)
  qed (use q in \<open>simp add: is_running_iff\<close>)
qed

lemma finish_all:
  "list_all2 (\<lambda>g g'. g' = g \<or> g' = Finished) (goroutines (fst st))
       (goroutines (fst (run_steps env key ctx client sd claims (map (\<lambda>i. Finish i no_bites) is) st)))
   \<and> (\<forall>i\<in>set is. i < length (goroutines (fst st)) \<longrightarrow>
        \<not> is_running (goroutines (fst (run_steps env key ctx client sd claims (map (\<lambda>i. Finish i no_bites) is) st)) ! i))"
proof (induction "is" arbitrary: st)
  case Nil
  show ?case by (simp add: list_all2_refl)
next
  case (Cons i "is")
  let ?st = "owner_step env key ctx client sd claims (Finish i no_bites) st"
  have s: "list_all2 (\<lambda>g g'. g' = g \<or> g' = Finished) (goroutines (fst st)) (goroutines (fst ?st))"
    by (auto simp: Finish_goroutines list_all2_conv_all_nth nth_list_update)
  have i: "i < length (goroutines (fst st)) \<Longrightarrow> \<not> is_running (goroutines (fst ?st) ! i)"
    by (simp add: Finish_goroutines is_running_iff)
  from Cons.IH [of ?st] s i show ?case
    by (auto simp: list_all2_conv_all_nth is_running_iff) (metis goroutine.distinct(5))+
qed

lemma run_pairs:
  "quiet (goroutines (fst st)) \<Longrightarrow> \<forall>i\<in>set is. i < length (goroutines (fst st)) \<Longrightarrow>
   goroutines (fst (run_steps env key ctx client sd claims (concat (map (\<lambda>i. [Start i, Finish i no_bites]) is)) st))
     = foldl (\<lambda>gs i. gs[i := Finished]) (goroutines (fst st)) is"
proof (induction "is" arbitrary: st)
  case Nil
  then show ?case by simp
next
  case (Cons i "is")
  let ?st = "run_steps env key ctx client sd claims [Start i, Finish i no_bites] st"
  have g: "goroutines (fst ?st) = (goroutines (fst st))[i := Finished]" using Cons.prems by (intro run_pair) auto
  have "quiet (goroutines (fst ?st))"
    using Cons.prems(1) unfolding g
    by (auto simp: quiet_def list_all_iff is_running_iff dest!: set_update_subset_insert [THEN subsetD])
  from Cons.IH [OF this] Cons.prems(2) g show ?case by simp
qed

lemma foldl_update_all: "foldl (\<lambda>gs i. gs[i := x]) gs [0..<n] = replicate (min n (length gs)) x @ drop n gs"
proof (induction n)
  case (Suc n)
  show ?case
  proof (cases "n < length gs")
    case True
    with Suc show ?thesis
      by (simp add: list_update_append Cons_nth_drop_Suc [symmetric] replicate_append_same)
  qed (use Suc in \<open>simp add: list_update_beyond\<close>)
qed simp

text \<open>Whatever the scheduler did, all goroutines of \<open>checkOwners\<close> have ended when it returns.\<close>

lemma remaining_steps_end:
  assumes "length (goroutines (fst st)) = n"
  shows "goroutines (fst (run_steps env key ctx client sd claims (remaining_steps n) st)) = replicate n Finished"
proof -
  let ?st = "run_steps env key ctx client sd claims (map (\<lambda>i. Finish i no_bites) [0..<n]) st"
  note f = finish_all [of st env key ctx client sd claims "[0..<n]"]
  have len: "length (goroutines (fst ?st)) = n" using f assms by (auto dest: list_all2_lengthD)
  have "quiet (goroutines (fst ?st))" using f assms len by (auto simp: quiet_def list_all_length)
  from run_pairs [OF this, of "[0..<n]" env key ctx client sd claims] len show ?thesis
    by (simp add: remaining_steps_def run_steps_append foldl_update_all)
qed

section \<open>The bound on the checks in flight\<close>

lemma owner_step_in_flight:
  assumes "owner_step env key ctx client sd claims p (r, s) = (r', s')"
    and "in_flight r \<le> maxConcurrentConsentChecks"
  shows "in_flight r' \<le> maxConcurrentConsentChecks"
  using assms
proof (cases rule: owner_step_cases)
  case (start i started)
  with in_flight_update [of i r "Running started"] show ?thesis by (simp add: is_running_iff in_flight_def)
next
  case (give_up i)
  with in_flight_update [of i r Finished] assms(2) show ?thesis by (simp add: is_running_iff in_flight_def)
next
  case (finish i bites started answer s1 now s2)
  with in_flight_update [of i r Finished] assms(2) show ?thesis by (simp add: is_running_iff in_flight_def)
qed (auto simp: in_flight_def)

lemma reach_in_flight:
  "check_reach env key ctx client sd claims s0 ops st \<Longrightarrow> in_flight (fst st) \<le> maxConcurrentConsentChecks"
proof (induction rule: check_reach.induct)
  case (step ops st p)
  obtain r s r' s' where "st = (r, s)" "owner_step env key ctx client sd claims p (r, s) = (r', s')" by fastforce
  with owner_step_in_flight [OF this(2)] step.IH show ?case by simp
qed (simp add: in_flight_def start_run_def is_running_iff)

section \<open>Results\<close>

definition attempted_result :: "request_context \<Rightarrow> string \<Rightarrow> owner_claim \<Rightarrow> owner_check_result" where
  "attempted_result ctx sd c = zero_result_of_check\<lparr>or_attempted := True, or_request := Some (owner_request ctx sd c)\<rparr>"

definition result_ok :: "string \<Rightarrow> request_context \<Rightarrow> string \<Rightarrow> owner_claim \<Rightarrow> goroutine \<Rightarrow> owner_check_result \<Rightarrow> bool" where
  "result_ok key ctx sd c g x \<longleftrightarrow>
     (case g of
        Waiting \<Rightarrow> x = zero_result_of_check
      | Running _ \<Rightarrow> x = attempted_result ctx sd c
      | Finished \<Rightarrow> x = zero_result_of_check \<or> (\<exists>answer. x = check_result key ctx c answer (attempted_result ctx sd c)))"

lemma reach_results:
  "check_reach env key ctx client sd claims s0 ops st \<Longrightarrow>
   \<forall>i<length claims. result_ok key ctx sd (claims ! i) (goroutines (fst st) ! i) (results (fst st) ! i)"
proof (induction rule: check_reach.induct)
  case start
  show ?case by (simp add: start_run_def result_ok_def)
next
  case (step ops st p)
  obtain r s r' s' where st: "st = (r, s)" and p: "owner_step env key ctx client sd claims p (r, s) = (r', s')" by fastforce
  have len: "length (goroutines r) = length claims" "length (results r) = length claims"
    using reach_shape [OF step.hyps] st by auto
  from p have "\<forall>i<length claims. result_ok key ctx sd (claims ! i) (goroutines r' ! i) (results r' ! i)"
  proof (cases rule: owner_step_cases)
    case (start i started)
    with step.IH st len show ?thesis by (auto simp: nth_list_update result_ok_def attempted_result_def)
  next
    case (give_up i)
    with step.IH st len show ?thesis by (auto simp: nth_list_update result_ok_def)
  next
    case (finish i bites started answer s1 now s2)
    have "results r ! i = attempted_result ctx sd (claims ! i)"
      using step.IH st len finish(2,3) by (auto simp: result_ok_def)
    with finish step.IH st len show ?thesis by (auto simp: nth_list_update result_ok_def)
  qed (use step.IH st in auto)
  then show ?case by (simp add: st p)
qed

lemmas result_defs = attempted_result_def zero_result_of_check_def check_result_def zero_outcome_def zero_checked_def Let_def

lemma result_ok_consider:
  assumes "result_ok key ctx sd c g x"
  obtains "x = zero_result_of_check" | "x = attempted_result ctx sd c"
  | e where "g = Finished" and "x = check_result key ctx c (Inl e) (attempted_result ctx sd c)"
  | resp where "g = Finished" and "x = check_result key ctx c (Inr resp) (attempted_result ctx sd c)"
  using assms unfolding result_ok_def
  by (cases g) (auto split: sum.splits, metis sum.exhaust)

lemma result_ok_facts:
  assumes "result_ok key ctx sd c g x"
  shows "or_problem x \<Longrightarrow> or_err x = None \<Longrightarrow> or_attempted x \<and> oc_decision (or_outcome x) = decisionDeny"
    and "ck_subject (or_record x) \<noteq> [] \<Longrightarrow> or_attempted x \<and> or_err x = None
           \<and> ck_decision (or_record x) = (if or_problem x then decisionDeny else decisionAllow)"
    and "or_err x \<noteq> None \<Longrightarrow> or_attempted x \<and> or_problem x"
    and "or_problem x \<Longrightarrow> g = Finished"
  using assms by (rule result_ok_consider; auto simp: result_defs split: if_splits)+

text \<open>An owner's own refusal is an ordinary verdict, not a failure.\<close>

lemma denial_mode:
  assumes "result_ok key ctx sd c g x" and "or_problem x" and "or_err x = None"
  shows "oc_failMode (or_outcome x) = []"
  using assms(1) by (rule result_ok_consider) (use assms(2,3) in \<open>auto simp: result_defs split: if_splits\<close>)

section \<open>Evidence of consent\<close>

definition uncancelled :: "'w env \<Rightarrow> bool" where
  "uncancelled env \<longleftrightarrow> clean_for (- {Canceled}) env"

lemma CheckConsent_not_canceled:
  assumes "uncancelled env" and "CheckConsent (traced env) c req s = (Inl e, s')"
  shows "\<not> errors_is e Canceled"
proof -
  have ct: "clean_for (- {Canceled}) (traced env)" using assms(1) clean_traced by (auto simp: uncancelled_def)
  have "call_error (- {Canceled}) e \<or> e = no_credentials_error"
  proof (cases "no_credentials c")
    case True
    with assms(2) show ?thesis by (auto simp: CheckConsent_def check_none call_error_def split: if_splits)
  next
    case False
    with assms(2) show ?thesis
      by (auto simp: CheckConsent_def call_error_def split: if_splits sum.splits prod.splits
          dest!: errors_check_with_retry [OF ct False])
  qed
  then show ?thesis
    by (auto simp: call_error_def errors_is_def chain_in_def unauthorized_error_def no_credentials_error_def sentinel_error_def)
qed

lemma calls_RecordDependencyCall [simp]: "calls (RecordDependencyCall d o' t s) = calls s"
  by (simp add: RecordDependencyCall_def calls_def)

lemma calls_RecordPurposeUnconstrained [simp]: "calls (RecordPurposeUnconstrained s) = calls s"
  by (simp add: RecordPurposeUnconstrained_def calls_def)

text \<open>An attempted result that settles the verdict by itself: a denial, or a failure that is not a cancellation.\<close>

definition decisive :: "owner_check_result \<Rightarrow> bool" where
  "decisive x \<longleftrightarrow> or_attempted x \<and> or_problem x \<and> (case or_err x of None \<Rightarrow> True | Some e \<Rightarrow> \<not> errors_is e Canceled)"

definition evidence_inv :: "client \<Rightarrow> request_context \<Rightarrow> string \<Rightarrow> owner_claim list \<Rightarrow> exchange list
    \<Rightarrow> check_run \<Rightarrow> ('w \<times> exchange list, 'z) metrics_proc_scheme \<Rightarrow> bool" where
  "evidence_inv client ctx sd claims xs0 r s \<longleftrightarrow>
     phase_done r = None
     \<and> (checks_done r = None \<longrightarrow> sourced s
          \<and> (\<exists>es. calls s = xs0 @ es \<and> (\<forall>i<length claims. goroutines r ! i = Finished \<longrightarrow>
              or_attempted (results r ! i) \<and> consent_evidence client (owner_request ctx sd (claims ! i)) (calls s) es)))
     \<and> (checks_done r \<noteq> None \<longrightarrow> (\<exists>i<length claims. goroutines r ! i = Finished \<and> decisive (results r ! i)))"

lemma sourced_time_now: "time_now (traced env) s = (t, s') \<Longrightarrow> sourced s \<Longrightarrow> sourced s'"
  using tracks_time_now [OF recording_traced] by (auto simp: tracks_def)

lemma sourced_RecordDependencyCall [simp]: "sourced (RecordDependencyCall d o' t s) = sourced s"
  by (simp add: sourced_def RecordDependencyCall_def calls_def)

lemma evidence_finish:
  assumes inv: "evidence_inv client ctx sd claims xs0 r s"
    and len: "length (goroutines r) = length claims" "length (results r) = length claims"
    and i: "i < length (goroutines r)" "goroutines r ! i = Running started"
    and ok: "results r ! i = attempted_result ctx sd (claims ! i)"
    and c: "CheckConsent (cut_env (checks_done r) bites (traced env)) client (owner_request ctx sd (claims ! i)) s = (answer, s1)"
    and t: "time_now (traced env) s1 = (now, s2)"
    and u: "uncancelled env" and nf: "nul_free_client client" and pl: "plain_replies env"
  shows "evidence_inv client ctx sd claims xs0
     (r\<lparr>goroutines := (goroutines r)[i := Finished],
        results := (results r)[i := check_result key ctx (claims ! i) answer (results r ! i)],
        checks_done := (if or_problem (check_result key ctx (claims ! i) answer (results r ! i)) \<and> checks_done r = None
                        then Some Canceled else checks_done r)\<rparr>) s2"
proof (cases "checks_done r")
  case (Some cause)
  with inv obtain j where "j < length claims" "goroutines r ! j = Finished" "decisive (results r ! j)"
    by (auto simp: evidence_inv_def)
  moreover from this i have "j \<noteq> i" by auto
  ultimately show ?thesis using inv Some by (auto simp: evidence_inv_def)
next
  case None
  have c': "CheckConsent (traced env) client (owner_request ctx sd (claims ! i)) s = (answer, s1)"
    using c None by (simp add: cut_env_def)
  have x: "calls s2 = calls s1" using calls_time_now [OF t] .
  let ?res = "check_result key ctx (claims ! i) answer (results r ! i)"
  show ?thesis
  proof (cases "or_problem ?res")
    case True
    have "decisive ?res"
      using True CheckConsent_not_canceled [OF u, of client _ s] c'
      by (cases answer) (auto simp: ok decisive_def result_defs split: if_splits)
    with True None len i inv show ?thesis by (auto simp: evidence_inv_def)
  next
    case False
    then obtain resp where a: "answer = Inr resp" "Decision resp = DecisionAllow"
      by (cases answer) (auto simp: ok result_defs split: if_splits)
    obtain es where so: "sourced s" and es: "calls s = xs0 @ es"
      "\<forall>j<length claims. goroutines r ! j = Finished \<longrightarrow>
         or_attempted (results r ! j) \<and> consent_evidence client (owner_request ctx sd (claims ! j)) (calls s) es"
      using inv None by (auto simp: evidence_inv_def)
    obtain es' where es': "calls s1 = calls s @ es'" "consent_evidence client (owner_request ctx sd (claims ! i)) (calls s1) es'"
      using CheckConsent_evidence [OF c' [unfolded a(1)] a(2) so nf pl] by blast
    have "sourced s1" using tracks_CheckConsent [OF recording_traced plain_traced [OF pl] nf c'] so by (simp add: tracks_def)
    then have so2: "sourced s2" by (rule sourced_time_now [OF t])
    have "or_attempted ?res" using a by (simp add: ok result_defs)
    then have "\<forall>j<length claims. (goroutines r)[i := Finished] ! j = Finished \<longrightarrow>
        or_attempted ((results r)[i := ?res] ! j) \<and> consent_evidence client (owner_request ctx sd (claims ! j)) (calls s1) (es @ es')"
      using es(2) es' len i by (auto simp: nth_list_update intro: consent_evidence_mono)
    with False None inv es(1) es'(1) x so2 show ?thesis by (auto simp: evidence_inv_def intro!: exI [of _ "es @ es'"])
  qed
qed

lemma reach_evidence:
  "check_reach (traced env) key ctx client sd claims s0 ops st \<Longrightarrow> uncancelled env \<Longrightarrow> Expire \<notin> set ops \<Longrightarrow>
   sourced s0 \<Longrightarrow> nul_free_client client \<Longrightarrow> plain_replies env \<Longrightarrow>
   evidence_inv client ctx sd claims (calls s0) (fst st) (snd st)"
proof (induction rule: check_reach.induct)
  case start
  then show ?case by (simp add: evidence_inv_def start_run_def)
next
  case (step ops st p)
  obtain r s r' s' where st: "st = (r, s)" and p: "owner_step (traced env) key ctx client sd claims p (r, s) = (r', s')" by fastforce
  have len: "length (goroutines r) = length claims" "length (results r) = length claims"
    using reach_shape [OF step.hyps] st by auto
  have inv: "evidence_inv client ctx sd claims (calls s0) r s" using step st by simp
  have "p \<noteq> Expire" using step.prems(2) by auto
  from p have "evidence_inv client ctx sd claims (calls s0) r' s'"
  proof (cases rule: owner_step_cases)
    case (start i started)
    then have same: "calls s' = calls s" "sourced s \<Longrightarrow> sourced s'" by (auto dest: calls_time_now sourced_time_now)
    show ?thesis
    proof (cases "checks_done r")
      case None
      with start inv len same show ?thesis by (auto simp: evidence_inv_def nth_list_update)
    next
      case (Some cause)
      with inv obtain j where j: "j < length claims" "goroutines r ! j = Finished" "decisive (results r ! j)"
        by (auto simp: evidence_inv_def)
      with start(3) have "j \<noteq> i" by auto
      with j start(6) inv len Some show ?thesis by (auto simp: evidence_inv_def intro!: exI [of _ j])
    qed
  next
    case (give_up i)
    from give_up inv have "\<exists>j<length claims. j \<noteq> i \<and> goroutines r ! j = Finished \<and> decisive (results r ! j)"
      by (auto simp: evidence_inv_def)
    with give_up inv show ?thesis by (auto simp: evidence_inv_def nth_list_update)
  next
    case (finish i bites started answer s1 now s2)
    have "results r ! i = attempted_result ctx sd (claims ! i)"
      using reach_results [OF step.hyps] st len finish(2,3) by (auto simp: result_ok_def)
    from evidence_finish [OF inv len finish(2,3) this finish(4,5) step.prems(1,4,5)] finish(6,7) show ?thesis
      by (simp add: evidence_inv_def)
  qed (use inv \<open>p \<noteq> Expire\<close> in auto)
  then show ?case by (simp add: st p)
qed

section \<open>The caches stay sourced\<close>

text \<open>A call that is cut off leaves the trace; then the checks keep the caches sourced under every schedule.\<close>

definition trace_keeping :: "('w \<times> exchange list) owner_op \<Rightarrow> bool" where
  "trace_keeping p \<longleftrightarrow>
     (case p of
        Finish _ bites \<Rightarrow> (\<forall>rq w l cut w'. bites rq (w, l) = Some (cut, w') \<longrightarrow> set l \<subseteq> set (snd w'))
      | _ \<Rightarrow> True)"

lemma recording_cut: "recording E \<Longrightarrow> trace_keeping (Finish i bites) \<Longrightarrow> recording (cut_env d bites E)"
  by (auto simp: recording_def cut_env_def trace_keeping_def split: option.split)

lemma plain_cut: "plain_replies E \<Longrightarrow> plain_replies (cut_env d bites E)"
  by (auto simp: plain_replies_def cut_env_def split: option.splits)

lemma tracks_owner_step:
  assumes "trace_keeping p" and "plain_replies env" and "nul_free_client client"
    and "owner_step (traced env) key ctx client sd claims p (r, s) = (r', s')"
  shows "tracks s s'"
  using assms(4)
proof (cases rule: owner_step_cases)
  case (start i started)
  then show ?thesis using tracks_time_now [OF recording_traced] by blast
next
  case (finish i bites started answer s1 now s2)
  have "tracks s s1"
    using tracks_CheckConsent [OF recording_cut [OF recording_traced assms(1) [unfolded finish(1)]] plain_cut [OF plain_traced [OF assms(2)]] assms(3) finish(4)] .
  moreover have "tracks s1 s2" using tracks_time_now [OF recording_traced finish(5)] .
  moreover have "tracks s2 s'" unfolding finish(7) by (rule tracks_outside) (simp_all add: RecordDependencyCall_def)
  ultimately show ?thesis by (blast intro: tracks_trans)
qed auto

lemma tracks_run_steps:
  assumes "plain_replies env" and "nul_free_client client"
  shows "list_all trace_keeping ops \<Longrightarrow> run_steps (traced env) key ctx client sd claims ops (r, s) = (r', s') \<Longrightarrow> tracks s s'"
proof (induction ops arbitrary: r s)
  case (Cons p ops)
  obtain r1 s1 where p: "owner_step (traced env) key ctx client sd claims p (r, s) = (r1, s1)" by fastforce
  with Cons tracks_owner_step [OF _ assms p] show ?case by (auto intro: tracks_trans)
qed simp

lemma tracks_checkOwners:
  assumes "plain_replies env" and "nul_free_client client" and "list_all trace_keeping ops"
    and "checkOwners (traced env) ops cfg key ctx client claims sd s = (oc, s')"
  shows "tracks s s'"
proof -
  let ?ops = "ops @ remaining_steps (length claims)"
  obtain r s1 where run: "run_steps (traced env) key ctx client sd claims ?ops (start_run claims, s) = (r, s1)" by fastforce
  have "list_all trace_keeping ?ops"
    using assms(3) by (auto simp: list_all_iff remaining_steps_def trace_keeping_def)
  note t = tracks_run_steps [OF assms(1,2) this run]
  have "tracks s1 s'"
    using assms(4) run
    by (auto simp: checkOwners_def reduceOwnerResults_def split: option.splits prod.splits intro: tracks_log_every [OF recording_traced])
  with t show ?thesis by (rule tracks_trans)
qed

section \<open>From the results to the verdict\<close>

lemma checkOwners_run:
  assumes "checkOwners env ops cfg key ctx client claims sd s = (oc, s')"
  shows "\<exists>r s1. check_reach env key ctx client sd claims s (ops @ remaining_steps (length claims)) (r, s1)
    \<and> goroutines r = replicate (length claims) Finished \<and> length (results r) = length claims
    \<and> (\<forall>i<length claims. result_ok key ctx sd (claims ! i) Finished (results r ! i))
    \<and> reduceOwnerResults env cfg key ctx (phase_done r) (results r) s1 = (oc, s')"
proof -
  obtain r s1 where run: "run_steps env key ctx client sd claims (ops @ remaining_steps (length claims)) (start_run claims, s) = (r, s1)"
    by fastforce
  note reach = run_steps_reach [of env key ctx client sd claims s "ops @ remaining_steps (length claims)", unfolded run]
  let ?st = "run_steps env key ctx client sd claims ops (start_run claims, s)"
  have "length (goroutines (fst ?st)) = length claims" using reach_shape [OF run_steps_reach] by blast
  from remaining_steps_end [OF this, of env key ctx client sd claims] run
  have fin: "goroutines r = replicate (length claims) Finished" by (simp add: run_steps_append)
  moreover have "length (results r) = length claims" using reach_shape [OF reach] by simp
  moreover have "result_ok key ctx sd (claims ! i) Finished (results r ! i)" if "i < length claims" for i
    using reach_results [OF reach] fin that by simp
  moreover have "reduceOwnerResults env cfg key ctx (phase_done r) (results r) s1 = (oc, s')"
    using assms run by (simp add: checkOwners_def)
  ultimately show ?thesis using reach by blast
qed

lemma first_denial_Some: "first_denial rs = Some oc \<Longrightarrow> \<exists>x\<in>set rs. or_problem x \<and> or_err x = None \<and> oc = or_outcome x"
  by (induction rs) (auto split: if_splits)

lemma first_denial_None: "first_denial rs = None \<longleftrightarrow> (\<forall>x\<in>set rs. \<not> (or_attempted x \<and> or_problem x \<and> or_err x = None))"
  by (induction rs) auto

lemma first_failure_None:
  "first_failure pe rs = None \<longleftrightarrow> (\<forall>x\<in>set rs. \<forall>e. or_err x = Some e \<and> or_attempted x \<longrightarrow> errors_is e Canceled \<and> pe = None)"
  by (induction rs) (auto split: option.splits)

lemma reduce_denial:
  assumes "\<And>x. x \<in> set rs \<Longrightarrow> or_problem x \<Longrightarrow> or_err x = None \<Longrightarrow> or_attempted x \<and> oc_decision (or_outcome x) = decisionDeny"
    and "reduceOwnerResults env cfg key ctx pe rs s = (oc, s')" and "oc_decision oc = decisionAllow"
  shows "\<forall>x\<in>set rs. or_problem x \<longrightarrow> or_err x \<noteq> None"
proof (cases "first_denial rs")
  case None
  with assms(1) show ?thesis by (auto simp: first_denial_None)
next
  case (Some d)
  from first_denial_Some [OF Some] assms show ?thesis
    by (auto simp: reduceOwnerResults_def Some decisionAllow_def decisionDeny_def)
qed

lemma reduce_checked: "reduceOwnerResults env cfg key ctx pe rs s = (oc, s') \<Longrightarrow> oc_checked oc = consulted rs"
  by (auto simp: reduceOwnerResults_def split: option.splits prod.splits)

lemma failOutcome_closed: "\<not> IsFailOpen cfg \<Longrightarrow> oc_decision (failOutcome cfg mode reason key req) = decisionDeny"
  by (simp add: failOutcome_def Let_def split: option.split)

lemma allow_not_deny [simp]: "decisionAllow \<noteq> decisionDeny" "decisionDeny \<noteq> decisionAllow"
  by (simp_all add: decisionAllow_def decisionDeny_def)

lemma reduce_closed:
  assumes "reduceOwnerResults env cfg key ctx pe rs s = (oc, s')" and "oc_decision oc = decisionAllow"
    and "\<not> IsFailOpen cfg" and "first_denial rs = None"
  shows "first_failure pe rs = None \<and> s' = s"
proof (cases "first_failure pe rs")
  case None
  with assms(1,4) show ?thesis by (simp add: reduceOwnerResults_def)
next
  case (Some f)
  with assms show ?thesis by (cases f) (auto simp: reduceOwnerResults_def failOutcome_closed)
qed

lemma ok_denials:
  assumes "\<And>i. i < length claims \<Longrightarrow> result_ok key ctx sd (claims ! i) Finished (rs ! i)" and "length rs = length claims"
    and "x \<in> set rs" and "or_problem x" and "or_err x = None"
  shows "or_attempted x \<and> oc_decision (or_outcome x) = decisionDeny"
proof -
  obtain i where "i < length claims" "x = rs ! i" using assms(2,3) by (auto simp: in_set_conv_nth)
  with result_ok_facts(1) [OF assms(1)] assms(4,5) show ?thesis by blast
qed

lemma ok_denial_mode:
  assumes "\<And>i. i < length claims \<Longrightarrow> result_ok key ctx sd (claims ! i) Finished (rs ! i)" and "length rs = length claims"
    and "first_denial rs = Some d"
  shows "oc_failMode d = []"
proof -
  from first_denial_Some [OF assms(3)] obtain i where "i < length claims" "or_problem (rs ! i)" "or_err (rs ! i) = None" "d = or_outcome (rs ! i)"
    using assms(2) by (auto simp: in_set_conv_nth)
  with denial_mode [OF assms(1)] show ?thesis by blast
qed

text \<open>What an allow within the budget and without a fail-open policy rests on.\<close>

lemma allow_evidence:
  assumes run: "checkOwners (traced env) ops cfg key ctx client claims sd s = (oc, s')"
    and allow: "oc_decision oc = decisionAllow" and closed: "\<not> IsFailOpen cfg"
    and u: "uncancelled env" and live: "Expire \<notin> set ops"
    and so: "sourced s" and nf: "nul_free_client client" and pl: "plain_replies env"
  shows "\<exists>es. calls s' = calls s @ es \<and> (\<forall>c\<in>set claims. consent_evidence client (owner_request ctx sd c) (calls s') es)"
proof -
  obtain r s1 where reach: "check_reach (traced env) key ctx client sd claims s (ops @ remaining_steps (length claims)) (r, s1)"
    and fin: "goroutines r = replicate (length claims) Finished" and len: "length (results r) = length claims"
    and ok: "\<And>i. i < length claims \<Longrightarrow> result_ok key ctx sd (claims ! i) Finished (results r ! i)"
    and red: "reduceOwnerResults (traced env) cfg key ctx (phase_done r) (results r) s1 = (oc, s')"
    using checkOwners_run [OF run] by blast
  have "Expire \<notin> set (ops @ remaining_steps (length claims))" using live by (auto simp: remaining_steps_def)
  from reach_evidence [OF reach u this so nf pl] have inv: "evidence_inv client ctx sd claims (calls s) r s1" by simp
  note dn = ok_denials [OF ok len]
  have noden: "\<forall>x\<in>set (results r). or_problem x \<longrightarrow> or_err x \<noteq> None" using reduce_denial [OF dn red allow] by blast
  then have "first_denial (results r) = None" by (auto simp: first_denial_None)
  from reduce_closed [OF red allow closed this] have ff: "first_failure (phase_done r) (results r) = None" and s': "s' = s1" by auto
  have "checks_done r = None"
  proof (rule ccontr)
    assume "checks_done r \<noteq> None"
    with inv obtain i where i: "i < length claims" "decisive (results r ! i)" by (auto simp: evidence_inv_def)
    then have "results r ! i \<in> set (results r)" using len by simp
    with i noden ff show False by (auto simp: decisive_def first_failure_None split: option.splits)
  qed
  with inv fin s' show ?thesis by (auto simp: evidence_inv_def in_set_conv_nth)
qed

section \<open>Claims\<close>

text \<open>
  C2.  Deny-all: when the checks of a response's owners end in an allow, then, without a fail-open policy,
  within the budget of the phase and with a network that does not answer with a cancellation, for every single
  claim the consent-manager answered the identifier search for this very owner with an identifier, in this phase
  or, when the identifier was cached, before it, and in this phase it answered a consents lookup of that
  identifier with a receipt that authorises the owner's data and purpose for the consumer, whatever the
  scheduling of the checks.  The identifiers cached before must come from searches (\<open>tracks_checkOwners\<close> keeps
  that), and the parts of the cache keys must not hold the separator byte.
\<close>

theorem release_needs_every_consent:
  assumes "checkOwners (traced env) ops cfg key ctx client claims sd s = (oc, s')"
    and "oc_decision oc = decisionAllow" and "\<not> IsFailOpen cfg" and "uncancelled env" and "Expire \<notin> set ops"
    and "sourced s" and "nul_free_client client" and "plain_replies env"
  shows "\<exists>es. calls s' = calls s @ es
    \<and> (\<forall>c\<in>set claims. consent_evidence client
          \<lparr>Subject = ow_owner c, Resource = rc_Path ctx, Method = rc_Method ctx, DataResource = ow_dataResource c,
            Consumer = sd, Purpose = ow_purpose c\<rparr> (calls s') es)"
  using allow_evidence [OF assms] unfolding owner_request_def .

text \<open>How a refusal reaches the verdict: its result stays, and is found whatever else went wrong.\<close>

lemma finished_stays:
  assumes "owner_step env key ctx client sd claims p (r, s) = (r', s')" and "i < length (goroutines r)" and "goroutines r ! i = Finished"
  shows "goroutines r' ! i = Finished \<and> results r' ! i = results r ! i"
  using assms(1)
proof (cases rule: owner_step_cases)
  case (start j started)
  with assms(2,3) show ?thesis by (cases "j = i") auto
next
  case (give_up j)
  with assms(2,3) show ?thesis by (cases "j = i") auto
next
  case (finish j bites started answer s1 now s2)
  with assms(2,3) show ?thesis by (cases "j = i") auto
qed (use assms(3) in auto)

lemma finished_result:
  assumes "i < length (goroutines (fst st))" and "goroutines (fst st) ! i = Finished"
  shows "results (fst (run_steps env key ctx client sd claims ops st)) ! i = results (fst st) ! i"
  using assms
proof (induction ops arbitrary: st)
  case (Cons p ops)
  obtain r s r' s' where st: "st = (r, s)" and p: "owner_step env key ctx client sd claims p (r, s) = (r', s')" by fastforce
  have "i < length (goroutines r')" using owner_step_shape [OF p] Cons.prems(1) st by (simp add: same_shape_def)
  with finished_stays [OF p] Cons.IH [of "(r', s')"] Cons.prems p st show ?case by simp
qed simp

lemma denied_result:
  assumes "checkOwners env ops cfg key ctx client claims sd s = (oc, s')"
    and ops: "ops @ remaining_steps (length claims) = pre @ Finish i bites # post"
    and run: "run_steps env key ctx client sd claims pre (start_run claims, s) = (r, t)"
    and i: "i < length claims" "goroutines r ! i = Running started"
    and c: "CheckConsent (cut_env (checks_done r) bites env) client (owner_request ctx sd (claims ! i)) t = (Inr resp, t')"
    and d: "Decision resp \<noteq> DecisionAllow"
  shows "\<exists>(r1 :: check_run) s1. reduceOwnerResults env cfg key ctx (phase_done r1) (results r1) s1 = (oc, s')
    \<and> length (results r1) = length claims
    \<and> (\<forall>j<length claims. result_ok key ctx sd (claims ! j) Finished (results r1 ! j))
    \<and> results r1 ! i = check_result key ctx (claims ! i) (Inr resp) (attempted_result ctx sd (claims ! i))"
proof -
  note reach = run_steps_reach [of env key ctx client sd claims s pre, unfolded run]
  have len: "length (goroutines r) = length claims" "length (results r) = length claims" using reach_shape [OF reach] by auto
  have at: "results r ! i = attempted_result ctx sd (claims ! i)"
    using reach_results [OF reach] i by (auto simp: result_ok_def)
  let ?st = "owner_step env key ctx client sd claims (Finish i bites) (r, t)"
  have st: "i < length (goroutines (fst ?st))" "goroutines (fst ?st) ! i = Finished"
    "results (fst ?st) ! i = check_result key ctx (claims ! i) (Inr resp) (attempted_result ctx sd (claims ! i))"
    using i len at c by (simp_all add: owner_step_def finish_check_def Let_def split: prod.split)
  obtain r1 s1 where e: "run_steps env key ctx client sd claims (ops @ remaining_steps (length claims)) (start_run claims, s) = (r1, s1)"
    by fastforce
  have "results r1 ! i = check_result key ctx (claims ! i) (Inr resp) (attempted_result ctx sd (claims ! i))"
    using finished_result [OF st(1,2), of env key ctx client sd claims post] st(3) e run by (simp add: ops run_steps_append)
  moreover have "goroutines r1 = replicate (length claims) Finished \<and> length (results r1) = length claims"
    using remaining_steps_end [of "run_steps env key ctx client sd claims ops (start_run claims, s)" "length claims" env key ctx client sd claims]
      reach_shape [OF run_steps_reach [of env key ctx client sd claims s ops]]
      reach_shape [OF run_steps_reach [of env key ctx client sd claims s "ops @ remaining_steps (length claims)"]] e
    by (simp add: run_steps_append)
  moreover have "\<forall>j<length claims. result_ok key ctx sd (claims ! j) (goroutines r1 ! j) (results r1 ! j)"
    using reach_results [OF run_steps_reach [of env key ctx client sd claims s "ops @ remaining_steps (length claims)"]] e by simp
  moreover have "reduceOwnerResults env cfg key ctx (phase_done r1) (results r1) s1 = (oc, s')"
    using assms(1) e by (simp add: checkOwners_def)
  ultimately have "reduceOwnerResults env cfg key ctx (phase_done r1) (results r1) s1 = (oc, s')
    \<and> length (results r1) = length claims
    \<and> (\<forall>j<length claims. result_ok key ctx sd (claims ! j) Finished (results r1 ! j))
    \<and> results r1 ! i = check_result key ctx (claims ! i) (Inr resp) (attempted_result ctx sd (claims ! i))"
    by simp
  then show ?thesis by blast
qed

text \<open>
  C5.  A refusal is enforced: when, at any point of any schedule, with whatever failures and with or without a
  fail-open policy, the consent-manager client answers the check of one owner's claim with a denial, then the
  outcome is a deny that is not a failure, and the owner is recorded as refusing, with the client's reason.
\<close>

theorem refusal_is_enforced:
  assumes "checkOwners env ops cfg key ctx client claims sd s = (oc, s')"
    and "ops @ remaining_steps (length claims) = pre @ Finish i bites # post"
    and "run_steps env key ctx client sd claims pre (start_run claims, s) = (r, t)"
    and "i < length claims" and "goroutines r ! i = Running started"
    and "CheckConsent (cut_env (checks_done r) bites env) client
          \<lparr>Subject = ow_owner (claims ! i), Resource = rc_Path ctx, Method = rc_Method ctx,
            DataResource = ow_dataResource (claims ! i), Consumer = sd, Purpose = ow_purpose (claims ! i)\<rparr> t = (Inr resp, t')"
    and "Decision resp = DecisionDeny"
  shows "oc_decision oc = decisionDeny \<and> oc_failMode oc = []
    \<and> (ow_owner (claims ! i) \<noteq> [] \<longrightarrow>
         (\<exists>k\<in>set (oc_checked oc). ck_subject k = ow_owner (claims ! i) \<and> ck_decision k = decisionDeny \<and> ck_reason k = Reason resp))"
proof -
  have d: "Decision resp \<noteq> DecisionAllow" using assms(7) by simp
  obtain r1 :: check_run and s1 where red: "reduceOwnerResults env cfg key ctx (phase_done r1) (results r1) s1 = (oc, s')"
    and len: "length (results r1) = length claims"
    and ok: "\<And>j. j < length claims \<Longrightarrow> result_ok key ctx sd (claims ! j) Finished (results r1 ! j)"
    and x: "results r1 ! i = check_result key ctx (claims ! i) (Inr resp) (attempted_result ctx sd (claims ! i))"
    using denied_result [OF assms(1-5) assms(6) [folded owner_request_def] d] by blast
  have mem: "results r1 ! i \<in> set (results r1)" using assms(4) len by simp
  have "or_problem (results r1 ! i) \<and> or_err (results r1 ! i) = None \<and> or_attempted (results r1 ! i)
      \<and> ck_subject (or_record (results r1 ! i)) = ow_owner (claims ! i)
      \<and> ck_decision (or_record (results r1 ! i)) = decisionDeny \<and> ck_reason (or_record (results r1 ! i)) = Reason resp"
    using d by (simp add: x result_defs)
  moreover from this obtain oc0 where fd: "first_denial (results r1) = Some oc0"
    using mem by (cases "first_denial (results r1)") (auto simp: first_denial_None)
  moreover from first_denial_Some [OF fd] ok_denials [OF ok len] ok_denial_mode [OF ok len fd]
  have "oc_decision oc0 = decisionDeny \<and> oc_failMode oc0 = []" by blast
  moreover have "oc = oc0\<lparr>oc_checked := consulted (results r1)\<rparr>" using red fd by (simp add: reduceOwnerResults_def)
  ultimately show ?thesis using mem by (auto simp: consulted_def intro!: bexI [of _ "or_record (results r1 ! i)"] image_eqI)
qed

section \<open>Unanimous consent\<close>

lemma CheckConsent_subject:
  "CheckConsent env c req s = (Inr resp, s') \<Longrightarrow> Decision resp = DecisionAllow \<Longrightarrow> Subject req \<noteq> []"
  by (auto simp: CheckConsent_def split: if_splits)

definition granted_result :: "string \<Rightarrow> request_context \<Rightarrow> string \<Rightarrow> owner_claim \<Rightarrow> owner_check_result \<Rightarrow> bool" where
  "granted_result key ctx sd c x \<longleftrightarrow> ow_owner c \<noteq> []
     \<and> (\<exists>resp. Decision resp = DecisionAllow \<and> x = check_result key ctx c (Inr resp) (attempted_result ctx sd c))"

definition always_grants :: "'w env \<Rightarrow> client \<Rightarrow> consent_request \<Rightarrow> ('w, 'z) metrics_proc_scheme itself \<Rightarrow> bool" where
  "always_grants env client req ty \<longleftrightarrow>
     (\<forall>t :: ('w, 'z) metrics_proc_scheme. \<exists>resp t'. CheckConsent env client req t = (Inr resp, t') \<and> Decision resp = DecisionAllow)"

lemma reach_unanimous:
  fixes s0 :: "('w, 'z) metrics_proc_scheme"
  assumes "check_reach env key ctx client sd claims s0 ops st"
    and "\<forall>c\<in>set claims. always_grants env client (owner_request ctx sd c) TYPE(('w, 'z) metrics_proc_scheme)"
    and "Expire \<notin> set ops"
  shows "checks_done (fst st) = None \<and> phase_done (fst st) = None
    \<and> (\<forall>i<length claims. goroutines (fst st) ! i = Finished \<longrightarrow> granted_result key ctx sd (claims ! i) (results (fst st) ! i))"
  using assms
proof (induction rule: check_reach.induct)
  case start
  then show ?case by (simp add: start_run_def)
next
  case (step ops st p)
  obtain r s r' s' where st: "st = (r, s)" and p: "owner_step env key ctx client sd claims p (r, s) = (r', s')" by fastforce
  have len: "length (goroutines r) = length claims" "length (results r) = length claims"
    using reach_shape [OF step.hyps] st by auto
  have inv: "checks_done r = None" "phase_done r = None"
    "\<forall>i<length claims. goroutines r ! i = Finished \<longrightarrow> granted_result key ctx sd (claims ! i) (results r ! i)"
    using step st by auto
  have "p \<noteq> Expire" using step.prems(2) by auto
  from p have "checks_done r' = None \<and> phase_done r' = None
    \<and> (\<forall>i<length claims. goroutines r' ! i = Finished \<longrightarrow> granted_result key ctx sd (claims ! i) (results r' ! i))"
  proof (cases rule: owner_step_cases)
    case (start i started)
    with inv len show ?thesis by (auto simp: nth_list_update)
  next
    case (finish i bites started answer s1 now s2)
    have ok: "results r ! i = attempted_result ctx sd (claims ! i)"
      using reach_results [OF step.hyps] st len finish(2,3) by (auto simp: result_ok_def)
    have "claims ! i \<in> set claims" using finish(2) len by simp
    with step.prems(1) have "always_grants env client (owner_request ctx sd (claims ! i)) TYPE(('w, 'z) metrics_proc_scheme)" by blast
    then obtain resp t' where "CheckConsent env client (owner_request ctx sd (claims ! i)) s = (Inr resp, t')"
      "Decision resp = DecisionAllow" unfolding always_grants_def by blast
    with finish(4) inv(1) have a: "answer = Inr resp" "Decision resp = DecisionAllow" by (simp_all add: cut_env_def)
    have "ow_owner (claims ! i) \<noteq> []"
      using CheckConsent_subject [OF finish(4) [unfolded a(1)] a(2)] by (simp add: owner_request_def)
    then have "granted_result key ctx sd (claims ! i) (check_result key ctx (claims ! i) answer (results r ! i))"
      using a ok by (auto simp: granted_result_def)
    moreover have "\<not> or_problem (check_result key ctx (claims ! i) answer (results r ! i))"
      using a ok by (simp add: result_defs)
    ultimately show ?thesis using finish(2,6) inv len by (auto simp: nth_list_update)
  qed (use inv \<open>p \<noteq> Expire\<close> in auto)
  then show ?case by (simp add: st p)
qed

lemma granted_record:
  "granted_result key ctx sd c x \<Longrightarrow> or_attempted x \<and> \<not> or_problem x \<and> or_err x = None \<and> ck_subject (or_record x) = ow_owner c
     \<and> ck_resource (or_record x) = resourceOrPath (ow_dataResource c) (rc_Path ctx) \<and> ow_owner c \<noteq> []"
  by (auto simp: granted_result_def result_defs)

lemma unanimous_allows:
  fixes s :: "('w, 'z) metrics_proc_scheme"
  assumes "checkOwners env ops cfg key ctx client claims sd s = (oc, s')"
    and "\<forall>c\<in>set claims. always_grants env client (owner_request ctx sd c) TYPE(('w, 'z) metrics_proc_scheme)"
    and "Expire \<notin> set ops"
  shows "oc_decision oc = decisionAllow \<and> oc_failMode oc = [] \<and> map ck_subject (oc_checked oc) = map ow_owner claims"
proof -
  obtain r s1 where reach: "check_reach env key ctx client sd claims s (ops @ remaining_steps (length claims)) (r, s1)"
    and fin: "goroutines r = replicate (length claims) Finished" and len: "length (results r) = length claims"
    and red: "reduceOwnerResults env cfg key ctx (phase_done r) (results r) s1 = (oc, s')"
    using checkOwners_run [OF assms(1)] by blast
  have "Expire \<notin> set (ops @ remaining_steps (length claims))" using assms(3) by (auto simp: remaining_steps_def)
  from reach_unanimous [OF reach assms(2) this] fin
  have g: "\<And>i. i < length claims \<Longrightarrow> granted_result key ctx sd (claims ! i) (results r ! i)" by simp
  have all: "\<forall>x\<in>set (results r). or_attempted x \<and> \<not> or_problem x \<and> or_err x = None \<and> ck_subject (or_record x) \<noteq> []"
    using granted_record [OF g] len by (auto simp: in_set_conv_nth)
  then have "first_denial (results r) = None" "first_failure (phase_done r) (results r) = None"
    by (auto simp: first_denial_None first_failure_None)
  moreover have "map (ck_subject \<circ> or_record) (results r) = map ow_owner claims"
    using granted_record [OF g] len by (intro nth_equalityI) auto
  moreover have "filter (\<lambda>x. or_attempted x \<and> ck_subject (or_record x) \<noteq> []) (results r) = results r"
    using all by (intro filter_True) auto
  ultimately show ?thesis
    using red by (auto simp: reduceOwnerResults_def consulted_def zero_outcome_def)
qed

text \<open>
  C8.  The gate opens when it should: if the consent-manager grants every claim and the phase stays within
  its budget, the outcome is an allow that names every owner, in the order of the claims, under any
  scheduling of the checks.
\<close>

theorem unanimous_consent_allows:
  fixes s :: "('w, 'z) metrics_proc_scheme"
  assumes "checkOwners env ops cfg key ctx client claims sd s = (oc, s')"
    and "\<forall>c\<in>set claims. always_grants env client (owner_request ctx sd c) TYPE(('w, 'z) metrics_proc_scheme)"
    and "Expire \<notin> set ops"
  shows "oc_decision oc = decisionAllow \<and> oc_failMode oc = [] \<and> map ck_subject (oc_checked oc) = map ow_owner claims"
  using assms by (rule unanimous_allows)

text \<open>
  C9.  The checks are bounded and end: in every state the scheduler can reach, at most eight checks are in
  flight, every step but the expiry of the phase uses up work or changes nothing, and unless all
  goroutines have ended some step does; the work is twice the number of claims at the start.
\<close>

theorem checks_bounded_and_end:
  assumes "check_reach env key ctx client sd claims s0 ops (r, s)"
  shows "in_flight r \<le> 8 \<and> run_work (start_run claims) = 2 * length claims
    \<and> (\<forall>p r' s'. p \<noteq> Expire \<and> owner_step env key ctx client sd claims p (r, s) = (r', s') \<longrightarrow>
          run_work r' < run_work r \<or> r' = r \<and> s' = s)
    \<and> ((\<exists>g\<in>set (goroutines r). g \<noteq> Finished) \<longrightarrow>
          (\<exists>p. p \<noteq> Expire \<and> run_work (fst (owner_step env key ctx client sd claims p (r, s))) < run_work r))"
proof (intro conjI impI allI)
  show "in_flight r \<le> 8" using reach_in_flight [OF assms] by (simp add: maxConcurrentConsentChecks_def)
  show "run_work (start_run claims) = 2 * length claims"
    by (simp add: run_work_def start_run_def work_left_def sum_list_replicate)
next
  fix p r' s'
  assume "p \<noteq> Expire \<and> owner_step env key ctx client sd claims p (r, s) = (r', s')"
  then show "run_work r' < run_work r \<or> r' = r \<and> s' = s" using owner_step_work by blast
next
  assume "\<exists>g\<in>set (goroutines r). g \<noteq> Finished"
  then obtain j where j: "j < length (goroutines r)" "goroutines r ! j \<noteq> Finished" by (auto simp: in_set_conv_nth)
  show "\<exists>p. p \<noteq> Expire \<and> run_work (fst (owner_step env key ctx client sd claims p (r, s))) < run_work r"
  proof (cases "\<exists>i<length (goroutines r). is_running (goroutines r ! i)")
    case True
    then obtain i t where i: "i < length (goroutines r)" "goroutines r ! i = Running t" by (auto simp: is_running_iff)
    with progress_Finish [OF i, of env key ctx client sd claims no_bites s]
    have "run_work (fst (owner_step env key ctx client sd claims (Finish i no_bites) (r, s))) < run_work r"
      by (simp add: run_work_def sum_list_lower work_left_def)
    then show ?thesis by (intro exI [of _ "Finish i no_bites"]) simp
  next
    case False
    then have "in_flight r < maxConcurrentConsentChecks" by (intro idle_in_flight) (auto simp: in_set_conv_nth)
    moreover have w: "goroutines r ! j = Waiting" using False j by (cases "goroutines r ! j") (auto simp: is_running_iff)
    ultimately obtain t where "goroutines (fst (owner_step env key ctx client sd claims (Start j) (r, s))) = (goroutines r)[j := Running t]"
      using progress_Start [OF j(1), of env key ctx client sd claims s] by blast
    then have "run_work (fst (owner_step env key ctx client sd claims (Start j) (r, s))) < run_work r"
      using j(1) w by (simp add: run_work_def sum_list_lower work_left_def)
    then show ?thesis by (intro exI [of _ "Start j"]) simp
  qed
qed

section \<open>Sample runs\<close>

definition demo_request :: request_context where
  "demo_request = \<lparr>rc_Method = ''GET'', rc_Path = ''/d'', rc_JWTClaims = []\<rparr>"

definition demo_claim :: owner_claim where
  "demo_claim = \<lparr>ow_owner = ''did:o'', ow_dataResource = [], ow_purpose = []\<rparr>"

definition demo_state :: "'w \<Rightarrow> 'w metrics_proc" where
  "demo_state w = \<lparr>world = w, supp = [], log_lines = [], credCache = [], participantSDCache = [], identifierCache = [],
     store = empty_store, janitorStarted = False, decisions = [], dependencyCalls = [], latency = [],
     purposeUnconstrained = 0, callbacks = []\<rparr>"

lemma demo_owner_request: "owner_request demo_request ''sd:c'' demo_claim = demo_question"
  by (simp add: owner_request_def demo_request_def demo_claim_def demo_question_def)

text \<open>A scripted consent-manager that answers as the sample does, whatever it says to the resolver's question.\<close>

definition answers_checks :: "(http_request \<Rightarrow> http_result) \<Rightarrow> bool" where
  "answers_checks reply \<longleftrightarrow> (\<forall>rq. (case rq_body rq of Some (JObj ((k, _) # _)) \<Rightarrow> k \<noteq> ''resource'' | _ \<Rightarrow> True) \<longrightarrow> reply rq = demo_reply rq)"

lemma answers_checks_demo: "answers_checks demo_reply"
  by (simp add: answers_checks_def)

lemma answers_get: "answers_checks reply \<Longrightarrow> rq_body rq = None \<Longrightarrow> reply rq = demo_reply rq"
  by (simp add: answers_checks_def)

lemma answers_post: "answers_checks reply \<Longrightarrow> rq_body rq = Some (JObj ((k, v) # kvs)) \<Longrightarrow> k \<noteq> ''resource'' \<Longrightarrow> reply rq = demo_reply rq"
  by (simp add: answers_checks_def)

lemma demo_identifier:
  assumes "answers_checks reply"
  shows "\<exists>u t'. resolveUserIdentifier (traced (scripted_env reply)) demo_client sub sd tok t = (Inr (Some u), t')"
proof -
  have "\<exists>u t'. search_identifier (traced (scripted_env reply)) demo_client sub sd tok t = (Inr (Some u), t')" for t
    by (auto simp: search_identifier_def new_request_def client_do_def http_do_def json_unmarshal_def time_now_def
        identifier_request_def bearer_def set_header_def traced_def scripted_env_def demo_client_def answers_post [OF assms]
        demo_reply_def demo_bodies Let_def split: prod.splits)
  then show ?thesis by (auto simp: resolveUserIdentifier_def split: option.splits prod.splits)
qed

lemma demo_granted:
  assumes "answers_checks reply"
  shows "\<exists>t'. hasGrantedConsent (traced (scripted_env reply)) demo_client tok u demo_question t = (Inr True, t')"
  by (auto simp: hasGrantedConsent_def new_request_def client_do_def http_do_def json_unmarshal_def bearer_def set_header_def
      traced_def scripted_env_def demo_client_def answers_get [OF assms] demo_reply_def demo_bodies demo_question_def match_defs
      split: prod.splits)

lemma demo_grants:
  assumes "answers_checks reply"
  shows "\<exists>t'. CheckConsent (traced (scripted_env reply)) demo_client demo_question t = (Inr \<lparr>Decision = DecisionAllow, Reason = []\<rparr>, t')"
proof -
  let ?env = "traced (scripted_env reply)"
  have c: "credentials ?env demo_client False t = (Inr (''tok'', ''sd:p''), t)"
    by (simp add: credentials_def demo_client_def)
  obtain u t1 where i: "resolveUserIdentifier ?env demo_client (Subject demo_question) ''sd:p'' ''tok'' t = (Inr (Some u), t1)"
    using demo_identifier [OF assms] by blast
  obtain t2 where g: "hasGrantedConsent ?env demo_client ''tok'' u demo_question t1 = (Inr True, t2)"
    using demo_granted [OF assms] by blast
  have q: "Subject demo_question \<noteq> []" "Consumer demo_question \<noteq> []" by (simp_all add: demo_question_def)
  from c i g q show ?thesis by (simp add: CheckConsent_def check_with_retry_def check_def)
qed

lemma demo_always_grants:
  "answers_checks reply \<Longrightarrow> always_grants (traced (scripted_env reply)) demo_client (owner_request demo_request ''sd:c'' demo_claim) ty"
  unfolding always_grants_def demo_owner_request using demo_grants by fastforce

theorem unanimous_consent_allows_witness:
  "\<exists>oc s'. checkOwners (traced (scripted_env demo_reply)) [Start 0] zero_config ''r1'' demo_request demo_client
       [demo_claim, demo_claim] ''sd:c'' (demo_state (0, [])) = (oc, s')
     \<and> oc_decision oc = decisionAllow \<and> map ck_subject (oc_checked oc) = [''did:o'', ''did:o'']"
proof -
  obtain oc s' where r: "checkOwners (traced (scripted_env demo_reply)) [Start 0] zero_config ''r1'' demo_request demo_client
       [demo_claim, demo_claim] ''sd:c'' (demo_state (0, [])) = (oc, s')" by fastforce
  from unanimous_consent_allows [OF r] demo_always_grants [OF answers_checks_demo] r show ?thesis by (auto simp: demo_claim_def)
qed

lemma demo_uncancelled: "uncancelled (scripted_env demo_reply)"
  by (simp add: uncancelled_def clean_for_def clean_result_def scripted_env_def demo_reply_def)

lemma demo_nul_free: "nul_free_client demo_client"
  by (simp add: nul_free_client_def nul_free_def demo_client_def)

lemma demo_sourced: "sourced (demo_state w)"
  by (rule sourced_empty) (simp_all add: demo_state_def)

text \<open>The two bodies of the sample name no self-description at all.\<close>

lemma demo_me: "unmarshal (dec_struct me_field) ''{\"userIdentifier\":\"u1\"}'' [] = Some []"
    "unmarshal (dec_struct me_field) ''{\"consents\":[{\"status\":\"granted\",\"recipients\":[\"sd:c\"]}]}'' [] = Some []"
  by code_simp+

lemma demo_plain: "plain_replies (scripted_env demo_reply)"
  by (auto simp: plain_replies_def scripted_env_def demo_reply_def demo_me nul_free_def split: if_splits)

lemma demo_question_eq:
  "\<lparr>Subject = ow_owner demo_claim, Resource = rc_Path demo_request, Method = rc_Method demo_request,
     DataResource = ow_dataResource demo_claim, Consumer = ''sd:c'', Purpose = ow_purpose demo_claim\<rparr> = demo_question"
  by (simp add: demo_claim_def demo_request_def demo_question_def)

lemma demo_allows:
  "\<exists>oc s'. checkOwners (traced (scripted_env demo_reply)) [] zero_config ''r1'' demo_request demo_client
       [demo_claim] ''sd:c'' (demo_state (0, [])) = (oc, s') \<and> oc_decision oc = decisionAllow \<and> oc_checked oc \<noteq> []"
proof -
  obtain oc s' where r: "checkOwners (traced (scripted_env demo_reply)) [] zero_config ''r1'' demo_request demo_client
       [demo_claim] ''sd:c'' (demo_state (0, [])) = (oc, s')" by fastforce
  from unanimous_allows [OF r] demo_always_grants [OF answers_checks_demo] r show ?thesis by auto
qed

theorem release_needs_every_consent_witness:
  "\<exists>oc s'. checkOwners (traced (scripted_env demo_reply)) [] zero_config ''r1'' demo_request demo_client
       [demo_claim] ''sd:c'' (demo_state (0, [])) = (oc, s') \<and> oc_decision oc = decisionAllow
     \<and> consent_evidence demo_client demo_question (calls s') (calls s')"
proof -
  obtain oc s' where r: "checkOwners (traced (scripted_env demo_reply)) [] zero_config ''r1'' demo_request demo_client
       [demo_claim] ''sd:c'' (demo_state (0, [])) = (oc, s')" "oc_decision oc = decisionAllow"
    using demo_allows by blast
  have "\<not> IsFailOpen zero_config" by (simp add: IsFailOpen_def zero_config_def)
  from release_needs_every_consent [OF r this demo_uncancelled _ demo_sourced demo_nul_free demo_plain]
  have "consent_evidence demo_client demo_question (calls s') (calls s')"
    by (auto simp: demo_question_eq demo_state_def calls_def)
  with r show ?thesis by blast
qed

text \<open>An owner the consent-manager does not know: the search is answered 404, which is a refusal.\<close>

definition unknown_reply :: "http_request \<Rightarrow> http_result" where
  "unknown_reply rq = Response 404 []"

definition open_config :: config where
  "open_config = zero_config\<lparr>FailOpen := Some True\<rparr>"

lemma unknown_refused:
  "\<exists>t'. CheckConsent (scripted_env unknown_reply) demo_client demo_question (demo_state second)
     = (Inr \<lparr>Decision = DecisionDeny, Reason = ''no user identifier for subject''\<rparr>, t')"
  by (simp add: CheckConsent_def check_with_retry_def check_def credentials_def resolveUserIdentifier_def search_identifier_def
      new_request_def client_do_def http_do_def demo_client_def demo_question_def demo_state_def scripted_env_def unknown_reply_def
      identifier_request_def set_header_def Let_def)

theorem refusal_is_enforced_witness:
  "\<exists>oc s'. checkOwners (scripted_env unknown_reply) [] open_config ''r1'' demo_request demo_client [demo_claim] ''sd:c'' (demo_state 0) = (oc, s')
     \<and> IsFailOpen open_config \<and> oc_decision oc = decisionDeny"
proof -
  let ?E = "scripted_env unknown_reply"
  obtain oc s' where r: "checkOwners ?E [] open_config ''r1'' demo_request demo_client [demo_claim] ''sd:c'' (demo_state 0) = (oc, s')" by fastforce
  have rem: "[] @ remaining_steps (length [demo_claim]) = [Finish 0 no_bites, Start 0] @ Finish 0 no_bites # []"
    by (simp add: remaining_steps_def)
  obtain r1 where st: "run_steps ?E ''r1'' demo_request demo_client ''sd:c'' [demo_claim] [Finish 0 no_bites, Start 0] (start_run [demo_claim], demo_state 0)
      = (r1, demo_state second)" "goroutines r1 ! 0 = Running 0" "checks_done r1 = None"
    by (simp add: start_run_def owner_step_def start_check_def in_flight_def is_running_def maxConcurrentConsentChecks_def
        time_now_def scripted_env_def demo_state_def)
  obtain t' where c: "CheckConsent (cut_env (checks_done r1) no_bites ?E) demo_client
      \<lparr>Subject = ow_owner ([demo_claim] ! 0), Resource = rc_Path demo_request, Method = rc_Method demo_request,
        DataResource = ow_dataResource ([demo_claim] ! 0), Consumer = ''sd:c'', Purpose = ow_purpose ([demo_claim] ! 0)\<rparr> (demo_state second)
      = (Inr \<lparr>Decision = DecisionDeny, Reason = ''no user identifier for subject''\<rparr>, t')"
    using unknown_refused by (auto simp: st(3) cut_env_def demo_claim_def demo_request_def demo_question_def)
  have "IsFailOpen open_config" by (simp add: IsFailOpen_def open_config_def)
  with refusal_is_enforced [OF r rem st(1) _ st(2) c] r show ?thesis by simp
qed

theorem checks_bounded_and_end_witness:
  "in_flight (start_run [demo_claim]) \<le> 8
   \<and> (\<exists>p. p \<noteq> Expire \<and> run_work (fst (owner_step (scripted_env demo_reply) ''r1'' demo_request demo_client ''sd:c'' [demo_claim] p
        (start_run [demo_claim], demo_state 0))) < run_work (start_run [demo_claim]))"
proof -
  have "\<exists>g\<in>set (goroutines (start_run [demo_claim])). g \<noteq> Finished" by (simp add: start_run_def)
  with checks_bounded_and_end [OF check_reach.start [of "scripted_env demo_reply" "''r1''" demo_request demo_client "''sd:c''"
      "[demo_claim]" "demo_state 0"]] show ?thesis by blast
qed

end
