(* ===== verification/Owners_Limits.thy ===== *)
theory Owners_Limits
  imports Owners_Props
begin

text \<open>
  Where the owner checks fall short of the comments of \<open>internal/plugin/consent.go\<close>: a phase that expires
  before the checks start releases the response, and the verdict is not independent of the scheduling.
\<close>

section \<open>An expired phase\<close>

lemma give_up_all:
  assumes "checks_done (fst st) \<noteq> None"
  shows "run_steps env key ctx client sd claims (map Give_Up is) st
     = ((fst st)\<lparr>goroutines := foldl (\<lambda>gs i. if i < length gs \<and> gs ! i = Waiting then gs[i := Finished] else gs) (goroutines (fst st)) is\<rparr>, snd st)"
  using assms
proof (induction "is" arbitrary: st)
  case Nil
  show ?case by simp
next
  case (Cons i "is")
  then show ?case by (cases st) (simp add: owner_step_def)
qed

lemma foldl_give_up: "foldl (\<lambda>gs i. if i < length gs \<and> gs ! i = Waiting then gs[i := Finished] else gs) (replicate n Waiting) [0..<m]
    = replicate (min m n) Finished @ replicate (n - m) Waiting"
proof (induction m)
  case (Suc m)
  show ?case
  proof (cases "m < n")
    case True
    then have "n - m = Suc (n - Suc m)" by simp
    with Suc True show ?thesis by (simp add: nth_append list_update_append min_def replicate_app_Cons_same)
  qed (use Suc in \<open>simp add: min_def\<close>)
qed simp

lemma finished_idle:
  "goroutines (fst st) = replicate n Finished \<Longrightarrow> list_all (\<lambda>p. \<exists>i b. p = Start i \<or> p = Finish i b) ops \<Longrightarrow>
   run_steps env key ctx client sd claims ops st = st"
proof (induction ops)
  case (Cons p ops)
  then have "owner_step env key ctx client sd claims p st = st" by (cases st) (auto simp: owner_step_def)
  with Cons show ?case by simp
qed simp

text \<open>
  A response whose phase ran out of time before the checks started is released: when every goroutine
  sees the expired context before it gets a slot, nobody is asked, no result is a denial or an error,
  and the outcome is an allow with an empty record, even for a configuration that fails closed.
\<close>

theorem expired_phase_allows:
  "checkOwners env (Expire # map Give_Up [0..<length claims]) cfg key ctx client claims sd s
     = (zero_outcome\<lparr>oc_decision := decisionAllow, oc_requestID := key, oc_resource := rc_Path ctx,
          oc_method := rc_Method ctx, oc_checked := []\<rparr>, s)"
proof -
  let ?n = "length claims"
  let ?r = "\<lparr>goroutines = replicate ?n Finished, results = replicate ?n zero_result_of_check,
     checks_done = Some DeadlineExceeded, phase_done = Some DeadlineExceeded\<rparr>"
  have "run_steps env key ctx client sd claims (Expire # map Give_Up [0..<?n]) (start_run claims, s) = (?r, s)"
    using give_up_all [of "owner_step env key ctx client sd claims Expire (start_run claims, s)"]
    by (simp add: owner_step_def start_run_def foldl_give_up)
  moreover have "run_steps env key ctx client sd claims (remaining_steps ?n) (?r, s) = (?r, s)"
    by (rule finished_idle [of _ ?n]) (auto simp: remaining_steps_def list_all_iff)
  ultimately have "run_steps env key ctx client sd claims ((Expire # map Give_Up [0..<?n]) @ remaining_steps ?n) (start_run claims, s) = (?r, s)"
    unfolding run_steps_append by simp
  moreover have "first_denial (replicate ?n zero_result_of_check) = None"
    "first_failure (Some DeadlineExceeded) (replicate ?n zero_result_of_check) = None"
    "consulted (replicate ?n zero_result_of_check) = []"
    by (auto simp: first_denial_None first_failure_None zero_result_of_check_def consulted_def)
  ultimately show ?thesis by (simp add: checkOwners_def reduceOwnerResults_def)
qed

section \<open>Two schedules of one response\<close>

definition split_reply :: "http_request \<Rightarrow> http_result" where
  "split_reply rq = (case rq_body rq of
     Some (JObj ((_, JStr e) # _)) \<Rightarrow> if e = ''did:a'' then Do_Error (new_error ''refused'') else Response 404 []
   | _ \<Rightarrow> Response 500 [])"

definition split_claims :: "owner_claim list" where
  "split_claims = [\<lparr>ow_owner = ''did:a'', ow_dataResource = [], ow_purpose = []\<rparr>, \<lparr>ow_owner = ''did:b'', ow_dataResource = [], ow_purpose = []\<rparr>]"

lemma cut_no_bites [simp]: "cut_env cause no_bites env = env"
  by (simp add: cut_env_def split: option.split)

lemma split_owners: "map_runes (\<lambda>r. r) ''did:a'' = ''did:a''" "map_runes (\<lambda>r. r) ''did:b'' = ''did:b''"
  by code_simp+

lemma split_a:
  "identifierCache t = [] \<Longrightarrow> CheckConsent (scripted_env split_reply) demo_client (owner_request demo_request ''sd:c'' (split_claims ! 0)) t
    = (Inl (errorf_w ''consent client: HTTP request failed: '' (new_error ''refused'')), t)"
  by (simp add: demo_defs check_defs split_reply_def owner_request_def split_claims_def demo_request_def json_string_def split_owners)

lemma split_b:
  "identifierCache t = [] \<Longrightarrow> CheckConsent (scripted_env split_reply) demo_client (owner_request demo_request ''sd:c'' (split_claims ! 1)) t
    = (Inr \<lparr>Decision = DecisionDeny, Reason = ''no user identifier for subject''\<rparr>, t)"
  by (simp add: demo_defs check_defs split_reply_def owner_request_def split_claims_def demo_request_def json_string_def split_owners)

definition split_verdict :: "int owner_op list \<Rightarrow> string" where
  "split_verdict ops = oc_decision (fst (checkOwners (scripted_env split_reply) ops (zero_config\<lparr>FailOpen := Some True\<rparr>) ''r1''
     demo_request demo_client split_claims ''sd:c'' (demo_state 0)))"

lemma split_length: "length split_claims = 2"
  by (simp add: split_claims_def)

lemma cache_RecordDependencyCall [simp]: "identifierCache (RecordDependencyCall d o' t s) = identifierCache s"
  by (simp add: RecordDependencyCall_def)

lemma scripted_clock: "time_now (scripted_env reply) s = (world s, s\<lparr>world := world s + second\<rparr>)"
  by (simp add: time_now_def scripted_env_def)

lemma two_remaining: "remaining_steps 2 = [Finish 0 no_bites, Finish 1 no_bites, Start 0, Finish 0 no_bites, Start 1, Finish 1 no_bites]"
  by (simp add: remaining_steps_def numeral_2_eq_2)

lemmas two_steps = owner_step_def start_check_def finish_check_def in_flight_def is_running_def maxConcurrentConsentChecks_def
  scripted_clock

lemma split_start: "start_run split_claims = \<lparr>goroutines = [Waiting, Waiting], results = [zero_result_of_check, zero_result_of_check],
    checks_done = None, phase_done = None\<rparr>"
  by (simp add: start_run_def split_length numeral_2_eq_2)

lemma split_first:
  assumes "identifierCache s = []"
  shows "\<exists>s'. run_steps (scripted_env split_reply) ''r1'' demo_request demo_client ''sd:c'' split_claims [Start 0, Finish 0 no_bites] (start_run split_claims, s)
     = (\<lparr>goroutines = [Finished, Waiting], results = [check_result ''r1'' demo_request (split_claims ! 0)
           (Inl (errorf_w ''consent client: HTTP request failed: '' (new_error ''refused''))) (attempted_result demo_request ''sd:c'' (split_claims ! 0)),
           zero_result_of_check], checks_done = Some Canceled, phase_done = None\<rparr>, s') \<and> identifierCache s' = []"
  using assms by (simp add: split_start two_steps split_a result_defs)

definition split_first_run :: check_run where
  "split_first_run = \<lparr>goroutines = [Finished, Waiting], results = [check_result ''r1'' demo_request (split_claims ! 0)
      (Inl (errorf_w ''consent client: HTTP request failed: '' (new_error ''refused''))) (attempted_result demo_request ''sd:c'' (split_claims ! 0)),
      zero_result_of_check], checks_done = Some Canceled, phase_done = None\<rparr>"

lemma split_second:
  assumes "identifierCache s = []"
  shows "\<exists>s'. run_steps (scripted_env split_reply) ''r1'' demo_request demo_client ''sd:c'' split_claims
        [Start 1, Finish 1 no_bites] (split_first_run, s)
     = (split_first_run\<lparr>goroutines := [Finished, Finished], results := (results split_first_run)[1 := check_result ''r1'' demo_request (split_claims ! 1)
           (Inr \<lparr>Decision = DecisionDeny, Reason = ''no user identifier for subject''\<rparr>) (attempted_result demo_request ''sd:c'' (split_claims ! 1))]\<rparr>, s')"
  using assms by (simp add: two_steps split_b [simplified] attempted_result_def split_first_run_def)

lemma split_idle:
  "run_steps env key ctx client sd cs [Finish 0 b, Finish 1 b'] (start_run split_claims, s) = (start_run split_claims, s)"
  by (simp add: split_start owner_step_def)

text \<open>
  C34.  The verdict can depend on which check finishes first: with one owner whose check fails and one who
  refuses, under a fail-open policy, the response is denied if the refusal arrives and released if the
  failure cancels the other check before it starts.
\<close>

theorem verdict_depends_on_schedule:
  "split_verdict [] = decisionDeny \<and> split_verdict [Start 0, Finish 0 no_bites, Give_Up 1] = decisionAllow"
proof
  obtain s1 where f: "run_steps (scripted_env split_reply) ''r1'' demo_request demo_client ''sd:c'' split_claims [Start 0, Finish 0 no_bites]
      (start_run split_claims, demo_state 0) = (split_first_run, s1)" "identifierCache s1 = []"
    using split_first [of "demo_state 0"] by (auto simp: demo_state_def split_first_run_def)
  obtain s2 where g: "run_steps (scripted_env split_reply) ''r1'' demo_request demo_client ''sd:c'' split_claims
        [Start 1, Finish 1 no_bites] (split_first_run, s1)
     = (split_first_run\<lparr>goroutines := [Finished, Finished], results := (results split_first_run)[1 := check_result ''r1'' demo_request (split_claims ! 1)
           (Inr \<lparr>Decision = DecisionDeny, Reason = ''no user identifier for subject''\<rparr>) (attempted_result demo_request ''sd:c'' (split_claims ! 1))]\<rparr>, s2)"
    using split_second [OF f(2)] by blast
  have rem: "remaining_steps 2 = ([Finish 0 no_bites, Finish 1 no_bites] @ [Start 0, Finish 0 no_bites]) @ [Start 1, Finish 1 no_bites]"
    by (simp add: two_remaining)
  have "fst (run_steps (scripted_env split_reply) ''r1'' demo_request demo_client ''sd:c'' split_claims (remaining_steps 2)
       (start_run split_claims, demo_state 0)) = split_first_run\<lparr>goroutines := [Finished, Finished], results := (results split_first_run)[1 := check_result ''r1'' demo_request (split_claims ! 1)
           (Inr \<lparr>Decision = DecisionDeny, Reason = ''no user identifier for subject''\<rparr>) (attempted_result demo_request ''sd:c'' (split_claims ! 1))]\<rparr>"
    unfolding rem run_steps_append split_idle f(1) g by simp
  then show "split_verdict [] = decisionDeny"
    by (auto simp: split_verdict_def checkOwners_def split_length reduceOwnerResults_def split_first_run_def result_defs split: prod.splits)
  have "run_steps (scripted_env split_reply) ''r1'' demo_request demo_client ''sd:c'' split_claims
      ([Start 0, Finish 0 no_bites] @ Give_Up 1 # remaining_steps 2) (start_run split_claims, demo_state 0)
      = (split_first_run\<lparr>goroutines := [Finished, Finished]\<rparr>, s1)"
    unfolding run_steps_append f two_remaining by (simp add: owner_step_def split_first_run_def)
  then show "split_verdict [Start 0, Finish 0 no_bites, Give_Up 1] = decisionAllow"
    by (simp add: split_verdict_def checkOwners_def split_length reduceOwnerResults_def split_first_run_def result_defs
        errors_is_def errorf_w_def new_error_def failOutcome_def failModeForError_def IsFailOpen_def consulted_def)
qed

end
