(* ===== verification/Owner_Claims.thy ===== *)
theory Owner_Claims
  imports Owners
begin

text \<open>
  The claims that are checked: \<open>distinctClaims\<close> against its specification, what it loses, and the check of
  the purposes.
\<close>

section \<open>Distinct claims\<close>

text \<open>The first of the elements with each key, in order.\<close>

fun first_by :: "('a \<Rightarrow> 'k) \<Rightarrow> 'a list \<Rightarrow> 'a list" where
  "first_by k [] = []"
| "first_by k (x # xs) = x # filter (\<lambda>y. k y \<noteq> k x) (first_by k xs)"

definition claim_pair :: "claim \<Rightarrow> string \<times> string" where
  "claim_pair c = (cl_OwnerID c, cl_DataResource c)"

definition to_owner_claim :: "claim \<Rightarrow> owner_claim" where
  "to_owner_claim c = \<lparr>ow_owner = cl_OwnerID c, ow_dataResource = cl_DataResource c, ow_purpose = cl_Purpose c\<rparr>"

lemma set_first_by: "k ` set (first_by k xs) = k ` set xs"
proof (induction xs)
  case (Cons x xs)
  have "k ` {y \<in> set (first_by k xs). k y \<noteq> k x} = k ` set (first_by k xs) - {k x}" by auto
  with Cons show ?case by simp
qed simp

lemma first_by_subset: "set (first_by k xs) \<subseteq> set xs"
  by (induction xs) auto

lemma distinct_first_by: "distinct (map k (first_by k xs))"
  by (induction xs) (auto simp: distinct_map_filter)

lemma distinct_loop_nameless: "\<exists>c\<in>set cs. cl_OwnerID c = [] \<Longrightarrow> distinct_loop seen cs found = Inl no_owner_error"
  by (induction cs arbitrary: seen found) (auto simp: Let_def)

lemma distinct_loop_Cons:
  "cl_OwnerID c \<noteq> [] \<Longrightarrow> distinct_loop seen (c # cs) found =
     (if claim_pair c \<in> set seen then distinct_loop seen cs found
      else distinct_loop (claim_pair c # seen) cs (found @ [to_owner_claim c]))"
  by (simp add: claim_pair_def to_owner_claim_def Let_def)

lemma distinct_loop_named:
  "\<forall>c\<in>set cs. cl_OwnerID c \<noteq> [] \<Longrightarrow>
   distinct_loop seen cs found
     = Inr (found @ map to_owner_claim (filter (\<lambda>c. claim_pair c \<notin> set seen) (first_by claim_pair cs)))"
proof (induction cs arbitrary: seen found)
  case (Cons c cs)
  have c: "cl_OwnerID c \<noteq> []" and cs: "\<forall>c\<in>set cs. cl_OwnerID c \<noteq> []" using Cons.prems by auto
  show ?case
  proof (cases "claim_pair c \<in> set seen")
    case True
    then have "filter (\<lambda>x. claim_pair x \<notin> set seen \<and> claim_pair x \<noteq> claim_pair c) (first_by claim_pair cs)
        = filter (\<lambda>x. claim_pair x \<notin> set seen) (first_by claim_pair cs)"
      by (intro filter_cong) auto
    with True Cons.IH [OF cs] c show ?thesis by (simp add: distinct_loop_Cons conj_commute del: distinct_loop.simps)
  next
    case False
    with Cons.IH [OF cs] c show ?thesis by (simp add: distinct_loop_Cons conj_commute del: distinct_loop.simps)
  qed
qed simp

text \<open>
  C26.  The claims to check are the resolver's claims with one entry per owner and data resource, the first
  in its order; a claim that names no owner is an error, whatever the other claims are.
\<close>

theorem distinctClaims_spec:
  "distinctClaims cs =
     (if \<exists>c\<in>set cs. cl_OwnerID c = [] then Inl no_owner_error else Inr (map to_owner_claim (first_by claim_pair cs)))
   \<and> distinct (map claim_pair (first_by claim_pair cs)) \<and> claim_pair ` set (first_by claim_pair cs) = claim_pair ` set cs"
  using distinct_loop_nameless [of cs "[]" "[]"] distinct_loop_named [of cs "[]" "[]"]
  by (auto simp: distinctClaims_def distinct_first_by set_first_by)

text \<open>A claim whose owner and resource came before is ignored.\<close>

lemma first_by_drop:
  "filter (\<lambda>z. k z \<noteq> k y) (first_by k (xs @ y # ys)) = filter (\<lambda>z. k z \<noteq> k y) (first_by k (xs @ ys))"
proof (induction xs)
  case (Cons x xs)
  have c: "filter (\<lambda>z. k z \<noteq> k y) (filter (\<lambda>z. k z \<noteq> k x) zs) = filter (\<lambda>z. k z \<noteq> k x) (filter (\<lambda>z. k z \<noteq> k y) zs)" for zs
    by (induction zs) auto
  show ?case using Cons by (simp add: c del: filter_filter)
qed simp

lemma first_by_repeated: "k y \<in> k ` set xs \<Longrightarrow> first_by k (xs @ y # ys) = first_by k (xs @ ys)"
proof (induction xs)
  case (Cons x xs)
  show ?case
  proof (cases "k y = k x")
    case True
    with first_by_drop [of k y xs ys] show ?thesis by simp
  next
    case False
    with Cons show ?thesis by simp
  qed
qed simp

lemma distinctClaims_repeated:
  assumes "claim_pair c' \<in> claim_pair ` set cs"
  shows "distinctClaims (cs @ c' # ds) = distinctClaims (cs @ ds)"
proof -
  have "(\<exists>c\<in>set (cs @ c' # ds). cl_OwnerID c = []) \<longleftrightarrow> (\<exists>c\<in>set (cs @ ds). cl_OwnerID c = [])"
  proof -
    obtain c where "c \<in> set cs" "cl_OwnerID c' = cl_OwnerID c" using assms by (auto simp: claim_pair_def)
    then show ?thesis by auto
  qed
  with first_by_repeated [OF assms, of ds] distinct_loop_nameless [of "cs @ c' # ds" "[]" "[]"] distinct_loop_named [of "cs @ c' # ds" "[]" "[]"]
    distinct_loop_nameless [of "cs @ ds" "[]" "[]"] distinct_loop_named [of "cs @ ds" "[]" "[]"]
  show ?thesis unfolding distinctClaims_def by metis
qed

section \<open>Purposes\<close>

lemma checkPurposeScoping_None:
  "checkPurposeScoping env cfg key cs s = (oc, s') \<Longrightarrow>
   oc = None \<longleftrightarrow> \<not> RequirePurpose cfg \<or> (\<forall>c\<in>set cs. ow_purpose c \<noteq> [])"
  by (induction env cfg key cs s rule: checkPurposeScoping.induct) (auto split: if_splits)

lemma checkPurposeScoping_Some:
  "checkPurposeScoping env cfg key cs s = (Some oc, s') \<Longrightarrow>
   oc = failOutcome cfg FailAlwaysClosed ''resolved claim without a processing purpose'' key None"
  by (induction env cfg key cs s rule: checkPurposeScoping.induct) (auto split: if_splits)

end
