(* ===== verification/Jwt.thy ===== *)
theory Jwt
  imports Sample_Runs
begin

text \<open>
  The bearer token and its claims, \<open>internal/jwt/extractor.go\<close>: the Authorization header value, the
  three parts of the token, the base64url payload and the claims it holds.  Claims are values of Go's
  \<open>interface{}\<close>: JSON values whose objects are maps (the last duplicate wins) and whose numbers fit a
  float64.
\<close>

section \<open>Decoding into interface values\<close>

text \<open>
  A number literal is \<open>M * 10 ^ E\<close> for the digits \<open>M\<close>; it overflows a float64 when it rounds past
  the largest finite value.
\<close>

definition num_exponent :: "string \<Rightarrow> int" where
  "num_exponent n =
     (let e = drop 1 (dropWhile (\<lambda>c. c \<noteq> CHR ''e'' \<and> c \<noteq> CHR ''E'') n);
          d = int (read_nat (filter is_digit e))
      in if take 1 e = ''-'' then - d else d)"

definition num_digits :: "string \<Rightarrow> string" where
  "num_digits n = takeWhile (\<lambda>c. c \<noteq> CHR ''e'' \<and> c \<noteq> CHR ''E'') n"

definition float_overflow :: "string \<Rightarrow> bool" where
  "float_overflow n =
     (let m = int (read_nat (filter is_digit (num_digits n)));
          frac = length (drop 1 (dropWhile (\<lambda>c. c \<noteq> CHR ''.'') (num_digits n)));
          e = num_exponent n - int frac;
          bound = 2 ^ 1024 - 2 ^ 970
      in if e \<ge> 0 then m * 10 ^ nat e \<ge> bound else m \<ge> bound * 10 ^ nat (- e))"

fun any_value :: "json \<Rightarrow> json option"
and any_values :: "json list \<Rightarrow> json list option"
and any_members :: "(string \<times> json) list \<Rightarrow> (string \<times> json) list \<Rightarrow> (string \<times> json) list option" where
  "any_value (JNum n) = (if float_overflow n then None else Some (JNum n))"
| "any_value (JArr vs) = map_option JArr (any_values vs)"
| "any_value (JObj ms) = map_option JObj (any_members ms [])"
| "any_value v = Some v"
| "any_values [] = Some []"
| "any_values (v # vs) =
     (case any_value v of None \<Rightarrow> None | Some x \<Rightarrow> map_option (\<lambda>xs. x # xs) (any_values vs))"
| "any_members [] m = Some m"
| "any_members ((k, v) # ms) m = (case any_value v of None \<Rightarrow> None | Some x \<Rightarrow> any_members ms (gset k x m))"

definition dec_claims :: "((string \<times> json) list) decoder" where
  "dec_claims v old = (case v of JNull \<Rightarrow> Some [] | JObj ms \<Rightarrow> any_members ms old | _ \<Rightarrow> None)"

section \<open>Token and claims\<close>

definition bearerPrefix :: string where "bearerPrefix = ''Bearer ''"

definition ExtractToken :: "string \<Rightarrow> gerror + string" where
  "ExtractToken headerValue =
     (if headerValue = [] then Inl (new_error ''jwt extraction: header value is empty'')
      else if \<not> has_prefix headerValue bearerPrefix
        then Inl (new_error ''jwt extraction: missing Bearer prefix'')
      else
        let token = trim_prefix headerValue bearerPrefix
        in if token = [] then Inl (new_error ''jwt extraction: token is empty after removing Bearer prefix'')
           else Inr token)"

text \<open>The claims that were asked for, in the order of the keys.\<close>

fun pick_claims :: "string list \<Rightarrow> (string \<times> json) list \<Rightarrow> (string \<times> json) list \<Rightarrow> (string \<times> json) list" where
  "pick_claims [] allClaims result = result"
| "pick_claims (key # keys) allClaims result =
     pick_claims keys allClaims
       (case map_of allClaims key of Some val \<Rightarrow> gset key val result | None \<Rightarrow> result)"

definition DecodeClaims :: "'w env \<Rightarrow> string \<Rightarrow> string list \<Rightarrow> gerror + (string \<times> json) list" where
  "DecodeClaims env token claimKeys =
     (let parts = split CHR ''.'' token
      in if length parts \<noteq> 3
         then Inl (new_error (''jwt decoding: expected 3 parts, got '' @ show_nat (length parts)))
         else
           (case b64url_decode (parts ! 1) of
              None \<Rightarrow> Inl (new_error (''jwt decoding: failed to base64url-decode payload: ''
                              @ json_error env ''base64'' (parts ! 1)))
            | Some decoded \<Rightarrow>
                (case json_unmarshal env ''map[string]interface {}'' dec_claims decoded [] of
                   Inl e \<Rightarrow> Inl (errorf_w ''jwt decoding: failed to parse payload JSON: '' e)
                 | Inr allClaims \<Rightarrow>
                     if claimKeys = [] then Inr allClaims
                     else Inr (pick_claims claimKeys allClaims []))))"

section \<open>Facts\<close>

lemma b64url_encode_no_dot: "CHR ''.'' \<notin> set (b64url_encode s)"
proof -
  have d: "b64_char v \<noteq> CHR ''.''" if "v < 64" for v
  proof
    assume "b64_char v = CHR ''.''"
    with b64_val_char [OF that] show False by (simp add: b64_val_def in_range_def code_def)
  qed
  show ?thesis
    by (induction s rule: b64url_encode.induct) (use d [symmetric] six_bits in auto)
qed

lemma map_of_pick_claims:
  "map_of (pick_claims keys all result) k =
     (if k \<in> set keys \<and> map_of all k \<noteq> None then map_of all k else map_of result k)"
  by (induction keys arbitrary: result) (auto split: option.splits)

lemma any_members_wf: "any_members ms m = Some m' \<Longrightarrow> wf_map m \<Longrightarrow> wf_map m'"
  by (induction ms arbitrary: m) (auto split: option.splits prod.splits)

text \<open>Decoding is the same for every list of keys, up to the final selection.\<close>

definition payload_claims :: "'w env \<Rightarrow> string \<Rightarrow> gerror + (string \<times> json) list" where
  "payload_claims env token = DecodeClaims env token []"

lemma DecodeClaims_select:
  "DecodeClaims env token keys =
     (case payload_claims env token of
        Inl e \<Rightarrow> Inl e
      | Inr all \<Rightarrow> Inr (if keys = [] then all else pick_claims keys all []))"
  unfolding payload_claims_def DecodeClaims_def Let_def
  by (simp split: option.split sum.split)

lemma payload_claims_wf:
  assumes "payload_claims env token = Inr all"
  shows "wf_map all"
proof -
  obtain decoded where "json_unmarshal env ''map[string]interface {}'' dec_claims decoded [] = Inr all"
    using assms by (simp add: payload_claims_def DecodeClaims_def Let_def split: if_splits option.splits sum.splits)
  then obtain v where "dec_claims v [] = Some all"
    by (auto simp: json_unmarshal_def unmarshal_def split: option.splits)
  then show ?thesis using any_members_wf [of _ "[]" all] by (auto simp: dec_claims_def split: json.splits)
qed

lemma wf_pick_claims: "wf_map result \<Longrightarrow> wf_map (pick_claims keys all result)"
  by (induction keys arbitrary: result) (auto split: option.splits)

section \<open>Claims\<close>

text \<open>
  A token is extracted from exactly the header values that are the Bearer prefix followed by a
  non-empty token, and it is that token.
\<close>

theorem ExtractToken_iff:
  "ExtractToken h = Inr token \<longleftrightarrow> h = ''Bearer '' @ token \<and> token \<noteq> []"
proof -
  have ne: "bearerPrefix \<noteq> []" by (simp add: bearerPrefix_def)
  have "ExtractToken h = Inr token \<longleftrightarrow> h = bearerPrefix @ token \<and> token \<noteq> []"
    using ne by (auto simp: ExtractToken_def Let_def has_prefix_iff)
  then show ?thesis by (simp only: bearerPrefix_def)
qed

text \<open>
  C28.  A token whose payload is the base64url encoding of a JSON object decodes to that object's
  claims, restricted to the requested keys when there are any: nothing else reaches the response phase.
\<close>

theorem DecodeClaims_roundtrip:
  assumes "CHR ''.'' \<notin> set header" and "CHR ''.'' \<notin> set signature"
    and "json_parse payload = Some (JObj ms)" and "any_members ms [] = Some all"
  shows "\<exists>claims. DecodeClaims env (header @ ''.'' @ b64url_encode payload @ ''.'' @ signature) keys = Inr claims
    \<and> wf_map claims
    \<and> (\<forall>k. map_of claims k = (if keys = [] \<or> k \<in> set keys then map_of all k else None))"
proof -
  have "CHR ''.'' \<notin> set (b64url_encode payload)" by (rule b64url_encode_no_dot)
  with assms(1,2) have "split CHR ''.'' (header @ ''.'' @ b64url_encode payload @ ''.'' @ signature)
      = [header, b64url_encode payload, signature]"
    by (simp add: split_append split_no_sep)
  moreover have "json_unmarshal env ''map[string]interface {}'' dec_claims payload [] = Inr all"
    using assms(3,4) by (simp add: json_unmarshal_def unmarshal_def dec_claims_def)
  ultimately have p: "payload_claims env (header @ ''.'' @ b64url_encode payload @ ''.'' @ signature) = Inr all"
    by (simp add: payload_claims_def DecodeClaims_def b64_roundtrip)
  then show ?thesis
    using payload_claims_wf [OF p] wf_pick_claims [of "[]" keys all]
    by (auto simp: DecodeClaims_select map_of_pick_claims)
qed

theorem DecodeClaims_roundtrip_witness:
  "\<exists>claims. DecodeClaims (scripted_env demo_reply) (''h'' @ ''.'' @ b64url_encode ''{\"iss\":\"did:x\"}'' @ ''.'' @ ''s'') [''iss''] = Inr claims
    \<and> map_of claims ''iss'' = Some (JStr ''did:x'')"
proof -
  have j: "json_parse ''{\"iss\":\"did:x\"}'' = Some (JObj [(''iss'', JStr ''did:x'')])" by code_simp
  have a: "any_members [(''iss'', JStr ''did:x'')] [] = Some [(''iss'', JStr ''did:x'')]" by (simp add: gset_def)
  show ?thesis
    using DecodeClaims_roundtrip [of "''h''" "''s''", OF _ _ j a, of "scripted_env demo_reply" "[''iss'']"] by auto
qed

end
