(* ===== verification/Claim_Path.thy ===== *)
theory Claim_Path
  imports Jwt Config
begin

text \<open>
  Claim paths of \<open>internal/plugin/consent.go\<close>: the parsing of one segment with its array indices, the
  walk from the decoded claims to the consuming participant, and the claims the request phase must
  decode for that walk.
\<close>

section \<open>Segments\<close>

lemma cut_remainder_less: "cut c s = (b, a, True) \<Longrightarrow> length a < length s"
  using cut_found [of c s b a] by auto

text \<open>The loop over the bracketed indices; \<open>rest\<close> is what follows an opening bracket.\<close>

function parse_indices :: "'w env \<Rightarrow> string \<Rightarrow> string \<Rightarrow> int list \<Rightarrow> gerror + int list" where
  "parse_indices env segment rest indices =
     (if rest = [] then Inr indices
      else (case cut CHR '']'' rest of
         (digits, remainder, closed) \<Rightarrow>
           if \<not> closed
           then Inl (new_error (''claim path segment '' @ quote env segment @ '': unterminated '' @ quote env ''[''))
           else (case atoi digits of
                   None \<Rightarrow> Inl (new_error (''claim path segment '' @ quote env segment @ '': '' @ quote env digits
                                  @ '' is not an array index''))
                 | Some index \<Rightarrow>
                     if index < 0
                     then Inl (new_error (''claim path segment '' @ quote env segment @ '': '' @ quote env digits
                                 @ '' is not an array index''))
                     else if remainder = [] then Inr (indices @ [index])
                     else if \<not> has_prefix remainder ''[''
                     then Inl (new_error (''claim path segment '' @ quote env segment @ '': unexpected ''
                                 @ quote env remainder @ '' after an index''))
                     else parse_indices env segment (trim_prefix remainder ''['') (indices @ [index]))))"
  by pat_completeness auto

termination
  by (relation "measure (\<lambda>(_, _, rest, _). length rest)")
     (auto simp: trim_prefix_def dest!: cut_remainder_less sym [of _ "cut _ _"])

declare parse_indices.simps [simp del]

definition parseClaimSegment :: "'w env \<Rightarrow> string \<Rightarrow> gerror + string \<times> int list" where
  "parseClaimSegment env segment =
     (case cut CHR ''['' segment of
        (name, rest, found) \<Rightarrow>
          if \<not> found then Inr (segment, [])
          else (case parse_indices env segment rest [] of
                  Inl e \<Rightarrow> Inl e
                | Inr indices \<Rightarrow> Inr (name, indices)))"

definition claimPathRoot :: "string \<Rightarrow> string" where
  "claimPathRoot path =
     (let root = fst (cut CHR ''.'' path)
      in (case cut CHR ''['' root of (name, _, found) \<Rightarrow> if found then name else root))"

section \<open>The walk\<close>

definition descendIntoObject :: "json \<Rightarrow> (string \<times> json) list option" where
  "descendIntoObject node =
     (let object = (\<lambda>n. case n of JObj ms \<Rightarrow> Some ms | _ \<Rightarrow> None)
      in (case node of
            JArr [] \<Rightarrow> None
          | JArr (x # _) \<Rightarrow> object x
          | _ \<Rightarrow> object node))"

fun walk_indices :: "'w env \<Rightarrow> string \<Rightarrow> string \<Rightarrow> int list \<Rightarrow> json \<Rightarrow> gerror + json" where
  "walk_indices env path name [] current = Inr current"
| "walk_indices env path name (index # indices) current =
     (case current of
        JArr array \<Rightarrow>
          if index \<ge> int (length array)
          then Inl (new_error (''claim path '' @ quote env path @ '': index '' @ itoa index @ '' is out of range (''
                      @ show_nat (length array) @ '' element(s))''))
          else walk_indices env path name indices (array ! nat index)
      | _ \<Rightarrow> Inl (new_error (''claim path '' @ quote env path @ '': '' @ quote env name @ '' is not an array'')))"

definition walk_name :: "'w env \<Rightarrow> string \<Rightarrow> string \<Rightarrow> string \<Rightarrow> json \<Rightarrow> gerror + json" where
  "walk_name env path segment name current =
     (if name = [] then Inr current
      else (case descendIntoObject current of
              None \<Rightarrow> Inl (new_error (''claim path '' @ quote env path @ '': '' @ quote env segment @ '' is not an object''))
            | Some node \<Rightarrow>
                (case map_of node name of
                   None \<Rightarrow> Inl (new_error (''claim path '' @ quote env path @ '': no claim '' @ quote env name))
                 | Some v \<Rightarrow> Inr v)))"

fun walk_segments :: "'w env \<Rightarrow> string \<Rightarrow> string list \<Rightarrow> json \<Rightarrow> gerror + json" where
  "walk_segments env path [] current = Inr current"
| "walk_segments env path (segment # segments) current =
     (case parseClaimSegment env segment of
        Inl e \<Rightarrow> Inl e
      | Inr (name, indices) \<Rightarrow>
          (case walk_name env path segment name current of
             Inl e \<Rightarrow> Inl e
           | Inr c1 \<Rightarrow>
               (case walk_indices env path name indices c1 of
                  Inl e \<Rightarrow> Inl e
                | Inr c2 \<Rightarrow> walk_segments env path segments c2)))"

definition claim_path_unset :: gerror where
  "claim_path_unset = sentinel_error ClaimPathUnset ''consumer_claim is not configured''"

definition consumerFromClaims :: "'w env \<Rightarrow> (string \<times> json) list \<Rightarrow> string \<Rightarrow> gerror + string" where
  "consumerFromClaims env claims path =
     (if path = [] then Inl claim_path_unset
      else if claims = [] then Inl (new_error ''no claims decoded from the token'')
      else (case walk_segments env path (split CHR ''.'' path) (JObj claims) of
              Inl e \<Rightarrow> Inl e
            | Inr current \<Rightarrow>
                (case current of
                   JStr value \<Rightarrow>
                     if value \<noteq> [] then Inr value
                     else Inl (new_error (''claim path '' @ quote env path @ '' did not resolve to a non-empty string''))
                 | _ \<Rightarrow> Inl (new_error (''claim path '' @ quote env path @ '' did not resolve to a non-empty string'')))))"

text \<open>The claims the request phase decodes; an empty list means all of them.\<close>

definition claimKeysToDecode :: "config \<Rightarrow> string list" where
  "claimKeysToDecode cfg =
     (if JWTClaimsToForward cfg = [] then []
      else if ConsumerClaim cfg = [] then JWTClaimsToForward cfg
      else
        let root = claimPathRoot (ConsumerClaim cfg)
        in if List.member (JWTClaimsToForward cfg) root then JWTClaimsToForward cfg
           else JWTClaimsToForward cfg @ [root])"

end
