(* ===== verification/Bounded_Sink.thy ===== *)
theory Bounded_Sink
  imports Prelude "HOL-Library.Sublist"
begin

text \<open>
  The interface of a bounded asynchronous sink: producers offer events and never wait, a worker step
  delivers some of the pending ones.  An event is taken in at the end or counted as lost; a step
  delivers a prefix of what is pending.  The lemmas account for every event of every interleaving.
\<close>

datatype ('e, 'w) sink_op = Offer 'e | Work 'w

fun offered :: "('e, 'w) sink_op list \<Rightarrow> 'e list" where
  "offered [] = []"
| "offered (Offer e # ops) = e # offered ops"
| "offered (Work w # ops) = offered ops"

locale bounded_sink =
  fixes pending :: "'q \<Rightarrow> 'e list"
    and lost :: "'q \<Rightarrow> 64 word"
    and intake :: "'e \<Rightarrow> 'e"
    and offer :: "'e \<Rightarrow> 'q \<Rightarrow> 'q"
    and work :: "'w \<Rightarrow> 'q \<Rightarrow> 'e list \<times> 'q"
  assumes offer_law: "pending (offer e q) = pending q @ [intake e] \<and> lost (offer e q) = lost q
      \<or> pending (offer e q) = pending q \<and> lost (offer e q) = lost q + 1"
    and work_law: "work w q = (out, q') \<Longrightarrow> out @ pending q' = pending q \<and> lost q' = lost q"
begin

fun run :: "('e, 'w) sink_op list \<Rightarrow> 'q \<Rightarrow> 'e list \<times> 'q" where
  "run [] q = ([], q)"
| "run (Offer e # ops) q = run ops (offer e q)"
| "run (Work w # ops) q =
     (case work w q of (out, q1) \<Rightarrow> (case run ops q1 of (out', q2) \<Rightarrow> (out @ out', q2)))"

lemma run_accounts:
  "run ops q = (out, q') \<Longrightarrow>
   \<exists>taken. subseq taken (map intake (offered ops)) \<and> out @ pending q' = pending q @ taken
     \<and> lost q' = lost q + word_of_nat (length (offered ops) - length taken)"
proof (induction ops arbitrary: q out)
  case Nil
  then show ?case by (intro exI [of _ "[]"]) simp
next
  case (Cons p ops)
  show ?case
  proof (cases p)
    case (Offer e)
    with Cons.prems have r: "run ops (offer e q) = (out, q')" by simp
    from Cons.IH [OF r] obtain taken where t: "subseq taken (map intake (offered ops))"
      "out @ pending q' = pending (offer e q) @ taken"
      "lost q' = lost (offer e q) + word_of_nat (length (offered ops) - length taken)" by blast
    have le: "length taken \<le> length (offered ops)" using list_emb_length [OF t(1)] by simp
    from offer_law [of e q] show ?thesis
    proof
      assume "pending (offer e q) = pending q @ [intake e] \<and> lost (offer e q) = lost q"
      with t Offer show ?thesis by (intro exI [of _ "intake e # taken"]) simp
    next
      assume "pending (offer e q) = pending q \<and> lost (offer e q) = lost q + 1"
      with t Offer le show ?thesis by (intro exI [of _ taken]) (simp add: Suc_diff_le list_emb_Cons)
    qed
  next
    case (Work w)
    obtain o1 q1 where w: "work w q = (o1, q1)" by fastforce
    obtain o2 where r: "run ops q1 = (o2, q')" and out: "out = o1 @ o2"
      using Cons.prems Work w by (auto split: prod.splits)
    from Cons.IH [OF r] work_law [OF w] Work out show ?thesis by auto
  qed
qed

text \<open>Nothing is invented, repeated or reordered.\<close>

lemma delivered_in_order:
  assumes "run ops q = (out, q')" and "pending q = []"
  shows "subseq (out @ pending q') (map intake (offered ops))"
  using run_accounts [OF assms(1)] assms(2) by auto

end

end
