(* ===== verification/Headers.thy ===== *)
theory Headers
  imports Runtime
begin

text \<open>
  Header names of \<open>net/http\<close>: the canonical form under which \<open>Header.Get\<close>, \<open>Set\<close> and \<open>Del\<close> look a name up.
\<close>

definition to_upper :: "char \<Rightarrow> char" where
  "to_upper c = (if in_range 97 122 (code c) then byte (code c - 32) else c)"

definition token_char :: "char \<Rightarrow> bool" where
  "token_char c \<longleftrightarrow> is_letter c \<or> is_digit c \<or> c \<in> set ''!#$%&*+-.^_`|~'' \<or> c = CHR 0x27"

text \<open>The first letter, and each letter after a hyphen, in upper case; the others in lower case.\<close>

fun canonical_chars :: "bool \<Rightarrow> string \<Rightarrow> string" where
  "canonical_chars up [] = []"
| "canonical_chars up (c # cs) = (if up then to_upper c else to_lower c) # canonical_chars (c = CHR ''-'') cs"

definition CanonicalHeaderKey :: "string \<Rightarrow> string" where
  "CanonicalHeaderKey name = (if list_all token_char name then canonical_chars True name else name)"

lemma to_lower_cases: "to_lower c = c \<or> in_range 65 90 (code c) \<and> to_lower c = byte (code c + 32)"
  by (simp add: to_lower_def)

lemma code_to_upper: "code (to_upper c) = (if in_range 97 122 (code c) then code c - 32 else code c)"
  by (auto simp: to_upper_def in_range_def)

lemma code_to_lower: "code (to_lower c) = (if in_range 65 90 (code c) then code c + 32 else code c)"
  by (auto simp: to_lower_def in_range_def)

lemma code_eqI: "code a = code b \<Longrightarrow> a = b"
  by (metis code_def of_char_eq_iff)

lemma hyphen_code: "c = CHR ''-'' \<longleftrightarrow> code c = 45"
proof
  assume "code c = 45"
  then have "code c = code CHR ''-''" by (simp add: code_def)
  then show "c = CHR ''-''" by (rule code_eqI)
qed (simp add: code_def)

lemma recase_hyphen: "to_upper c = CHR ''-'' \<longleftrightarrow> c = CHR ''-''" "to_lower c = CHR ''-'' \<longleftrightarrow> c = CHR ''-''"
  by (auto simp: hyphen_code code_to_upper code_to_lower in_range_def)

lemma recase_twice [simp]:
  "to_upper (to_upper c) = to_upper c" "to_lower (to_lower c) = to_lower c"
  by (auto intro!: code_eqI simp: code_to_upper code_to_lower in_range_def)

lemma canonical_chars_idem: "canonical_chars up (canonical_chars up cs) = canonical_chars up cs"
  by (induction up cs rule: canonical_chars.induct) (simp_all add: recase_hyphen)

lemma token_recase: "token_char c \<Longrightarrow> token_char (to_upper c) \<and> token_char (to_lower c)"
  by (auto simp: token_char_def to_upper_def to_lower_def is_letter_def in_range_def)

lemma token_canonical: "list_all token_char cs \<Longrightarrow> list_all token_char (canonical_chars up cs)"
  by (induction up cs rule: canonical_chars.induct) (auto simp: token_recase)

lemma CanonicalHeaderKey_idem [simp]: "CanonicalHeaderKey (CanonicalHeaderKey name) = CanonicalHeaderKey name"
  by (simp add: CanonicalHeaderKey_def canonical_chars_idem token_canonical)

end
