(* ===== verification/Audit_Log.thy ===== *)
theory Audit_Log
  imports Metrics Bounded_Sink Headers
begin

text \<open>
  The audit log of \<open>internal/audit/audit.go\<close>: emitters with a bounded queue and a background worker
  that batches events and exports them as OTLP log records.  Emitters are heap objects shared through a
  map from their configuration's key; the worker is a step function of what it wakes up for, so every
  scheduling of it is a sequence of steps.
\<close>

section \<open>State\<close>

record audit_config =
  ac_Endpoint :: string
  ac_ServiceName :: string
  ac_Timeout :: duration
  ac_Headers :: "(string \<times> string) list"

record event =
  ev_Time :: time
  ev_RequestID :: string
  ev_Subject :: string
  ev_Resource :: string
  ev_Method :: string
  ev_Decision :: string
  ev_Reason :: string

record emitter =
  em_endpoint :: string
  em_serviceName :: string
  em_headers :: "(string \<times> string) list"
  em_timeout :: duration
  em_queue :: "event list"
  em_batch :: "event list"     \<comment> \<open>the worker's variable\<close>
  em_dropped :: "64 word"
  em_done :: bool
  em_stopped :: bool

record 'w audit_proc = "'w metrics_proc" +
  emitter_heap :: "emitter list"
  emitters :: "(string \<times> nat) list"

definition DefaultServiceName :: string where "DefaultServiceName = ''consent-access-audit''"
definition scopeName :: string where "scopeName = ''consent-plugin/audit''"
definition otlpLogsPath :: string where "otlpLogsPath = ''/v1/logs''"
definition severityInfo :: nat where "severityInfo = 9"
definition defaultQueueSize :: nat where "defaultQueueSize = 2048"
definition defaultBatchSize :: nat where "defaultBatchSize = 64"
definition audit_defaultTimeout :: duration where "audit_defaultTimeout = 5 * second"
definition droppedLogEvery :: "64 word" where "droppedLogEvery = 100"

section \<open>Configuration keys\<close>

definition serviceName :: "audit_config \<Rightarrow> string" where
  "serviceName c = (if ac_ServiceName c = [] then DefaultServiceName else ac_ServiceName c)"

text \<open>
  \<open>time.Duration.String\<close>: a fraction of \<open>prec\<close> digits without its trailing zeros, and hours, minutes
  and seconds, or a smaller unit below one second.
\<close>

definition pad_digits :: "nat \<Rightarrow> nat \<Rightarrow> string" where
  "pad_digits prec n = (let ds = show_nat n in replicate (prec - length ds) CHR ''0'' @ ds)"

definition fraction_text :: "nat \<Rightarrow> nat \<Rightarrow> string" where
  "fraction_text prec n =
     (let ds = rev (dropWhile (\<lambda>c. c = CHR ''0'') (rev (pad_digits prec n)))
      in if ds = [] then [] else CHR ''.'' # ds)"

definition unsigned_duration :: "nat \<Rightarrow> string" where
  "unsigned_duration u =
     (if u = 0 then ''0s''
      else if u < 1000 then show_nat u @ ''ns''
      else if u < 1000000 then show_nat (u div 1000) @ fraction_text 3 (u mod 1000) @ [byte 0xC2, byte 0xB5] @ ''s''
      else if u < 1000000000 then show_nat (u div 1000000) @ fraction_text 6 (u mod 1000000) @ ''ms''
      else
        let frac = fraction_text 9 (u mod 1000000000);
            secs = u div 1000000000; mins = secs div 60; hours = mins div 60
        in (if hours > 0 then show_nat hours @ ''h'' else [])
           @ (if mins > 0 then show_nat (mins mod 60) @ ''m'' else [])
           @ show_nat (secs mod 60) @ frac @ ''s'')"

definition duration_string :: "duration \<Rightarrow> string" where
  "duration_string d = (if d < 0 then CHR ''-'' # unsigned_duration (nat (- d)) else unsigned_duration (nat d))"

definition header_parts :: "(string \<times> string) list \<Rightarrow> string list" where
  "header_parts h =
     concat (map (\<lambda>name. [name, case map_of h name of None \<Rightarrow> [] | Some v \<Rightarrow> v]) (sorted_keys h))"

definition audit_key :: "audit_config \<Rightarrow> string" where
  "audit_key c = join [CHR 0x00]
     ([ac_Endpoint c, serviceName c, duration_string (ac_Timeout c)] @ header_parts (ac_Headers c))"

section \<open>Emitters\<close>

definition newEmitter :: "audit_config \<Rightarrow> emitter" where
  "newEmitter cfg =
     (let endpoint = trim_right CHR ''/'' (ac_Endpoint cfg)
      in \<lparr>em_endpoint = (if has_suffix endpoint otlpLogsPath then endpoint else endpoint @ otlpLogsPath),
          em_serviceName = serviceName cfg, em_headers = ac_Headers cfg,
          em_timeout = (if ac_Timeout cfg \<le> 0 then audit_defaultTimeout else ac_Timeout cfg),
          em_queue = [], em_batch = [], em_dropped = 0, em_done = False, em_stopped = False\<rparr>)"

definition Get :: "audit_config \<Rightarrow> ('w, 'z) audit_proc_scheme \<Rightarrow> nat \<times> ('w, 'z) audit_proc_scheme" where
  "Get cfg s =
     (case map_of (emitters s) (audit_key cfg) of
        Some e \<Rightarrow> (e, s)
      | None \<Rightarrow>
          (length (emitter_heap s),
           s\<lparr>emitter_heap := emitter_heap s @ [newEmitter cfg],
             emitters := gset (audit_key cfg) (length (emitter_heap s)) (emitters s)\<rparr>))"

definition SanitizeReason :: "string \<Rightarrow> string" where
  "SanitizeReason reason = Sanitize reason"

definition sanitized_event :: "event \<Rightarrow> event" where
  "sanitized_event ev = ev\<lparr>ev_Reason := SanitizeReason (ev_Reason ev)\<rparr>"

text \<open>The select of \<open>Emit\<close>: into the queue when it has room, else counted.\<close>

definition offer :: "event \<Rightarrow> emitter \<Rightarrow> emitter" where
  "offer ev e =
     (if length (em_queue e) < defaultQueueSize then e\<lparr>em_queue := em_queue e @ [sanitized_event ev]\<rparr>
      else e\<lparr>em_dropped := em_dropped e + 1\<rparr>)"

definition Emit :: "nat \<Rightarrow> event \<Rightarrow> ('w, 'z) audit_proc_scheme \<Rightarrow> ('w, 'z) audit_proc_scheme" where
  "Emit i ev s =
     (let e = emitter_heap s ! i; e' = offer ev e; s1 = s\<lparr>emitter_heap := (emitter_heap s)[i := e']\<rparr>
      in if em_dropped e' \<noteq> em_dropped e \<and> em_dropped e' mod droppedLogEvery = 1
         then logf Warn (''audit queue full, dropping event (total dropped '' @ itoa (uint (em_dropped e')) @ '')'') s1
         else s1)"

definition emitter_Dropped :: "emitter \<Rightarrow> 64 word" where
  "emitter_Dropped e = em_dropped e"

definition Dropped :: "('w, 'z) audit_proc_scheme \<Rightarrow> 64 word" where
  "Dropped s = sum_list (map (\<lambda>(_, i). emitter_Dropped (emitter_heap s ! i)) (emitters s))"

section \<open>The worker\<close>

text \<open>
  What one turn of the worker's loop wakes up for, and the batch it hands to \<open>export\<close>.  A wake-up
  that is not enabled (an empty queue, a channel that is not closed, a stopped worker) does nothing.
\<close>

datatype wake = Receive | Tick | Done

definition flush :: "emitter \<Rightarrow> event list \<times> emitter" where
  "flush e = (em_batch e, e\<lparr>em_batch := []\<rparr>)"

definition worker :: "wake \<Rightarrow> emitter \<Rightarrow> event list \<times> emitter" where
  "worker w e =
     (if em_stopped e then ([], e)
      else (case w of
          Receive \<Rightarrow>
            (case em_queue e of
               [] \<Rightarrow> ([], e)
             | ev # rest \<Rightarrow>
                 let e1 = e\<lparr>em_queue := rest, em_batch := em_batch e @ [ev]\<rparr>
                 in if length (em_batch e1) \<ge> defaultBatchSize then flush e1 else ([], e1))
        | Tick \<Rightarrow> flush e
        | Done \<Rightarrow>
            if \<not> em_done e then ([], e)
            else (case flush (e\<lparr>em_batch := em_batch e @ em_queue e, em_queue := []\<rparr>) of
                    (batch, e1) \<Rightarrow> (batch, e1\<lparr>em_stopped := True\<rparr>))))"

section \<open>Export\<close>

definition key_value :: "string \<Rightarrow> string \<Rightarrow> json" where
  "key_value k v = JObj [(''key'', JStr k), (''value'', JObj [(''stringValue'', json_string v)])]"

definition log_record :: "event \<Rightarrow> json" where
  "log_record ev =
     (let ts = JStr (itoa (i64 (ev_Time ev)))
      in JObj [(''timeUnixNano'', ts), (''observedTimeUnixNano'', ts),
               (''severityNumber'', JNum (show_nat severityInfo)), (''severityText'', JStr ''INFO''),
               (''body'', JObj [(''stringValue'', JStr ''consent access decision'')]),
               (''attributes'', JArr
                 [key_value ''event.domain'' ''audit'',
                  key_value ''event.name'' ''consent.access.decision'',
                  key_value ''consent.decision'' (ev_Decision ev),
                  key_value ''consent.reason'' (ev_Reason ev),
                  key_value ''enduser.id'' (ev_Subject ev),
                  key_value ''http.request.method'' (ev_Method ev),
                  key_value ''url.path'' (ev_Resource ev),
                  key_value ''http.request.id'' (ev_RequestID ev)])])"

definition buildPayload :: "emitter \<Rightarrow> event list \<Rightarrow> json" where
  "buildPayload e batch =
     JObj [(''resourceLogs'', JArr
       [JObj [(''resource'', JObj [(''attributes'', JArr [key_value ''service.name'' (em_serviceName e)])]),
              (''scopeLogs'', JArr
                [JObj [(''scope'', JObj [(''name'', JStr scopeName)]),
                       (''logRecords'', JArr (map log_record batch))]])]])]"

definition export :: "'w env \<Rightarrow> emitter \<Rightarrow> event list \<Rightarrow> ('w, 'z) audit_proc_scheme \<Rightarrow> ('w, 'z) audit_proc_scheme" where
  "export env e batch s =
     (case new_request env ''POST'' (em_endpoint e) (Some (buildPayload e batch)) of
        Inl err \<Rightarrow> logf Error (''audit: failed to build the export request: '' @ Sanitize (err_text err)) s
      | Inr rq \<Rightarrow>
          (case http_do env
              ((foldl (\<lambda>r (name, value). set_header (CanonicalHeaderKey name) value r)
                 (set_header ''Content-Type'' ''application/json'' rq) (em_headers e))\<lparr>rq_timeout := em_timeout e\<rparr>) s of
             (Do_Error err, s1) \<Rightarrow>
               log_every env Error ''audit-export''
                 (''audit: export to '' @ em_endpoint e @ '' failed: '' @ Sanitize (err_text err)) s1
           | (Read_Error status _, s1) \<Rightarrow>
               if status \<ge> 300
               then log_every env Error ''audit-export-status''
                 (''audit: export to '' @ em_endpoint e @ '' returned HTTP '' @ itoa status) s1
               else s1
           | (Response status _, s1) \<Rightarrow>
               if status \<ge> 300
               then log_every env Error ''audit-export-status''
                 (''audit: export to '' @ em_endpoint e @ '' returned HTTP '' @ itoa status) s1
               else s1))"

text \<open>One turn of the worker of the emitter at \<open>i\<close>.\<close>

definition worker_turn :: "'w env \<Rightarrow> nat \<Rightarrow> wake \<Rightarrow> ('w, 'z) audit_proc_scheme \<Rightarrow> ('w, 'z) audit_proc_scheme" where
  "worker_turn env i w s =
     (case worker w (emitter_heap s ! i) of
        (batch, e) \<Rightarrow>
          let s1 = s\<lparr>emitter_heap := (emitter_heap s)[i := e]\<rparr>
          in if batch = [] then s1 else export env e batch s1)"

text \<open>
  \<open>Shutdown\<close> closes the done channel and waits for the worker, which may first wake up for other
  things (\<open>ws\<close>) before it notices.
\<close>

definition Shutdown :: "'w env \<Rightarrow> wake list \<Rightarrow> nat \<Rightarrow> ('w, 'z) audit_proc_scheme \<Rightarrow> ('w, 'z) audit_proc_scheme" where
  "Shutdown env ws i s =
     (let s1 = s\<lparr>emitter_heap := (emitter_heap s)[i := (emitter_heap s ! i)\<lparr>em_done := True\<rparr>]\<rparr>
      in foldl (\<lambda>s w. worker_turn env i w s) s1 (ws @ [Done]))"

definition ShutdownAll :: "'w env \<Rightarrow> (nat \<Rightarrow> wake list) \<Rightarrow> ('w, 'z) audit_proc_scheme \<Rightarrow> ('w, 'z) audit_proc_scheme" where
  "ShutdownAll env ws s =
     foldl (\<lambda>s (_, i). Shutdown env (ws i) i s) (s\<lparr>emitters := []\<rparr>) (emitters s)"

definition init_audit_metrics :: "('w, 'z) audit_proc_scheme \<Rightarrow> ('w, 'z) audit_proc_scheme" where
  "init_audit_metrics s =
     RegisterCounter auditDroppedMetric ''Audit events discarded because the export queue was full.'' Audit_Dropped s"

end
