(* ===== verification/Consent_Filter.thy ===== *)
theory Consent_Filter
  imports Owner_Claims Claim_Path Audit_Log
begin

text \<open>
  The plugin itself, \<open>internal/plugin/consent.go\<close>: the request phase, the response phase from correlation
  to verdict, the audit record and the denial.  The runner's request and response objects are not part of
  the repository: what their methods answer is a field of \<open>runner_request\<close> and \<open>runner_response\<close>, and the
  methods of its header object are the parameter \<open>header_ops\<close>.  \<open>Header()\<close> marks the response as modified
  (\<open>rr_header_used\<close>), which is why the code avoids it.  A nil dereference is the value \<open>None\<close>.
\<close>

section \<open>The runner\<close>

record 'h header_ops =
  hd_view :: "'h \<Rightarrow> string list option"
  hd_get :: "string \<Rightarrow> 'h \<Rightarrow> string"
  hd_set :: "string \<Rightarrow> string \<Rightarrow> 'h \<Rightarrow> 'h"
  hd_del :: "string \<Rightarrow> 'h \<Rightarrow> 'h"

record runner_request =
  nr_ID :: "32 word"
  nr_Method :: string
  nr_Path :: string
  nr_header :: "string \<Rightarrow> string"
  nr_var :: "string \<Rightarrow> gerror + string"

record 'h runner_response =
  rr_ID :: "32 word"
  rr_var :: "string \<Rightarrow> gerror + string"
  rr_body :: "gerror + string"
  rr_header :: "'h option"
  rr_header_used :: bool
  rr_status :: "int option"
  rr_written :: "string option"
  rr_write_error :: "gerror option"

definition pluginName :: string where "pluginName = ''consent-filter''"
definition nginxRequestIDVar :: string where "nginxRequestIDVar = ''request_id''"
definition nginxUpstreamContentTypeVar :: string where
  "nginxUpstreamContentTypeVar = ''upstream_http_content_type''"

definition correlationKey :: "(string \<Rightarrow> gerror + string) \<Rightarrow> string option" where
  "correlationKey var =
     (case var nginxRequestIDVar of Inl _ \<Rightarrow> None | Inr ident \<Rightarrow> if ident = [] then None else Some ident)"

definition ParseConf :: "'w env \<Rightarrow> string \<Rightarrow> ('w, 'z) log_proc_scheme \<Rightarrow> (gerror + config) \<times> ('w, 'z) log_proc_scheme" where
  "ParseConf env input s = ParseConfig env input s"

section \<open>The request phase\<close>

definition captured_claims :: "'w env \<Rightarrow> config \<Rightarrow> string \<Rightarrow> ('w, 'z) log_proc_scheme
    \<Rightarrow> (string \<times> json) list \<times> ('w, 'z) log_proc_scheme" where
  "captured_claims env cfg header s =
     (if header = [] then ([], s)
      else (case ExtractToken header of
          Inl e \<Rightarrow> ([], log_every env Warn ''jwt-extract''
            (''RequestFilter: failed to extract JWT from header '' @ quote env (JWTHeaderName cfg) @ '': '' @ Sanitize (err_text e)) s)
        | Inr token \<Rightarrow>
            (case DecodeClaims env token (claimKeysToDecode cfg) of
               Inl e \<Rightarrow> ([], log_every env Warn ''jwt-decode''
                 (''RequestFilter: failed to decode JWT claims: '' @ Sanitize (err_text e)) s)
             | Inr claims \<Rightarrow> (claims, s))))"

definition RequestFilter :: "'w env \<Rightarrow> config option \<Rightarrow> runner_request \<Rightarrow> ('w, 'z) store_proc_scheme \<Rightarrow> ('w, 'z) store_proc_scheme" where
  "RequestFilter env conf r s =
     (case conf of
        None \<Rightarrow> logf Error (''RequestFilter: invalid config type, skipping request '' @ itoa (uint (nr_ID r))) s
      | Some cfg \<Rightarrow>
          (case captured_claims env cfg (nr_header r (JWTHeaderName cfg)) s of
             (claims, s1) \<Rightarrow>
               (case correlationKey (nr_var r) of
                  None \<Rightarrow> log_every env Error ''no-request-id-req''
                    (''RequestFilter: could not read '' @ quote env nginxRequestIDVar @ ''; consent context not stored'') s1
                | Some key \<Rightarrow>
                    StoreRequestContext env key
                      \<lparr>rc_Method = nr_Method r, rc_Path = nr_Path r, rc_JWTClaims = claims\<rparr> s1)))"

section \<open>The response phase\<close>

definition clientConfigFromCfg :: "config \<Rightarrow> client_config" where
  "clientConfigFromCfg cfg =
     \<lparr>cc_BaseURL = ConsentAPIURL cfg, cc_Host = ConsentAPIHost cfg, cc_APIPrefix = ConsentAPIPrefix cfg,
      cc_ConsentKey = ConsentKey cfg, cc_ProviderSD = ProviderSD cfg, cc_ParticipantToken = ParticipantToken cfg,
      cc_TokenServiceURL = TokenServiceURL cfg, cc_TokenAudience = TokenAudience cfg,
      cc_TokenTTL = i64 (ParticipantTokenTTL cfg * second), cc_TimeoutMs = ConsentAPITimeout cfg\<rparr>"

definition responseContentType :: "'h header_ops \<Rightarrow> 'h runner_response \<Rightarrow> string \<times> 'h runner_response" where
  "responseContentType hops w =
     (case rr_var w nginxUpstreamContentTypeVar of
        Inr (c # cs) \<Rightarrow> (c # cs, w)
      | _ \<Rightarrow> (case rr_header w of Some h \<Rightarrow> hd_get hops ''Content-Type'' h | None \<Rightarrow> [], w\<lparr>rr_header_used := True\<rparr>))"

text \<open>The claims of a resolution that requires consent, and the verdict on them.\<close>

definition decide_claims :: "'w env \<Rightarrow> 'w owner_op list \<Rightarrow> config \<Rightarrow> string \<Rightarrow> request_context \<Rightarrow> client \<Rightarrow> string \<Rightarrow> claim list
    \<Rightarrow> ('w, 'z) metrics_proc_scheme \<Rightarrow> response_outcome \<times> ('w, 'z) metrics_proc_scheme" where
  "decide_claims env ops cfg key reqCtx client consumerSD found s =
     (if found = [] then (failOutcome cfg FailAlwaysClosed ''consent required but no data owner resolved'' key None, s)
      else (case distinctClaims found of
          Inl e \<Rightarrow> (failOutcome cfg FailAlwaysClosed (err_text e) key None, s)
        | Inr claims \<Rightarrow>
            (case checkPurposeScoping env cfg key claims s of
               (Some oc, s1) \<Rightarrow> (oc, s1)
             | (None, s1) \<Rightarrow>
                 if int (length claims) > MaxOwnersPerResponse cfg
                 then (failOutcome cfg FailAlwaysClosed
                         (''response resolves to '' @ show_nat (length claims) @ '' data owners, above max_owners_per_response=''
                          @ itoa (MaxOwnersPerResponse cfg)) key None,
                       log_every env Warn ''owner-cap''
                         (''ResponseFilter: '' @ show_nat (length claims) @ '' distinct data owners for request '' @ key
                          @ '' exceeds max_owners_per_response='' @ itoa (MaxOwnersPerResponse cfg) @ ''; denying'') s1)
                 else checkOwners env ops cfg key reqCtx client claims consumerSD s1)))"

text \<open>The resolver's answer about the body, timed and counted.\<close>

definition ask_resolver :: "'w env \<Rightarrow> config \<Rightarrow> request_context \<Rightarrow> string \<Rightarrow> parties \<Rightarrow> string
    \<Rightarrow> ('w, 'z) metrics_proc_scheme \<Rightarrow> (gerror + resolve_result) \<times> ('w, 'z) metrics_proc_scheme" where
  "ask_resolver env cfg reqCtx contentType p body s =
     (case time_now env s of
        (started, s1) \<Rightarrow>
          (case Resolve env (resolver_NewClient (OwnerResolverURL cfg) (OwnerResolverTimeout cfg))
                  \<lparr>rs_Service = Service cfg, rs_Method = rc_Method reqCtx, rs_Path = rc_Path reqCtx, rs_ContentType = contentType\<rparr>
                  p body s1 of
             (answer, s2) \<Rightarrow>
               (case time_now env s2 of
                  (now, s3) \<Rightarrow>
                    (answer, RecordDependencyCall DependencyOwnerResolver
                       (outcomeOf (case answer of Inl e \<Rightarrow> Some e | Inr _ \<Rightarrow> None)) (time_sub now started) s3))))"

text \<open>Both parties, the consumer from the claims and the registry, then the provider.\<close>

definition identify_parties :: "'w env \<Rightarrow> config \<Rightarrow> string \<Rightarrow> request_context \<Rightarrow> client \<Rightarrow> ('w, 'z) client_proc_scheme
    \<Rightarrow> (response_outcome + parties) \<times> ('w, 'z) client_proc_scheme" where
  "identify_parties env cfg key reqCtx client s =
     (case consumerFromClaims env (rc_JWTClaims reqCtx) (ConsumerClaim cfg) of
        Inl e \<Rightarrow>
          (Inl (failOutcome cfg FailAlwaysClosed (''no consuming participant identified: '' @ err_text e) key None),
           log_every env Warn ''consumer-claim''
             (''ResponseFilter: could not read the consuming participant for request '' @ key @ '': '' @ Sanitize (err_text e)) s)
      | Inr consumerDID \<Rightarrow>
          (case ParticipantSelfDescriptionByDID env client consumerDID s of
             (Inl e, s1) \<Rightarrow>
               (Inl (failOutcome cfg (failModeForError e) (''consumer participant lookup failed: '' @ err_text e) key None),
                log_every env Warn ''consumer-lookup''
                  (''ResponseFilter: could not map the consumer to a participant for request '' @ key @ '': ''
                   @ Sanitize (err_text e)) s1)
           | (Inr consumerSD, s1) \<Rightarrow>
               (case ProviderSelfDescription env client s1 of
                  (Inl e, s2) \<Rightarrow>
                    (Inl (failOutcome cfg (failModeForError e) (''provider self-description lookup failed: '' @ err_text e) key None),
                     log_every env Error ''provider-sd''
                       (''ResponseFilter: could not determine the provider self-description for request '' @ key @ '': ''
                        @ Sanitize (err_text e)) s2)
                | (Inr sd, s2) \<Rightarrow> (Inr \<lparr>pt_Consumer = consumerSD, pt_Provider = sd\<rparr>, s2))))"

definition evaluateWithResolver :: "'w env \<Rightarrow> 'h header_ops \<Rightarrow> 'w owner_op list \<Rightarrow> config \<Rightarrow> 'h runner_response \<Rightarrow> string
    \<Rightarrow> request_context \<Rightarrow> client \<Rightarrow> ('w, 'z) metrics_proc_scheme
    \<Rightarrow> response_outcome \<times> 'h runner_response \<times> ('w, 'z) metrics_proc_scheme" where
  "evaluateWithResolver env hops ops cfg w key reqCtx client s =
     (case rr_body w of
        Inl e \<Rightarrow>
          (failOutcome cfg FailByPolicy (''read upstream body: '' @ err_text e) key None, w,
           log_every env Error ''read-body''
             (''ResponseFilter: could not read the upstream body for request '' @ key @ '': '' @ Sanitize (err_text e)) s)
      | Inr body \<Rightarrow>
          if int (length body) > MaxResolveBodyBytes cfg then
            (failOutcome cfg FailAlwaysClosed
               (''upstream body of '' @ show_nat (length body) @ '' bytes exceeds max_resolve_body_bytes=''
                @ itoa (MaxResolveBodyBytes cfg)) key None, w,
             log_every env Warn ''resolve-body-cap''
               (''ResponseFilter: upstream body of '' @ show_nat (length body) @ '' bytes for request '' @ key
                @ '' exceeds max_resolve_body_bytes='' @ itoa (MaxResolveBodyBytes cfg) @ ''; denying'') s)
          else
            (case responseContentType hops w of
               (contentType, w1) \<Rightarrow>
                 (case identify_parties env cfg key reqCtx client s of
                    (Inl oc, s1) \<Rightarrow> (oc, w1, s1)
                  | (Inr p, s1) \<Rightarrow>
                      (case ask_resolver env cfg reqCtx contentType p body s1 of
                         (Inl e, s2) \<Rightarrow>
                           (failOutcome cfg FailByPolicy (''owner resolver error: '' @ err_text e) key None, w1,
                            log_every env Error ''resolver-error''
                              (''ResponseFilter: owner resolver error for request '' @ key @ '': '' @ Sanitize (err_text e)) s2)
                       | (Inr result, s2) \<Rightarrow>
                           if \<not> ConsentRequired result then
                             (zero_outcome\<lparr>oc_decision := decisionAllow, oc_reason := ''no consent required'', oc_requestID := key,
                                oc_resource := rc_Path reqCtx, oc_method := rc_Method reqCtx\<rparr>, w1, s2)
                           else
                             (case decide_claims env ops cfg key reqCtx client (pt_Consumer p) (Claims result) s2 of
                                (oc, s3) \<Rightarrow> (oc, w1, s3))))))"

definition evaluate :: "'w env \<Rightarrow> 'h header_ops \<Rightarrow> 'w owner_op list \<Rightarrow> config \<Rightarrow> 'h runner_response
    \<Rightarrow> ('w, 'z) metrics_proc_scheme \<Rightarrow> response_outcome \<times> 'h runner_response \<times> ('w, 'z) metrics_proc_scheme" where
  "evaluate env hops ops cfg w s =
     (case correlationKey (rr_var w) of
        None \<Rightarrow>
          (failOutcome cfg FailAlwaysClosed ''no request correlation id'' [] None, w,
           log_every env Error ''no-request-id-resp''
             (''ResponseFilter: could not read '' @ quote env nginxRequestIDVar @ ''; cannot verify consent'') s)
      | Some key \<Rightarrow>
          (case LoadAndDeleteRequestContext env key s of
             (None, s1) \<Rightarrow>
               (failOutcome cfg FailAlwaysClosed ''no request context'' key None, w,
                log_every env Warn ''no-request-context''
                  (''ResponseFilter: no request context found for request '' @ key @ ''; cannot verify consent'') s1)
           | (Some reqCtx, s1) \<Rightarrow>
               evaluateWithResolver env hops ops cfg w key reqCtx (NewClient (clientConfigFromCfg cfg)) s1))"

section \<open>The audit record\<close>

definition audit_config_of :: "config \<Rightarrow> audit_config" where
  "audit_config_of cfg =
     \<lparr>ac_Endpoint = AuditOTLPEndpoint cfg, ac_ServiceName = AuditServiceName cfg,
      ac_Timeout = i64 (ConsentAPITimeout cfg * millisecond), ac_Headers = AuditOTLPHeaders cfg\<rparr>"

definition audit_events :: "time \<Rightarrow> response_outcome \<Rightarrow> event list" where
  "audit_events now oc =
     (if oc_checked oc = []
      then [\<lparr>ev_Time = now, ev_RequestID = oc_requestID oc, ev_Subject = oc_subject oc, ev_Resource = oc_resource oc,
             ev_Method = oc_method oc, ev_Decision = oc_decision oc, ev_Reason = oc_reason oc\<rparr>]
      else map (\<lambda>k. \<lparr>ev_Time = now, ev_RequestID = oc_requestID oc, ev_Subject = ck_subject k, ev_Resource = ck_resource k,
             ev_Method = oc_method oc, ev_Decision = ck_decision k, ev_Reason = ck_reason k\<rparr>) (oc_checked oc))"

definition recordAudit :: "'w env \<Rightarrow> config \<Rightarrow> response_outcome \<Rightarrow> ('w, 'z) audit_proc_scheme \<Rightarrow> ('w, 'z) audit_proc_scheme" where
  "recordAudit env cfg oc s =
     (if \<not> AuditEnabled cfg then s
      else (case Get (audit_config_of cfg) s of
              (e, s1) \<Rightarrow>
                (case time_now env s1 of
                   (now, s2) \<Rightarrow> foldl (\<lambda>s ev. Emit e ev s) s2 (audit_events now oc))))"

section \<open>The denial\<close>

definition deniedResponseHeaderPrefixes :: "string list" where
  "deniedResponseHeaderPrefixes = [''Access-Control-'']"

definition survivesDenial :: "string \<Rightarrow> bool" where
  "survivesDenial name = list_ex (\<lambda>prefix. has_prefix (CanonicalHeaderKey name) prefix) deniedResponseHeaderPrefixes"

definition strip_headers :: "'h header_ops \<Rightarrow> 'h \<Rightarrow> 'h" where
  "strip_headers hops h =
     (case hd_view hops h of
        None \<Rightarrow> h
      | Some names \<Rightarrow> foldl (\<lambda>h name. if survivesDenial name then h else hd_del hops name h) h names)"

definition denyResponse :: "'h header_ops \<Rightarrow> 'h runner_response \<Rightarrow> config \<Rightarrow> ('w, 'z) log_proc_scheme
    \<Rightarrow> ('h runner_response \<times> ('w, 'z) log_proc_scheme) option" where
  "denyResponse hops w cfg s =
     (case rr_header w of
        None \<Rightarrow> None
      | Some h \<Rightarrow>
          let body = DenyResponseBody cfg;
              h1 = hd_set hops ''Content-Length'' (show_nat (length body))
                     (hd_set hops ''Content-Type'' (DenyResponseContentType cfg) (strip_headers hops h));
              w1 = w\<lparr>rr_header := Some h1, rr_header_used := True, rr_status := Some (DenyStatusCode cfg), rr_written := Some body\<rparr>
          in Some (w1,
               case rr_write_error w of
                 None \<Rightarrow> s
               | Some e \<Rightarrow> logf Error (''ResponseFilter: failed to write the deny body for request '' @ itoa (uint (rr_ID w))
                             @ '': '' @ Sanitize (err_text e)) s))"

definition ResponseFilter :: "'w env \<Rightarrow> 'h header_ops \<Rightarrow> 'w owner_op list \<Rightarrow> config option \<Rightarrow> 'h runner_response
    \<Rightarrow> ('w, 'z) audit_proc_scheme \<Rightarrow> ('h runner_response \<times> ('w, 'z) audit_proc_scheme) option" where
  "ResponseFilter env hops ops conf w s =
     (case conf of
        None \<Rightarrow> Some (w, logf Error (''ResponseFilter: invalid config type, skipping request '' @ itoa (uint (rr_ID w))) s)
      | Some cfg \<Rightarrow>
          (case evaluate env hops ops cfg w s of
             (oc, w1, s1) \<Rightarrow>
               let s2 = recordAudit env cfg oc (RecordDecision (oc_decision oc) (oc_failMode oc) s1)
               in if oc_decision oc = decisionDeny then denyResponse hops w1 cfg s2 else Some (w1, s2)))"

end
