(* ===== verification/Claim_Props.thy ===== *)
theory Claim_Props
  imports Claim_Path Sample_Runs
begin

text \<open>
  What claim paths guarantee: a printed segment parses back, a walk is a path through the claims, and
  the claims the request phase keeps are enough for the walk of the response phase.
\<close>

section \<open>Printing segments\<close>

definition index_text :: "nat \<Rightarrow> string" where
  "index_text i = CHR ''['' # show_nat i @ '']''"

definition segment_text :: "string \<Rightarrow> nat list \<Rightarrow> string" where
  "segment_text name is = name @ concat (map index_text is)"

lemma show_nat_no_bracket: "CHR '']'' \<notin> set (show_nat n)"
  using show_nat_digits [of n] by (auto simp: list_all_iff is_digit_def)

lemma parse_indices_step:
  assumes "i < 2 ^ 63"
  shows "parse_indices env seg (show_nat i @ CHR '']'' # t) acc =
    (if t = [] then Inr (acc @ [int i])
     else if \<not> has_prefix t ''[''
     then Inl (new_error (''claim path segment '' @ quote env seg @ '': unexpected '' @ quote env t @ '' after an index''))
     else parse_indices env seg (trim_prefix t ''['') (acc @ [int i]))"
  using assms show_nat_digits [of i] cut_append [OF show_nat_no_bracket, of i t]
  by (subst parse_indices.simps) (simp add: atoi_show_nat)

text \<open>The printed indices, followed by nothing or by one more bracket that is never closed.\<close>

lemma parse_indices_print:
  assumes "list_all (\<lambda>i. i < 2 ^ 63) (i # is)" and "t = [] \<or> t = ''[''"
  shows "parse_indices env seg (show_nat i @ CHR '']'' # concat (map index_text is) @ t) acc = Inr (acc @ map int (i # is))"
  using assms
proof (induction "is" arbitrary: i acc)
  case Nil
  then show ?case
    by (auto simp: parse_indices_step has_prefix_def trim_prefix_def parse_indices.simps [of env seg "[]"])
next
  case (Cons j js)
  have "concat (map index_text (j # js)) @ t = ''['' @ (show_nat j @ CHR '']'' # concat (map index_text js) @ t)"
    by (simp add: index_text_def)
  with Cons show ?case
    by (simp add: parse_indices_step has_prefix_def trim_prefix_def del: append.assoc)
qed

lemma parse_segment_print:
  assumes "CHR ''['' \<notin> set name" and "list_all (\<lambda>i. i < 2 ^ 63) is" and "t = [] \<or> t = ''[''"
  shows "parseClaimSegment env (segment_text name is @ t) = Inr (name, map int is)"
proof (cases "is")
  case Nil
  then show ?thesis
    using assms cut_append [OF assms(1), of "[]"] cut_none [OF assms(1)]
    by (auto simp: parseClaimSegment_def segment_text_def parse_indices.simps [of env _ "[]"])
next
  case (Cons i js)
  have e: "segment_text name is @ t = name @ CHR ''['' # (show_nat i @ CHR '']'' # concat (map index_text js) @ t)"
    by (simp add: Cons segment_text_def index_text_def)
  show ?thesis
    unfolding parseClaimSegment_def e cut_append [OF assms(1)]
    using parse_indices_print [of i js t env _ "[]"] assms Cons by simp
qed

section \<open>Enough claims are decoded\<close>

lemma claimPathRoot_name:
  assumes "parseClaimSegment env (hd (split CHR ''.'' path)) = Inr (name, is)"
  shows "name = claimPathRoot path"
proof -
  have "hd (split CHR ''.'' path) = fst (cut CHR ''.'' path)"
    by (induction path) (auto split: prod.splits list.splits)
  with assms show ?thesis
    by (auto simp: parseClaimSegment_def claimPathRoot_def Let_def split: prod.splits if_splits sum.splits)
qed

lemma walk_first:
  assumes "name \<noteq> []" and "map_of ms name = map_of ms' name"
  shows "walk_name env path seg name (JObj ms) = walk_name env path seg name (JObj ms')"
  using assms by (simp add: walk_name_def descendIntoObject_def)

text \<open>The walk only depends on the root claim.\<close>

lemma walk_root:
  assumes "claimPathRoot path \<noteq> []" and "map_of ms (claimPathRoot path) = map_of ms' (claimPathRoot path)"
  shows "walk_segments env path (split CHR ''.'' path) (JObj ms) = walk_segments env path (split CHR ''.'' path) (JObj ms')"
proof -
  obtain seg segs where s: "split CHR ''.'' path = seg # segs" by (meson list.exhaust split_not_Nil)
  show ?thesis
  proof (cases "parseClaimSegment env seg")
    case (Inl e)
    then show ?thesis by (simp add: s)
  next
    case (Inr ni)
    obtain name "is" where ni: "ni = (name, is)" by fastforce
    with Inr s have "name = claimPathRoot path" using claimPathRoot_name [of env path name "is"] by simp
    with assms have "walk_name env path seg name (JObj ms) = walk_name env path seg name (JObj ms')"
      by (intro walk_first) simp_all
    then show ?thesis by (simp add: s Inr ni)
  qed
qed

lemma empty_claims_fail: "claimPathRoot path \<noteq> [] \<Longrightarrow> walk_segments env path (split CHR ''.'' path) (JObj []) \<noteq> Inr v"
proof
  assume r: "claimPathRoot path \<noteq> []" and w: "walk_segments env path (split CHR ''.'' path) (JObj []) = Inr v"
  obtain seg segs where s: "split CHR ''.'' path = seg # segs" by (meson list.exhaust split_not_Nil)
  obtain name "is" where p: "parseClaimSegment env seg = Inr (name, is)" using w s by (auto split: sum.splits)
  with s have "name = claimPathRoot path" using claimPathRoot_name [of env path name "is"] by simp
  with r w s p show False by (simp add: walk_name_def descendIntoObject_def)
qed

lemma consumer_Inr:
  "claimPathRoot path \<noteq> [] \<Longrightarrow>
   consumerFromClaims env claims path = Inr v \<longleftrightarrow>
   path \<noteq> [] \<and> walk_segments env path (split CHR ''.'' path) (JObj claims) = Inr (JStr v) \<and> v \<noteq> []"
  using empty_claims_fail [of path env]
  by (cases "claims = []")
     (auto simp: consumerFromClaims_def split: sum.splits json.splits if_splits)

section \<open>Claims\<close>

text \<open>
  A claim-path segment round-trips: the name and the bracketed indices that are printed are the
  ones that are parsed, for every name without a bracket and every list of int64 indices.
\<close>

theorem segment_roundtrip:
  assumes "CHR ''['' \<notin> set name" and "list_all (\<lambda>i. i < 2 ^ 63) is"
  shows "parseClaimSegment env (segment_text name is) = Inr (name, map int is)"
  using parse_segment_print [OF assms, of "[]" env] by simp

theorem segment_roundtrip_witness:
  "parseClaimSegment (scripted_env demo_reply) (segment_text ''vc'' [0, 12]) = Inr (''vc'', [0, 12])"
  using segment_roundtrip [of "''vc''" "[0, 12]" "scripted_env demo_reply"] by simp

text \<open>
  C37.  A bracket that is opened and never closed is reported only when something follows it: at the
  end of a segment it is accepted without an error, and parses as if it were not there.
\<close>

theorem unterminated_bracket_accepted:
  assumes "CHR ''['' \<notin> set name" and "list_all (\<lambda>i. i < 2 ^ 63) is"
  shows "parseClaimSegment env (segment_text name is) = Inr (name, map int is)
    \<and> parseClaimSegment env (segment_text name is @ ''['') = Inr (name, map int is)"
  using parse_segment_print [OF assms, of "[]" env] parse_segment_print [OF assms, of "''[''" env] by simp

theorem unterminated_bracket_accepted_witness:
  "parseClaimSegment (scripted_env demo_reply) (segment_text ''vc'' [] @ ''['') = Inr (''vc'', [])"
  using unterminated_bracket_accepted [of "''vc''" "[]" "scripted_env demo_reply"] by simp

lemma decoded_consumer:
  assumes "payload_claims env token = Inr all" and "DecodeClaims env token (claimKeysToDecode cfg) = Inr claims"
    and "claimPathRoot (ConsumerClaim cfg) \<noteq> []"
  shows "consumerFromClaims env claims (ConsumerClaim cfg) = Inr v
     \<longleftrightarrow> consumerFromClaims env all (ConsumerClaim cfg) = Inr v"
proof (cases "claimKeysToDecode cfg = []")
  case True
  then show ?thesis using assms(1,2) by (simp add: DecodeClaims_select)
next
  case False
  then have claims: "claims = pick_claims (claimKeysToDecode cfg) all []"
    using assms(1,2) by (simp add: DecodeClaims_select)
  have ne: "ConsumerClaim cfg \<noteq> []" using assms(3) by (auto simp: claimPathRoot_def)
  have "claimPathRoot (ConsumerClaim cfg) \<in> set (claimKeysToDecode cfg)"
    using False ne by (auto simp: claimKeysToDecode_def Let_def split: if_splits)
  then have "map_of claims (claimPathRoot (ConsumerClaim cfg)) = map_of all (claimPathRoot (ConsumerClaim cfg))"
    by (auto simp: claims map_of_pick_claims)
  with walk_root [OF assms(3), of claims all env] consumer_Inr [OF assms(3), of env claims v] consumer_Inr [OF assms(3), of env all v]
  show ?thesis by simp
qed

text \<open>
  The request phase decodes enough for the response phase: restricting the claims of a token to
  the keys of \<open>claimKeysToDecode\<close> does not change the consumer the configured path resolves to, nor
  whether it resolves, for every path that starts with a claim name.
\<close>

theorem decoded_claims_suffice:
  assumes "payload_claims env token = Inr all" and "DecodeClaims env token (claimKeysToDecode cfg) = Inr claims"
    and "claimPathRoot (ConsumerClaim cfg) \<noteq> []"
  shows "consumerFromClaims env claims (ConsumerClaim cfg) = Inr v
     \<longleftrightarrow> consumerFromClaims env all (ConsumerClaim cfg) = Inr v"
  using assms by (rule decoded_consumer)

definition demo_token :: string where
  "demo_token = ''h.eyJpc3MiOiJkIiwiYSI6MX0.s''"

lemma demo_token_claims: "payload_claims (scripted_env reply) demo_token = Inr [(''iss'', JStr ''d''), (''a'', JNum ''1'')]"
proof -
  have b: "b64url_decode ''eyJpc3MiOiJkIiwiYSI6MX0'' = Some ''{\"iss\":\"d\",\"a\":1}''" by code_simp
  have s: "split CHR ''.'' demo_token = [''h'', ''eyJpc3MiOiJkIiwiYSI6MX0'', ''s'']" by (simp add: demo_token_def)
  have j: "unmarshal dec_claims ''{\"iss\":\"d\",\"a\":1}'' [] = Some [(''iss'', JStr ''d''), (''a'', JNum ''1'')]" by code_simp
  show ?thesis by (simp add: payload_claims_def DecodeClaims_def s b json_unmarshal_def j)
qed

theorem decoded_claims_suffice_witness:
  "let cfg = zero_config\<lparr>JWTClaimsToForward := [''a''], ConsumerClaim := ''iss''\<rparr>; env = scripted_env demo_reply in
   \<exists>claims. DecodeClaims env demo_token (claimKeysToDecode cfg) = Inr claims
     \<and> consumerFromClaims env claims (ConsumerClaim cfg) = Inr ''d''"
proof -
  let ?cfg = "zero_config\<lparr>JWTClaimsToForward := [''a''], ConsumerClaim := ''iss''\<rparr>" and ?env = "scripted_env demo_reply"
  note all = demo_token_claims [of demo_reply]
  obtain claims where c: "DecodeClaims ?env demo_token (claimKeysToDecode ?cfg) = Inr claims"
    using all by (simp add: DecodeClaims_select)
  have r: "claimPathRoot (ConsumerClaim ?cfg) \<noteq> []" by (simp add: claimPathRoot_def)
  have "consumerFromClaims ?env [(''iss'', JStr ''d''), (''a'', JNum ''1'')] (ConsumerClaim ?cfg) = Inr ''d''"
    by (simp add: consumerFromClaims_def parseClaimSegment_def walk_name_def descendIntoObject_def)
  with decoded_claims_suffice [OF all c r] c show ?thesis by simp
qed

end
