(* ===== verification/Config_Props.thy ===== *)
theory Config_Props
  imports Config Sample_Runs
begin

text \<open>
  What loading a route configuration guarantees: validation accepts exactly the configurations that
  meet a declarative specification, a loaded configuration meets it with all defaults in place, and it
  fails open only when the route says so explicitly.
\<close>

definition http_url :: "'w env \<Rightarrow> string \<Rightarrow> bool" where
  "http_url env u \<longleftrightarrow> u \<noteq> [] \<and> uri_error env u = None \<and> url_scheme u \<in> {''http'', ''https''}"

definition valid_config :: "'w env \<Rightarrow> config \<Rightarrow> bool" where
  "valid_config env c \<longleftrightarrow>
     http_url env (ConsentAPIURL c) \<and> http_url env (OwnerResolverURL c)
     \<and> (\<exists>p. ConsentAPIPrefix c = CHR ''/'' # p)
     \<and> ConsentAPITimeout c \<in> {1..60000} \<and> DenyStatusCode c \<in> {100..599}
     \<and> OwnerResolverTimeout c \<in> {1..60000} \<and> ResponsePhaseTimeout c \<in> {1..120000}
     \<and> MaxResolveBodyBytes c \<in> {1..104857600} \<and> ParticipantTokenTTL c \<in> {1..86400}
     \<and> MaxOwnersPerResponse c \<in> {1..1000}
     \<and> (AuditEnabled c \<longrightarrow> AuditOTLPEndpoint c \<noteq> [])
     \<and> (TokenServiceURL c = [] \<or> http_url env (TokenServiceURL c))
     \<and> (TokenServiceURL c \<noteq> [] \<or> ParticipantToken c \<noteq> [])"

lemma first_problem_None: "first_problem ps = None \<longleftrightarrow> list_all (\<lambda>p. p = None) ps"
  by (induction ps) (auto split: option.splits)

lemma url_problem_None: "u \<noteq> [] \<and> url_problem env n u = None \<longleftrightarrow> http_url env u"
  by (auto simp: url_problem_def http_url_def parse_request_uri_def schemeHTTP_def schemeHTTPS_def
      split: option.splits sum.splits)

lemma url_problem_or: "(u = [] \<or> url_problem env n u = None) \<longleftrightarrow> (u = [] \<or> http_url env u)"
  using url_problem_None [of u env n] by (cases "u = []") auto

lemma range_problem_None: "range_problem n lo hi x = None \<longleftrightarrow> x \<in> {lo..hi}"
  by (auto simp: range_problem_def)

lemma problem_if_None: "problem_if b t = None \<longleftrightarrow> \<not> b"
  by (simp add: problem_if_def)

lemma valid_parts:
  "Validate env c = None \<longleftrightarrow>
     ConsentAPIURL c \<noteq> [] \<and> url_problem env ''consent_api_url'' (ConsentAPIURL c) = None
     \<and> OwnerResolverURL c \<noteq> [] \<and> url_problem env ''owner_resolver_url'' (OwnerResolverURL c) = None
     \<and> has_prefix (ConsentAPIPrefix c) apiPrefixSeparator
     \<and> ConsentAPITimeout c \<in> {1..60000} \<and> DenyStatusCode c \<in> {100..599}
     \<and> OwnerResolverTimeout c \<in> {1..60000} \<and> ResponsePhaseTimeout c \<in> {1..120000}
     \<and> MaxResolveBodyBytes c \<in> {1..104857600} \<and> ParticipantTokenTTL c \<in> {1..86400}
     \<and> MaxOwnersPerResponse c \<in> {1..1000}
     \<and> \<not> (AuditEnabled c \<and> AuditOTLPEndpoint c = [])
     \<and> (TokenServiceURL c = [] \<or> url_problem env ''token_service_url'' (TokenServiceURL c) = None)
     \<and> \<not> (TokenServiceURL c = [] \<and> ParticipantToken c = [])"
  unfolding Validate_def first_problem_None list.pred_inject range_problem_None problem_if_None
    MinConsentAPITimeout_def MaxConsentAPITimeout_def MinHTTPStatusCode_def MaxHTTPStatusCode_def
    MinOwnerResolverTimeout_def MaxOwnerResolverTimeout_def MinResponsePhaseTimeout_def MaxResponsePhaseTimeout_def
    MinMaxResolveBodyBytes_def MaxMaxResolveBodyBytes_def MinParticipantTokenTTL_def MaxParticipantTokenTTL_def
    MinMaxOwnersPerResponse_def MaxMaxOwnersPerResponse_def
  by (simp del: atLeastAtMost_iff)

lemma prefix_separator: "has_prefix p apiPrefixSeparator \<longleftrightarrow> (\<exists>t. p = CHR ''/'' # t)"
  by (simp add: has_prefix_iff apiPrefixSeparator_def)

lemma Validate_valid: "Validate env c = None \<longleftrightarrow> valid_config env c"
  unfolding valid_parts valid_config_def prefix_separator url_problem_or
    url_problem_None [of "ConsentAPIURL c" env "''consent_api_url''", symmetric]
    url_problem_None [of "OwnerResolverURL c" env "''owner_resolver_url''", symmetric]
  by blast

lemma or_default_simps [simp]: "or_default z d x = z \<longleftrightarrow> x = z \<and> d = z"
  by (simp add: or_default_def)

lemma config_field_FailOpen:
  "config_field k v c = Some c' \<Longrightarrow>
   FailOpen c' = FailOpen c \<or> key_is k ''fail_open'' \<and> dec_ptr False dec_bool v (FailOpen c) = Some (FailOpen c')"
  by (auto simp: config_field_def split: if_splits)

lemma dec_ptr_true: "dec_ptr False dec_bool v old = Some (Some True) \<Longrightarrow> v = JBool True"
  by (cases v) (auto simp: dec_ptr_def dec_bool_def)

lemma config_member_FailOpen:
  "config_member k v cs = Some cs' \<Longrightarrow>
   FailOpen (fst cs') = FailOpen (fst cs) \<or> key_is k ''fail_open'' \<and> dec_ptr False dec_bool v (FailOpen (fst cs)) = Some (FailOpen (fst cs'))"
  by (cases cs) (auto simp: config_member_def split: if_splits dest!: config_field_FailOpen)

lemma dec_members_FailOpen:
  "dec_members config_member ms cs = Some cs' \<Longrightarrow> FailOpen (fst cs') = Some True \<Longrightarrow> FailOpen (fst cs) \<noteq> Some True \<Longrightarrow>
   \<exists>k. (k, JBool True) \<in> set ms \<and> key_is k ''fail_open''"
proof (induction ms arbitrary: cs)
  case Nil
  then show ?case by simp
next
  case (Cons m ms)
  obtain k v where m: "m = (k, v)" by fastforce
  obtain cs1 where c1: "config_member k v cs = Some cs1" and r: "dec_members config_member ms cs1 = Some cs'"
    using Cons.prems m by (auto split: option.splits)
  show ?case
  proof (cases "FailOpen (fst cs1) = Some True")
    case True
    with config_member_FailOpen [OF c1] Cons.prems(3) m dec_ptr_true show ?thesis by auto
  next
    case False
    with Cons.IH [OF r Cons.prems(2)] m show ?thesis by auto
  qed
qed

section \<open>Claims\<close>

text \<open>
  C22.  A configuration is accepted exactly when it meets the specification \<open>valid_config\<close>: absolute
  http(s) URLs for the consent-manager and the resolver, every limit in its range, an audit endpoint
  when auditing, and a way to authenticate as the participant.
\<close>

theorem Validate_iff: "Validate env c = None \<longleftrightarrow> valid_config env c"
  by (rule Validate_valid)

text \<open>What a loaded configuration says, field by field, in terms of the decoded JSON object.\<close>

definition text_or :: "string \<Rightarrow> string \<Rightarrow> string" where
  "text_or d x = (case x of [] \<Rightarrow> d | _ \<Rightarrow> x)"

definition number_or :: "int \<Rightarrow> int \<Rightarrow> int" where
  "number_or d x = (if x = 0 then d else x)"

lemma or_default_text: "or_default [] d x = text_or d x"
  by (simp add: or_default_def text_or_def split: list.split)

lemma or_default_number: "or_default 0 d x = number_or d x"
  by (simp add: or_default_def number_or_def)

lemmas config_names = DefaultConsentAPITimeout_def DefaultJWTHeaderName_def DefaultConsentAPIPrefix_def DefaultOwnerResolverTimeout_def
  DefaultResponsePhaseTimeout_def DefaultMaxOwnersPerResponse_def DefaultMaxResolveBodyBytes_def DefaultParticipantTokenTTL_def
  DefaultConsumerClaim_def DefaultTokenAudience_def DefaultDenyStatusCode_def DefaultDenyResponseBody_def
  DefaultDenyResponseContentType_def EnvConsentKey_def EnvTokenServiceURL_def EnvAuditOTLPEndpoint_def apiPrefixSeparator_def

text \<open>
  C25.  A configuration that loads is the decoded JSON object, completed and nothing else: a field that has a
  default takes it exactly when the object leaves the field at its zero value, the two secrets and the audit
  endpoint fall back to their environment variables exactly when they are empty, the API prefix loses its
  trailing separators unless it is a bare separator, every other field is as decoded, and the result is valid.
\<close>

theorem ParseConfig_complete:
  assumes "ParseConfig env input s = (Inr c, s')"
  shows "valid_config env c \<and> (\<exists>j. unmarshal dec_config input zero_config = Some j
    \<and> c = \<lparr>ConsentAPIURL = ConsentAPIURL j,
           ConsentAPITimeout = number_or 5000 (ConsentAPITimeout j),
           JWTHeaderName = text_or ''Authorization'' (JWTHeaderName j),
           JWTClaimsToForward = JWTClaimsToForward j,
           ConsentAPIPrefix = (if text_or ''/v1'' (ConsentAPIPrefix j) = ''/'' then ''/''
                               else trim_right CHR ''/'' (text_or ''/v1'' (ConsentAPIPrefix j))),
           OwnerResolverURL = OwnerResolverURL j,
           ConsentAPIHost = ConsentAPIHost j,
           OwnerResolverTimeout = number_or 2000 (OwnerResolverTimeout j),
           ResponsePhaseTimeout = number_or 10000 (ResponsePhaseTimeout j),
           RequirePurpose = RequirePurpose j,
           MaxResolveBodyBytes = number_or 1048576 (MaxResolveBodyBytes j),
           MaxOwnersPerResponse = number_or 50 (MaxOwnersPerResponse j),
           Service = Service j,
           ConsumerClaim = text_or ''verifiableCredential.issuer'' (ConsumerClaim j),
           ConsentKey = text_or (getenv env ''CONSENT_KEY'') (ConsentKey j),
           TokenServiceURL = text_or (getenv env ''CONSENT_TOKEN_SERVICE_URL'') (TokenServiceURL j),
           TokenAudience = text_or ''consent-manager'' (TokenAudience j),
           ParticipantTokenTTL = number_or 3000 (ParticipantTokenTTL j),
           ParticipantToken = ParticipantToken j,
           ProviderSD = ProviderSD j,
           DenyStatusCode = number_or 403 (DenyStatusCode j),
           DenyResponseBody = text_or ''{\"error\":\"access denied by consent policy\"}'' (DenyResponseBody j),
           DenyResponseContentType = text_or ''application/json'' (DenyResponseContentType j),
           FailOpen = FailOpen j,
           AuditEnabled = AuditEnabled j,
           AuditOTLPEndpoint = text_or (getenv env ''CONSENT_AUDIT_OTLP_ENDPOINT'') (AuditOTLPEndpoint j),
           AuditOTLPHeaders = AuditOTLPHeaders j,
           AuditServiceName = AuditServiceName j\<rparr>)"
proof -
  obtain j where u: "unmarshal dec_config input zero_config = Some j"
    and c: "c = applyEnv env (applyDefaults j)" and v: "Validate env c = None"
    using assms by (auto simp: ParseConfig_def Let_def json_unmarshal_def split: if_splits sum.splits option.splits)
  from v have "valid_config env c" by (simp add: Validate_valid)
  with u show ?thesis
    unfolding c applyEnv_def applyDefaults_def trim_api_prefix_def or_default_text or_default_number config_names
    by (cases j) auto
qed

definition small_config :: string where
  "small_config = ''{\"consent_api_url\":\"http://cm\",\"owner_resolver_url\":\"http://r\",\"participant_token\":\"t\",\"fail_open\":true}''"

lemma small_config_parses:
  "json_parse small_config = Some (JObj [(''consent_api_url'', JStr ''http://cm''), (''owner_resolver_url'', JStr ''http://r''),
     (''participant_token'', JStr ''t''), (''fail_open'', JBool True)])"
  by code_simp

lemma small_config_decodes:
  "unmarshal dec_config small_config zero_config =
     Some (zero_config\<lparr>ConsentAPIURL := ''http://cm'', OwnerResolverURL := ''http://r'', ParticipantToken := ''t'', FailOpen := Some True\<rparr>)"
  unfolding unmarshal_def small_config_parses
  by (simp add: dec_config_def config_member_def config_field_def key_is_plain plain_key_def code_def in_range_def dec_ptr_def dec_bool_def)

lemma small_config_loads:
  "\<exists>c s'. ParseConfig (scripted_env demo_reply) small_config empty_proc = (Inr c, s') \<and> FailOpen c = Some True"
proof -
  let ?env = "scripted_env demo_reply"
  let ?c = "applyEnv ?env (applyDefaults (zero_config\<lparr>ConsentAPIURL := ''http://cm'', OwnerResolverURL := ''http://r'',
      ParticipantToken := ''t'', FailOpen := Some True\<rparr>))"
  have "url_scheme ''http://cm'' = ''http''" "url_scheme ''http://r'' = ''http''" by code_simp+
  then have "valid_config ?env ?c"
    by (simp add: valid_config_def http_url_def applyEnv_def applyDefaults_def zero_config_def or_default_def
        scripted_env_def trim_api_prefix_def apiPrefixSeparator_def DefaultConsentAPIPrefix_def trim_right_def
        DefaultConsentAPITimeout_def DefaultDenyStatusCode_def DefaultOwnerResolverTimeout_def
        DefaultResponsePhaseTimeout_def DefaultMaxResolveBodyBytes_def DefaultParticipantTokenTTL_def
        DefaultMaxOwnersPerResponse_def)
  then have v: "Validate ?env ?c = None" by (simp add: Validate_valid)
  have f: "FailOpen ?c = Some True" by (simp add: applyEnv_def applyDefaults_def)
  have "small_config \<noteq> []" by (simp add: small_config_def)
  with v f small_config_decodes show ?thesis
    by (simp add: ParseConfig_def json_unmarshal_def Let_def)
qed

theorem ParseConfig_complete_witness:
  "\<exists>c s'. ParseConfig (scripted_env demo_reply) small_config empty_proc = (Inr c, s') \<and> valid_config (scripted_env demo_reply) c
     \<and> JWTHeaderName c = ''Authorization'' \<and> ConsentAPIURL c = ''http://cm'' \<and> DenyStatusCode c = 403"
proof -
  obtain c s' where r: "ParseConfig (scripted_env demo_reply) small_config empty_proc = (Inr c, s')" using small_config_loads by blast
  from ParseConfig_complete [OF r] r small_config_decodes show ?thesis
    by (auto simp: zero_config_def text_or_def number_or_def)
qed

text \<open>
  C23.  The gate fails open only by an explicit decision: a loaded configuration that does so came from
  a JSON object with a \<open>fail_open\<close> member that is the literal true, and loading it logged a warning.
\<close>

theorem fail_open_is_explicit:
  assumes "ParseConfig env input s = (Inr c, s')" and "IsFailOpen c"
  shows "(\<exists>ms k. json_parse input = Some (JObj ms) \<and> (k, JBool True) \<in> set ms \<and> key_is k ''fail_open'')
    \<and> (\<exists>line. log_lines s' = log_lines s @ [(Warn, line)])"
proof -
  obtain c0 where u: "unmarshal dec_config input zero_config = Some c0"
    and c: "c = applyEnv env (applyDefaults c0)"
    using assms(1) by (auto simp: ParseConfig_def Let_def json_unmarshal_def split: if_splits sum.splits option.splits)
  have t: "FailOpen c0 = Some True"
    using assms(2) c by (auto simp: IsFailOpen_def applyEnv_def applyDefaults_def split: option.splits)
  have z: "FailOpen zero_config \<noteq> Some True" by (simp add: zero_config_def)
  from u obtain v where v: "json_parse input = Some v" and d: "dec_config v zero_config = Some c0"
    by (auto simp: unmarshal_def split: option.splits)
  obtain ms where ms: "v = JObj ms"
    using d t z by (cases v) (auto simp: dec_config_def dec_struct_def)
  with d obtain spare where m: "dec_members config_member ms (zero_config, []) = Some (c0, spare)" by (auto simp: dec_config_def)
  have "FailOpen (fst (c0, spare)) = Some True" "FailOpen (fst (zero_config, [])) \<noteq> Some True" using t z by simp_all
  from dec_members_FailOpen [OF m this] v ms show ?thesis
    using assms by (auto simp: ParseConfig_def Let_def logf_def split: if_splits sum.splits option.splits)
qed

theorem fail_open_is_explicit_witness:
  "\<exists>ms k. json_parse small_config = Some (JObj ms) \<and> (k, JBool True) \<in> set ms \<and> key_is k ''fail_open''"
proof -
  obtain c s' where r: "ParseConfig (scripted_env demo_reply) small_config empty_proc = (Inr c, s')" and "FailOpen c = Some True"
    using small_config_loads by blast
  then have "IsFailOpen c" by (simp add: IsFailOpen_def)
  from fail_open_is_explicit [OF r this] show ?thesis by blast
qed

end
