(* ===== verification/Audit_Props.thy ===== *)
theory Audit_Props
  imports Audit_Log Sample_Runs
begin

text \<open>
  What the audit log guarantees: its bounds, the fate of every offered event, the flush on shutdown, and
  the sharing of emitters by configuration; and where its own statements overreach.
\<close>

section \<open>The queue as a bounded sink\<close>

definition em_pending :: "emitter \<Rightarrow> event list" where
  "em_pending e = em_batch e @ em_queue e"

lemma flush_simps [simp]: "flush e = (em_batch e, e\<lparr>em_batch := []\<rparr>)"
  by (simp add: flush_def)

lemma worker_law: "worker w e = (out, e') \<Longrightarrow> out @ em_pending e' = em_pending e \<and> em_dropped e' = em_dropped e"
  by (cases w) (auto simp: worker_def em_pending_def Let_def split: if_splits list.splits)

interpretation audit: bounded_sink em_pending em_dropped sanitized_event offer worker
  by standard (auto simp: offer_def em_pending_def dest: worker_law)

section \<open>Bounds\<close>

definition emitter_inv :: "emitter \<Rightarrow> bool" where
  "emitter_inv e \<longleftrightarrow> length (em_queue e) \<le> 2048 \<and> length (em_batch e) < 64
     \<and> (em_stopped e \<longrightarrow> em_done e \<and> em_batch e = [])"

inductive emitter_step :: "emitter \<Rightarrow> emitter \<Rightarrow> bool" where
  offer: "emitter_step e (offer ev e)"
| wake: "worker w e = (out, e') \<Longrightarrow> emitter_step e e'"
| close: "emitter_step e (e\<lparr>em_done := True\<rparr>)"

inductive_cases emitter_stepE: "emitter_step e e'"
inductive_simps emitter_step_iff: "emitter_step e e'"

lemma offer_inv: "emitter_inv e \<Longrightarrow> emitter_inv (offer ev e)"
  by (auto simp: emitter_inv_def offer_def defaultQueueSize_def)

lemma worker_inv: "emitter_inv e \<Longrightarrow> worker w e = (out, e') \<Longrightarrow> emitter_inv e'"
  by (cases w) (auto simp: emitter_inv_def worker_def defaultBatchSize_def Let_def split: if_splits list.splits)

lemma emitter_step_inv: "emitter_step e e' \<Longrightarrow> emitter_inv e \<Longrightarrow> emitter_inv e'"
proof (induction rule: emitter_step.induct)
  case (offer e ev)
  then show ?case by (rule offer_inv)
next
  case (wake w e out e')
  then show ?case by (intro worker_inv [of e w out e'])
next
  case (close e)
  then show ?case by (auto simp: emitter_inv_def)
qed

lemma emitter_steps_inv: "emitter_step\<^sup>*\<^sup>* e e' \<Longrightarrow> emitter_inv e \<Longrightarrow> emitter_inv e'"
  by (induction rule: rtranclp_induct) (auto intro: emitter_step_inv)

lemma newEmitter_inv: "emitter_inv (newEmitter cfg)"
  by (simp add: emitter_inv_def newEmitter_def Let_def)

text \<open>The batches the worker hands to \<open>export\<close>.\<close>

lemma worker_batch_size:
  "emitter_inv e \<Longrightarrow> worker w e = (out, e') \<Longrightarrow> w \<noteq> Done \<Longrightarrow> length out \<le> 64"
  by (cases w) (auto simp: emitter_inv_def worker_def Let_def split: if_splits list.splits)

section \<open>Shutdown\<close>

lemma worker_stopped: "em_stopped e \<Longrightarrow> worker w e = ([], e)"
  by (simp add: worker_def)

lemma worker_done_stops: "em_done e \<Longrightarrow> \<exists>out e'. worker Done e = (out, e') \<and> em_stopped e'"
  by (auto simp: worker_def)

lemma worker_keeps_done: "worker w e = (out, e') \<Longrightarrow> em_done e' = em_done e"
  by (cases w) (auto simp: worker_def Let_def split: if_splits list.splits)

lemma audit_run_done: "audit.run (map Work ws) e = (out, e') \<Longrightarrow> em_done e' = em_done e"
  by (induction ws arbitrary: e out) (auto split: prod.splits dest: worker_keeps_done)

lemma audit_run_append:
  "audit.run (ops @ ops') e = (case audit.run ops e of (out, e1) \<Rightarrow> (case audit.run ops' e1 of (out', e2) \<Rightarrow> (out @ out', e2)))"
  by (induction ops e rule: audit.run.induct) (auto split: prod.splits)

lemma offered_work [simp]: "offered (map Work ws) = []"
  by (induction ws) auto

lemma worker_stops_empty:
  "worker w e = (out, e') \<Longrightarrow> em_stopped e \<longrightarrow> em_pending e = [] \<Longrightarrow> em_stopped e' \<longrightarrow> em_pending e' = []"
  by (cases w) (auto simp: worker_def em_pending_def Let_def split: if_splits list.splits)

lemma audit_run_stops_empty:
  "audit.run (map Work ws) e = (out, e') \<Longrightarrow> em_stopped e \<longrightarrow> em_pending e = [] \<Longrightarrow> em_stopped e' \<longrightarrow> em_pending e' = []"
proof (induction ws arbitrary: e out)
  case Nil
  then show ?case by simp
next
  case (Cons w ws)
  obtain o1 e1 where w: "worker w e = (o1, e1)" by fastforce
  obtain o2 where "audit.run (map Work ws) e1 = (o2, e')" using Cons.prems(1) w by (auto split: prod.splits)
  from Cons.IH [OF this worker_stops_empty [OF w Cons.prems(2)]] show ?case .
qed

text \<open>A stopped emitter of a shutdown has delivered everything that was pending.\<close>

lemma shutdown_flushes:
  assumes "audit.run (map Work (ws @ [Done])) (e\<lparr>em_done := True\<rparr>) = (out, e')" and "\<not> em_stopped e"
  shows "em_stopped e' \<and> out = em_pending e \<and> em_pending e' = []"
proof -
  obtain o1 e1 where r: "audit.run (map Work ws) (e\<lparr>em_done := True\<rparr>) = (o1, e1)" by fastforce
  have d: "em_done e1" using audit_run_done [OF r] by simp
  obtain o2 where w: "worker Done e1 = (o2, e')" and out: "out = o1 @ o2"
    using assms(1) r by (auto simp: audit_run_append split: prod.splits)
  from audit.run_accounts [OF r] have acc: "o1 @ em_pending e1 = em_pending e"
    by (auto simp: em_pending_def)
  have "em_stopped e1 \<longrightarrow> em_pending e1 = []" using audit_run_stops_empty [OF r] assms(2) by simp
  then have e': "em_stopped e' \<and> em_pending e' = []"
    using w d by (auto simp: worker_def em_pending_def split: if_splits)
  with acc out worker_law [OF w] show ?thesis by auto
qed

section \<open>Emitters are shared by configuration\<close>

definition nul_free_audit :: "audit_config \<Rightarrow> bool" where
  "nul_free_audit c \<longleftrightarrow> CHR 0x00 \<notin> set (ac_Endpoint c) \<and> CHR 0x00 \<notin> set (ac_ServiceName c)
     \<and> list_all (\<lambda>(n, v). CHR 0x00 \<notin> set n \<and> CHR 0x00 \<notin> set v) (ac_Headers c)"

definition audit_identity :: "audit_config \<Rightarrow> string \<times> string \<times> string \<times> (string \<rightharpoonup> string)" where
  "audit_identity c = (ac_Endpoint c, serviceName c, duration_string (ac_Timeout c), map_of (ac_Headers c))"

lemma set_sorted_keys [simp]: "set (sorted_keys m) = fst ` set m"
  by (simp add: sorted_keys_def)

lemma header_parts_nul_free:
  assumes "list_all (\<lambda>(n, v). CHR 0x00 \<notin> set n \<and> CHR 0x00 \<notin> set v) h" and "x \<in> set (header_parts h)"
  shows "CHR 0x00 \<notin> set x"
proof -
  from assms(2) obtain k where k: "k \<in> fst ` set h" and x: "x = k \<or> x = (case map_of h k of None \<Rightarrow> [] | Some v \<Rightarrow> v)"
    by (auto simp: header_parts_def)
  from x show ?thesis
  proof
    assume "x = k"
    with k assms(1) show ?thesis by (auto simp: list_all_iff)
  next
    assume "x = (case map_of h k of None \<Rightarrow> [] | Some v \<Rightarrow> v)"
    with assms(1) show ?thesis by (auto simp: list_all_iff split: option.splits dest!: map_of_SomeD)
  qed
qed

lemma header_parts_eq:
  assumes "map_of h = map_of h'" and "wf_map h" and "wf_map h'"
  shows "header_parts h = header_parts h'"
proof -
  have "set (map fst h) = set (map fst h')"
    using assms(1) dom_map_of_conv_image_fst by (metis image_set)
  then have "sorted_keys h = sorted_keys h'"
    using assms(2,3) unfolding sorted_keys_def wf_map_def by (intro sorted_distinct_set_unique) auto
  with assms(1) show ?thesis by (simp add: header_parts_def)
qed

lemma concat_pairs_inj:
  "concat (map (\<lambda>k. [k, f k]) xs) = concat (map (\<lambda>k. [k, g k]) ys) \<Longrightarrow> xs = ys \<and> (\<forall>k\<in>set xs. f k = g k)"
  by (induction xs arbitrary: ys; case_tac ys) auto

lemma header_parts_inj:
  assumes "header_parts h = header_parts h'"
  shows "map_of h = map_of h'"
proof -
  from concat_pairs_inj [OF assms [unfolded header_parts_def]]
  have keys: "sorted_keys h = sorted_keys h'"
    and vals: "\<And>k. k \<in> fst ` set h \<Longrightarrow> (case map_of h k of None \<Rightarrow> [] | Some v \<Rightarrow> v) = (case map_of h' k of None \<Rightarrow> [] | Some v \<Rightarrow> v)"
    by auto
  from keys have dom: "fst ` set h = fst ` set h'" by (metis set_sorted_keys)
  show ?thesis
  proof
    fix k
    show "map_of h k = map_of h' k"
    proof (cases "k \<in> fst ` set h")
      case True
      then have "map_of h k \<noteq> None" "map_of h' k \<noteq> None" using dom by (simp_all add: map_of_eq_None_iff)
      with vals [OF True] show ?thesis by auto
    next
      case False
      then have "map_of h k = None" "map_of h' k = None" using dom by (simp_all add: map_of_eq_None_iff)
      then show ?thesis by simp
    qed
  qed
qed

lemma duration_nul_free: "CHR 0x00 \<notin> set (duration_string d)"
proof -
  have n: "CHR 0x00 \<notin> set (show_nat n)" for n
    using show_nat_digits [of n] by (auto simp: list_all_iff is_digit_def)
  have "CHR 0x00 \<notin> set (pad_digits p m)" for p m
    using n by (auto simp: pad_digits_def Let_def)
  then have f: "CHR 0x00 \<notin> set (fraction_text p m)" for p m
    by (auto simp: fraction_text_def Let_def dest!: set_dropWhileD)
  have m: "byte 0xC2 \<noteq> CHR 0x00" "byte 0xB5 \<noteq> CHR 0x00" by code_simp+
  have "CHR 0x00 \<notin> set (unsigned_duration u)" for u
    using n f m [symmetric] by (simp add: unsigned_duration_def Let_def)
  then show ?thesis by (simp add: duration_string_def)
qed

definition audit_parts :: "audit_config \<Rightarrow> string list" where
  "audit_parts c = [ac_Endpoint c, serviceName c, duration_string (ac_Timeout c)] @ header_parts (ac_Headers c)"

lemma audit_parts_nul_free:
  assumes "nul_free_audit c"
  shows "\<forall>x\<in>set (audit_parts c). CHR 0x00 \<notin> set x"
proof -
  have "CHR 0x00 \<notin> set (serviceName c)" "CHR 0x00 \<notin> set (ac_Endpoint c)"
    using assms by (simp_all add: nul_free_audit_def serviceName_def DefaultServiceName_def)
  moreover have "\<forall>x\<in>set (header_parts (ac_Headers c)). CHR 0x00 \<notin> set x"
    using assms header_parts_nul_free [of "ac_Headers c"] unfolding nul_free_audit_def by blast
  ultimately show ?thesis using duration_nul_free by (simp add: audit_parts_def)
qed

lemma audit_parts_nonempty: "audit_parts c \<noteq> []"
  by (simp add: audit_parts_def)

lemma audit_key_identity:
  assumes "nul_free_audit c" and "nul_free_audit c'" and "wf_map (ac_Headers c)" and "wf_map (ac_Headers c')"
  shows "audit_key c = audit_key c' \<longleftrightarrow> audit_identity c = audit_identity c'"
proof
  assume "audit_key c = audit_key c'"
  then have "split CHR 0x00 (join [CHR 0x00] (audit_parts c)) = split CHR 0x00 (join [CHR 0x00] (audit_parts c'))"
    by (simp add: audit_key_def audit_parts_def)
  then have "audit_parts c = audit_parts c'"
    using split_join [OF audit_parts_nonempty audit_parts_nul_free [OF assms(1)]]
      split_join [OF audit_parts_nonempty audit_parts_nul_free [OF assms(2)]] by simp
  then have parts: "ac_Endpoint c = ac_Endpoint c'" "serviceName c = serviceName c'"
    "duration_string (ac_Timeout c) = duration_string (ac_Timeout c')"
    "header_parts (ac_Headers c) = header_parts (ac_Headers c')"
    by (simp_all add: audit_parts_def)
  from parts header_parts_inj [OF parts(4)] show "audit_identity c = audit_identity c'"
    by (simp add: audit_identity_def)
next
  assume "audit_identity c = audit_identity c'"
  then show "audit_key c = audit_key c'"
    using header_parts_eq [OF _ assms(3,4)] by (simp add: audit_identity_def audit_key_def)
qed

definition audit_inv :: "('w, 'z) audit_proc_scheme \<Rightarrow> bool" where
  "audit_inv s \<longleftrightarrow> wf_map (emitters s) \<and> inj_on snd (set (emitters s))
     \<and> (\<forall>i\<in>snd ` set (emitters s). i < length (emitter_heap s))"

lemma set_gset_new: "map_of m k = None \<Longrightarrow> set (gset k v m) = insert (k, v) (set m)"
  by (induction m) (auto simp: gset_def)

lemma Get_facts:
  assumes "audit_inv s" and "Get cfg s = (i, s')"
  shows "audit_inv s'" and "map_of (emitters s') (audit_key cfg) = Some i"
    and "map_of (emitters s) k = Some j \<Longrightarrow> map_of (emitters s') k = Some j"
    and "i < length (emitter_heap s')"
proof -
  show "map_of (emitters s') (audit_key cfg) = Some i"
    and "map_of (emitters s) k = Some j \<Longrightarrow> map_of (emitters s') k = Some j"
    using assms(2) by (auto simp: Get_def split: option.splits)
  show inv: "audit_inv s'"
  proof (cases "map_of (emitters s) (audit_key cfg)")
    case (Some j)
    then show ?thesis using assms by (simp add: Get_def)
  next
    case None
    let ?n = "length (emitter_heap s)"
    have s': "emitters s' = gset (audit_key cfg) ?n (emitters s)" "length (emitter_heap s') = Suc ?n"
      using assms(2) None by (auto simp: Get_def)
    have "?n \<notin> snd ` set (emitters s)" using assms(1) by (auto simp: audit_inv_def)
    then have "inj_on snd (set (emitters s'))"
      using assms(1) None s' by (auto simp: set_gset_new audit_inv_def)
    moreover have "\<forall>i\<in>snd ` set (emitters s'). i < length (emitter_heap s')"
      using assms(1) None s' by (auto simp: set_gset_new audit_inv_def less_Suc_eq)
    ultimately show ?thesis using assms(1) s'(1) by (simp add: audit_inv_def)
  qed
  from \<open>map_of (emitters s') (audit_key cfg) = Some i\<close> inv show "i < length (emitter_heap s')"
    by (force simp: audit_inv_def dest: map_of_SomeD)
qed

lemma audit_inv_inj: "audit_inv s \<Longrightarrow> map_of (emitters s) k = Some i \<Longrightarrow> map_of (emitters s) k' = Some i \<Longrightarrow> k = k'"
  using inj_onD [of snd "set (emitters s)" "(k, i)" "(k', i)"]
  by (auto simp: audit_inv_def dest!: map_of_SomeD)

section \<open>Whole runs\<close>

fun emitter_run :: "(event, wake) sink_op list \<Rightarrow> emitter \<Rightarrow> event list \<times> emitter" where
  "emitter_run [] e = ([], e)"
| "emitter_run (Offer ev # ops) e = emitter_run ops (offer ev e)"
| "emitter_run (Work w # ops) e =
     (case worker w e of (out, e1) \<Rightarrow> (case emitter_run ops e1 of (out', e2) \<Rightarrow> (out @ out', e2)))"

lemma emitter_run_sink: "emitter_run ops e = audit.run ops e"
  by (induction ops e rule: emitter_run.induct) (auto split: prod.splits)

lemma worker_turn_heap:
  "i < length (emitter_heap s) \<Longrightarrow> emitter_heap (worker_turn env i w s) = (emitter_heap s)[i := snd (worker w (emitter_heap s ! i))]"
proof -
  have lg: "emitter_heap (log_every env lvl k m t) = emitter_heap t" for lvl k m and t :: "('a, 'b) audit_proc_scheme"
    using log_every_split [of env lvl k m t] by auto
  have ex: "emitter_heap (export env e b t) = emitter_heap t" for e b and t :: "('a, 'b) audit_proc_scheme"
    by (auto simp: export_def logf_def lg split: sum.splits prod.splits http_result.splits dest!: http_do_split)
  show ?thesis by (auto simp: worker_turn_def Let_def ex split: prod.splits)
qed

lemma turns_heap:
  "i < length (emitter_heap s) \<Longrightarrow>
   emitter_heap (foldl (\<lambda>s w. worker_turn env i w s) s ws)
     = (emitter_heap s)[i := snd (emitter_run (map Work ws) (emitter_heap s ! i))]"
  by (induction ws arbitrary: s) (auto simp: worker_turn_heap split: prod.splits)

lemma Shutdown_heap:
  "i < length (emitter_heap s) \<Longrightarrow>
   emitter_heap (Shutdown env ws i s)
     = (emitter_heap s)[i := snd (emitter_run (map Work (ws @ [Done])) ((emitter_heap s ! i)\<lparr>em_done := True\<rparr>))]"
  unfolding Shutdown_def Let_def by (subst turns_heap) simp_all

definition flushed :: "emitter \<Rightarrow> bool" where
  "flushed e \<longleftrightarrow> em_stopped e \<and> em_pending e = []"

lemma run_stopped: "em_stopped e \<Longrightarrow> emitter_run (map Work ws) e = ([], e)"
  by (induction ws) (simp_all add: worker_stopped)

lemma Shutdown_flushed:
  assumes "i < length (emitter_heap s)" and "em_stopped (emitter_heap s ! i) \<longrightarrow> em_pending (emitter_heap s ! i) = []"
  shows "flushed (emitter_heap (Shutdown env ws i s) ! i)"
proof (cases "em_stopped (emitter_heap s ! i)")
  case True
  then have st: "em_stopped ((emitter_heap s ! i)\<lparr>em_done := True\<rparr>)" by simp
  then show ?thesis
    using assms True by (simp add: Shutdown_heap run_stopped [OF st, simplified] flushed_def em_pending_def del: map_append)
next
  case False
  obtain out e' where r: "emitter_run (map Work (ws @ [Done])) ((emitter_heap s ! i)\<lparr>em_done := True\<rparr>) = (out, e')" by fastforce
  from shutdown_flushes [OF r [unfolded emitter_run_sink] False] show ?thesis
    using assms(1) r by (simp add: Shutdown_heap flushed_def del: map_append)
qed

lemma Shutdown_keeps:
  assumes "i < length (emitter_heap s)" and "flushed (emitter_heap s ! j)"
  shows "flushed (emitter_heap (Shutdown env ws i s) ! j)"
proof (cases "i = j")
  case True
  with assms Shutdown_flushed [of i s env ws] show ?thesis by (simp add: flushed_def)
next
  case False
  with assms show ?thesis by (simp add: Shutdown_heap)
qed

section \<open>What a shutdown exports\<close>

definition export_request :: "emitter \<Rightarrow> event list \<Rightarrow> http_request" where
  "export_request e batch =
     (foldl (\<lambda>r (name, value). set_header (CanonicalHeaderKey name) value r)
        (set_header ''Content-Type'' ''application/json''
           \<lparr>rq_method = ''POST'', rq_url = em_endpoint e, rq_host = [], rq_headers = [], rq_body = Some (buildPayload e batch), rq_timeout = 0\<rparr>)
        (em_headers e))\<lparr>rq_timeout := em_timeout e\<rparr>"

definition same_target :: "emitter \<Rightarrow> emitter \<Rightarrow> bool" where
  "same_target e e' \<longleftrightarrow> em_endpoint e' = em_endpoint e \<and> em_serviceName e' = em_serviceName e
     \<and> em_headers e' = em_headers e \<and> em_timeout e' = em_timeout e"

lemma same_target_request: "same_target e e' \<Longrightarrow> export_request e' b = export_request e b"
  by (simp add: same_target_def export_request_def buildPayload_def)

lemma worker_target: "worker w e = (out, e') \<Longrightarrow> same_target e e'"
  by (cases w) (auto simp: worker_def same_target_def Let_def split: if_splits list.splits)

lemma calls_export:
  assumes "url_error env (em_endpoint e) = None"
  shows "\<exists>r. calls (export (traced env) e b s) = calls s @ [(export_request e b, r)]"
  using assms
  by (auto simp: export_def new_request_def export_request_def split: prod.splits http_result.splits dest!: calls_http_do)

lemma calls_heap_update: "calls (s\<lparr>emitter_heap := h\<rparr>) = calls s"
  by (simp add: calls_def)

lemma calls_worker_turn:
  assumes "url_error env (em_endpoint (emitter_heap s ! i)) = None"
    and "worker w (emitter_heap s ! i) = (batch, e')"
  shows "\<exists>es bs. calls (worker_turn (traced env) i w s) = calls s @ es \<and> [] \<notin> set bs \<and> concat bs = batch
           \<and> map fst es = map (export_request (emitter_heap s ! i)) bs"
proof (cases "batch = []")
  case True
  with assms(2) have "calls (worker_turn (traced env) i w s) = calls s @ []"
    by (simp add: worker_turn_def Let_def calls_heap_update)
  with True show ?thesis by (intro exI [of _ "[]"]) simp
next
  case False
  have "same_target (emitter_heap s ! i) e'" using worker_target [OF assms(2)] .
  moreover from this assms(1) have "url_error env (em_endpoint e') = None" by (simp add: same_target_def)
  from calls_export [OF this, of batch "s\<lparr>emitter_heap := (emitter_heap s)[i := e']\<rparr>"]
  obtain r where "calls (worker_turn (traced env) i w s) = calls s @ [(export_request e' batch, r)]"
    using assms(2) False by (auto simp: worker_turn_def Let_def calls_heap_update)
  ultimately show ?thesis
    using False
    by (intro exI [of _ "[(export_request e' batch, r)]"] exI [of _ "[batch]"]) (simp add: same_target_request)
qed

lemma calls_turns:
  assumes "i < length (emitter_heap s)" and "url_error env (em_endpoint (emitter_heap s ! i)) = None"
  shows "\<exists>es bs. calls (foldl (\<lambda>s w. worker_turn (traced env) i w s) s ws) = calls s @ es \<and> [] \<notin> set bs
           \<and> concat bs = fst (emitter_run (map Work ws) (emitter_heap s ! i))
           \<and> map fst es = map (export_request (emitter_heap s ! i)) bs"
  using assms
proof (induction ws arbitrary: s)
  case Nil
  show ?case by (intro exI [of _ "[]"]) simp
next
  case (Cons w ws)
  obtain batch e1 where w: "worker w (emitter_heap s ! i) = (batch, e1)" by fastforce
  let ?s1 = "worker_turn (traced env) i w s"
  have e1: "emitter_heap ?s1 ! i = e1" "i < length (emitter_heap ?s1)"
    using Cons.prems(1) w by (simp_all add: worker_turn_heap)
  have t: "same_target (emitter_heap s ! i) e1" using worker_target [OF w] .
  obtain es bs where c: "calls ?s1 = calls s @ es" "[] \<notin> set bs" "concat bs = batch"
    "map fst es = map (export_request (emitter_heap s ! i)) bs"
    using calls_worker_turn [OF Cons.prems(2) w] by blast
  from t Cons.prems(2) e1 have u: "url_error env (em_endpoint (emitter_heap ?s1 ! i)) = None" by (simp add: same_target_def)
  obtain es' bs' where d: "calls (foldl (\<lambda>s w. worker_turn (traced env) i w s) ?s1 ws) = calls ?s1 @ es'"
    "[] \<notin> set bs'" "concat bs' = fst (emitter_run (map Work ws) e1)" "map fst es' = map (export_request e1) bs'"
    using Cons.IH [OF e1(2) u] unfolding e1(1) by blast
  have "export_request e1 = export_request (emitter_heap s ! i)" using same_target_request [OF t] by blast
  with c d w show ?case
    by (intro exI [of _ "es @ es'"] exI [of _ "bs @ bs'"]) (simp split: prod.splits)
qed

lemma Shutdown_calls:
  assumes "i < length (emitter_heap s)" and "\<not> em_stopped (emitter_heap s ! i)"
    and "url_error env (em_endpoint (emitter_heap s ! i)) = None"
  shows "\<exists>es batches. calls (Shutdown (traced env) ws i s) = calls s @ es \<and> [] \<notin> set batches
    \<and> concat batches = em_pending (emitter_heap s ! i)
    \<and> map fst es = map (export_request (emitter_heap s ! i)) batches"
proof -
  let ?e = "emitter_heap s ! i"
  let ?s1 = "s\<lparr>emitter_heap := (emitter_heap s)[i := ?e\<lparr>em_done := True\<rparr>]\<rparr>"
  obtain out e' where r: "emitter_run (map Work (ws @ [Done])) (?e\<lparr>em_done := True\<rparr>) = (out, e')" by fastforce
  have out: "out = em_pending ?e" using shutdown_flushes [OF r [unfolded emitter_run_sink] assms(2)] by blast
  have "same_target ?e (?e\<lparr>em_done := True\<rparr>)" by (simp add: same_target_def)
  from same_target_request [OF this] have eq: "export_request (?e\<lparr>em_done := True\<rparr>) = export_request ?e" by blast
  have "i < length (emitter_heap ?s1)" "url_error env (em_endpoint (emitter_heap ?s1 ! i)) = None"
    using assms(1,3) by simp_all
  from calls_turns [OF this, of "ws @ [Done]"] show ?thesis
    using assms(1) r out eq by (simp add: Shutdown_def Let_def calls_heap_update del: map_append foldl_append)
qed

section \<open>Claims\<close>

text \<open>
  C30.  The fate of every audit event, for any interleaving of \<open>Emit\<close> and the worker's wake-ups: the
  events handed to \<open>export\<close> and those still held are exactly the accepted ones, each once and in the
  order they were offered, with their reason sanitised; all others are counted as dropped.
\<close>

theorem audit_accounts:
  assumes "emitter_run ops (newEmitter cfg) = (out, e)"
  shows "\<exists>taken. subseq taken (map sanitized_event (offered ops)) \<and> out @ em_pending e = taken
    \<and> em_dropped e = word_of_nat (length (offered ops) - length taken)"
proof -
  have "em_pending (newEmitter cfg) = [] \<and> em_dropped (newEmitter cfg) = 0"
    by (simp add: em_pending_def newEmitter_def Let_def)
  with audit.run_accounts [OF assms [unfolded emitter_run_sink]] show ?thesis by auto
qed

definition demo_audit :: audit_config where
  "demo_audit = \<lparr>ac_Endpoint = ''http://otel/'', ac_ServiceName = [], ac_Timeout = second, ac_Headers = []\<rparr>"

definition demo_event :: event where
  "demo_event = \<lparr>ev_Time = 0, ev_RequestID = ''r1'', ev_Subject = ''did:o'', ev_Resource = ''/d'', ev_Method = ''GET'',
     ev_Decision = ''deny'', ev_Reason = ''no''\<rparr>"

theorem audit_accounts_witness:
  "\<exists>e taken. emitter_run [Offer demo_event, Work Receive, Offer demo_event, Work Tick] (newEmitter demo_audit)
       = ([sanitized_event demo_event], e)
     \<and> subseq taken [sanitized_event demo_event, sanitized_event demo_event]
     \<and> sanitized_event demo_event # em_pending e = taken"
proof -
  obtain e where r: "emitter_run [Offer demo_event, Work Receive, Offer demo_event, Work Tick] (newEmitter demo_audit)
       = ([sanitized_event demo_event], e)"
    by (simp add: newEmitter_def Let_def offer_def worker_def defaultQueueSize_def defaultBatchSize_def)
  from audit_accounts [OF r] r show ?thesis by auto
qed

text \<open>
  The emitter's memory is bounded: in every state it can reach, whatever the order of offers,
  wake-ups and the shutdown, at most 2048 events are queued and fewer than 64 batched, and a turn of
  the worker before shutdown exports at most 64.
\<close>

theorem audit_bounds:
  assumes "emitter_step\<^sup>*\<^sup>* (newEmitter cfg) e" and "worker w e = (out, e')" and "w \<noteq> Done"
  shows "length (em_queue e) \<le> 2048 \<and> length (em_batch e) < 64 \<and> length out \<le> 64"
  using emitter_steps_inv [OF assms(1) newEmitter_inv] worker_batch_size [OF _ assms(2,3)]
  by (auto simp: emitter_inv_def)

theorem audit_bounds_witness:
  "\<exists>out e'. worker Receive (offer demo_event (newEmitter demo_audit)) = (out, e')
     \<and> length (em_queue (offer demo_event (newEmitter demo_audit))) \<le> 2048 \<and> length out \<le> 64"
proof -
  obtain out e' where w: "worker Receive (offer demo_event (newEmitter demo_audit)) = (out, e')" by fastforce
  from audit_bounds [OF r_into_rtranclp [of emitter_step, OF emitter_step.offer] w] w show ?thesis by auto
qed

text \<open>
  A shutdown loses nothing: before \<open>Shutdown\<close> of a live emitter returns, everything it held has
  been handed to the exporter, each event once and in order, in nonempty batches sent to the emitter's
  endpoint, however often the worker wakes up for other reasons before it sees the shutdown.
\<close>

theorem Shutdown_exports:
  assumes "i < length (emitter_heap s)" and "\<not> em_stopped (emitter_heap s ! i)"
    and "url_error env (em_endpoint (emitter_heap s ! i)) = None"
  shows "\<exists>es batches. calls (Shutdown (traced env) ws i s) = calls s @ es \<and> [] \<notin> set batches
    \<and> concat batches = em_pending (emitter_heap s ! i)
    \<and> map fst es = map (export_request (emitter_heap s ! i)) batches"
  using assms by (rule Shutdown_calls)

definition demo_audit_proc :: "(int \<times> exchange list) audit_proc" where
  "demo_audit_proc =
     \<lparr>world = (0, []), supp = [], log_lines = [], credCache = [], participantSDCache = [], identifierCache = [],
      store = empty_store, janitorStarted = False, decisions = [], dependencyCalls = [], latency = [],
      purposeUnconstrained = 0, callbacks = [],
      emitter_heap = [offer demo_event (newEmitter demo_audit)], emitters = [(audit_key demo_audit, 0)]\<rparr>"

lemma demo_offer: "\<not> em_stopped (offer demo_event (newEmitter demo_audit))"
  "em_pending (offer demo_event (newEmitter demo_audit)) = [sanitized_event demo_event]"
  by (simp_all add: offer_def newEmitter_def Let_def em_pending_def defaultQueueSize_def)

theorem Shutdown_exports_witness:
  "\<exists>es batches. calls (Shutdown (traced (scripted_env demo_reply)) [Tick] 0 demo_audit_proc) = es \<and> length es = length batches
     \<and> concat batches = [sanitized_event demo_event]"
proof -
  have "0 < length (emitter_heap demo_audit_proc)" "\<not> em_stopped (emitter_heap demo_audit_proc ! 0)"
    "url_error (scripted_env demo_reply) (em_endpoint (emitter_heap demo_audit_proc ! 0)) = None"
    by (simp_all add: demo_audit_proc_def demo_offer scripted_env_def)
  from Shutdown_exports [OF this, of "[Tick]"] obtain es batches where
    c: "calls (Shutdown (traced (scripted_env demo_reply)) [Tick] 0 demo_audit_proc) = calls demo_audit_proc @ es"
      "concat batches = em_pending (emitter_heap demo_audit_proc ! 0)"
      "map fst es = map (export_request (emitter_heap demo_audit_proc ! 0)) batches" by blast
  have "length es = length batches" using arg_cong [OF c(3), of length] by simp
  with c show ?thesis by (auto simp: demo_audit_proc_def demo_offer calls_def)
qed

text \<open>
  C31.  Emitters are shared exactly by configuration: two calls of \<open>Get\<close> return the same emitter if and
  only if endpoint, effective service name, timeout and headers agree, so the events of one destination
  are never queued for another.
\<close>

theorem Get_shares:
  assumes "audit_inv s" and "Get cfg s = (i, s1)" and "Get cfg' s1 = (j, s2)"
    and "nul_free_audit cfg" and "nul_free_audit cfg'" and "wf_map (ac_Headers cfg)" and "wf_map (ac_Headers cfg')"
  shows "i = j \<longleftrightarrow> audit_identity cfg = audit_identity cfg'"
proof -
  note g = Get_facts [OF assms(1,2)]
  note g' = Get_facts [OF g(1) assms(3)]
  have "map_of (emitters s2) (audit_key cfg) = Some i" using g'(3) [OF g(2)] .
  with g'(2) have "i = j \<longleftrightarrow> audit_key cfg = audit_key cfg'" using audit_inv_inj [OF g'(1)] by auto
  then show ?thesis using audit_key_identity [OF assms(4-7)] by simp
qed

lemma audit_inv_demo: "audit_inv demo_audit_proc"
  by (simp add: audit_inv_def demo_audit_proc_def wf_map_def)

theorem Get_shares_witness:
  "\<exists>i s1 j s2. Get demo_audit demo_audit_proc = (i, s1)
     \<and> Get (demo_audit\<lparr>ac_ServiceName := ''x''\<rparr>) s1 = (j, s2) \<and> i \<noteq> j"
proof -
  obtain i s1 where g: "Get demo_audit demo_audit_proc = (i, s1)" by fastforce
  obtain j s2 where g': "Get (demo_audit\<lparr>ac_ServiceName := ''x''\<rparr>) s1 = (j, s2)" by fastforce
  have n: "nul_free_audit demo_audit" "nul_free_audit (demo_audit\<lparr>ac_ServiceName := ''x''\<rparr>)"
    "wf_map (ac_Headers demo_audit)" "wf_map (ac_Headers (demo_audit\<lparr>ac_ServiceName := ''x''\<rparr>))"
    by (simp_all add: nul_free_audit_def demo_audit_def wf_map_def)
  have "audit_identity demo_audit \<noteq> audit_identity (demo_audit\<lparr>ac_ServiceName := ''x''\<rparr>)"
    by (simp add: audit_identity_def demo_audit_def serviceName_def DefaultServiceName_def)
  with Get_shares [OF audit_inv_demo g g' n] g g' show ?thesis by blast
qed

section \<open>After a shutdown\<close>

lemma ShutdownAll_emitters:
  fixes s :: "('w, 'z) audit_proc_scheme"
  shows "emitters (ShutdownAll env ws s) = []"
proof -
  have lg: "emitters (log_every env lvl k m t) = emitters t" for lvl k m and t :: "('w, 'z) audit_proc_scheme"
    using log_every_split [of env lvl k m t] by auto
  have ex: "emitters (export env e b t) = emitters t" for e b and t :: "('w, 'z) audit_proc_scheme"
    by (auto simp: export_def logf_def lg split: sum.splits prod.splits http_result.splits dest!: http_do_split)
  have wt: "emitters (worker_turn env i w t) = emitters t" for i w and t :: "('w, 'z) audit_proc_scheme"
    by (auto simp: worker_turn_def Let_def ex split: prod.splits)
  have ts: "emitters (foldl (\<lambda>s w. worker_turn env i w s) t vs) = emitters t" for i vs and t :: "('w, 'z) audit_proc_scheme"
    by (induction vs arbitrary: t) (simp_all add: wt)
  have "emitters (Shutdown env vs i t) = emitters t" for i vs and t :: "('w, 'z) audit_proc_scheme"
    unfolding Shutdown_def Let_def by (subst ts) simp
  then have sd: "emitters (case x of (_, i) \<Rightarrow> Shutdown env (ws i) i t) = emitters t" for x :: "string \<times> nat" and t :: "('w, 'z) audit_proc_scheme"
    by (cases x) simp
  have "emitters (foldl (\<lambda>s (_, i). Shutdown env (ws i) i s) t es) = emitters t" for es :: "(string \<times> nat) list" and t :: "('w, 'z) audit_proc_scheme"
    by (induction es arbitrary: t) (simp_all only: foldl.simps sd)
  from this [of "s\<lparr>emitters := []\<rparr>" "emitters s"] show ?thesis by (simp add: ShutdownAll_def)
qed

text \<open>
  The published count of dropped events, declared a counter that only grows, forgets everything when the
  emitters are shut down.
\<close>

lemma Dropped_after_ShutdownAll: "Dropped (ShutdownAll env ws s) = 0"
  by (simp add: Dropped_def ShutdownAll_emitters)

text \<open>An event offered to a stopped emitter is accepted, but neither exported nor counted as dropped.\<close>

lemma late_event_lost:
  assumes "flushed e"
  shows "emitter_run (Offer ev # map Work ws) e = ([], e\<lparr>em_queue := [sanitized_event ev]\<rparr>)"
proof -
  have "offer ev e = e\<lparr>em_queue := [sanitized_event ev]\<rparr>" using assms
    by (simp add: flushed_def em_pending_def offer_def defaultQueueSize_def)
  then show ?thesis using assms by (simp add: run_stopped flushed_def)
qed

end
