(* ===== verification/Filter_Props.thy ===== *)
theory Filter_Props
  imports Consent_Filter Owners_Props Claim_Props Config_Props Audit_Props
begin

text \<open>
  The lemmas behind the guarantees of the plugin: the header object of a response as the interface
  \<open>header_object\<close> with its implementation by the header map of \<open>net/http\<close>, the calls of each part of the
  response phase, what an allow of each part rests on, and that evaluation ends in one of two verdicts.
\<close>

section \<open>The header object\<close>

text \<open>
  Names are looked up in canonical form and the object only holds canonical names (\<open>inv\<close>); the view
  enumerates them all.
\<close>

locale header_object =
  fixes inv :: "'h \<Rightarrow> bool"
    and names :: "'h \<Rightarrow> string set"
    and hops :: "'h header_ops"
  assumes canonical: "inv h \<Longrightarrow> n \<in> names h \<Longrightarrow> CanonicalHeaderKey n = n"
    and view: "inv h \<Longrightarrow> (case hd_view hops h of None \<Rightarrow> names h = {} | Some ns \<Rightarrow> set ns = names h)"
    and set_inv: "inv h \<Longrightarrow> inv (hd_set hops n v h)"
    and del_inv: "inv h \<Longrightarrow> inv (hd_del hops n h)"
    and set_names: "inv h \<Longrightarrow> names (hd_set hops n v h) = insert (CanonicalHeaderKey n) (names h)"
    and del_names: "inv h \<Longrightarrow> names (hd_del hops n h) = names h - {CanonicalHeaderKey n}"
    and get_set: "inv h \<Longrightarrow> hd_get hops n (hd_set hops m v h)
          = (if CanonicalHeaderKey n = CanonicalHeaderKey m then v else hd_get hops n h)"
    and get_del: "inv h \<Longrightarrow> CanonicalHeaderKey n \<noteq> CanonicalHeaderKey m \<Longrightarrow> hd_get hops n (hd_del hops m h) = hd_get hops n h"
begin

lemma strip_loop:
  "inv h \<Longrightarrow> \<forall>n\<in>set ns. CanonicalHeaderKey n = n \<Longrightarrow>
   inv (foldl (\<lambda>h name. if survivesDenial name then h else hd_del hops name h) h ns)
   \<and> names (foldl (\<lambda>h name. if survivesDenial name then h else hd_del hops name h) h ns)
       = {n \<in> names h. n \<in> set ns \<longrightarrow> survivesDenial n}
   \<and> (\<forall>n. survivesDenial n \<longrightarrow>
        hd_get hops n (foldl (\<lambda>h name. if survivesDenial name then h else hd_del hops name h) h ns) = hd_get hops n h)"
proof (induction ns arbitrary: h)
  case (Cons a ns)
  show ?case
  proof (cases "survivesDenial a")
    case True
    with Cons show ?thesis by auto
  next
    case False
    have ca: "CanonicalHeaderKey a = a" using Cons.prems(2) by simp
    have ne: "CanonicalHeaderKey n \<noteq> CanonicalHeaderKey a" if "survivesDenial n" for n
      using that False by (auto simp: survivesDenial_def)
    from Cons.IH [OF del_inv [OF Cons.prems(1)], of a] Cons.prems False ca ne show ?thesis
      by (auto simp: del_names get_del)
  qed
qed simp

lemma stripped:
  assumes "inv h"
  shows "inv (strip_headers hops h) \<and> names (strip_headers hops h) = {n \<in> names h. survivesDenial n}
    \<and> (\<forall>n. survivesDenial n \<longrightarrow> hd_get hops n (strip_headers hops h) = hd_get hops n h)"
proof (cases "hd_view hops h")
  case None
  with view [OF assms] assms show ?thesis by (simp add: strip_headers_def)
next
  case (Some ns)
  then have ns: "set ns = names h" using view [OF assms] by simp
  then have "\<forall>n\<in>set ns. CanonicalHeaderKey n = n" using canonical [OF assms] by blast
  from strip_loop [OF assms this] Some ns show ?thesis by (auto simp: strip_headers_def)
qed

lemma denied_headers:
  assumes "inv h" and "rr_header w = Some h" and "denyResponse hops w cfg s = Some (w', s')"
  shows "\<exists>h'. rr_header w' = Some h' \<and> inv h'
    \<and> names h' = {n \<in> names h. survivesDenial n} \<union> {''Content-Type'', ''Content-Length''}
    \<and> hd_get hops ''Content-Type'' h' = DenyResponseContentType cfg
    \<and> hd_get hops ''Content-Length'' h' = show_nat (length (DenyResponseBody cfg))
    \<and> rr_status w' = Some (DenyStatusCode cfg) \<and> rr_written w' = Some (DenyResponseBody cfg)"
proof -
  have c: "CanonicalHeaderKey ''Content-Type'' = ''Content-Type''" "CanonicalHeaderKey ''Content-Length'' = ''Content-Length''"
    by code_simp+
  let ?h1 = "hd_set hops ''Content-Type'' (DenyResponseContentType cfg) (strip_headers hops h)"
  let ?h2 = "hd_set hops ''Content-Length'' (show_nat (length (DenyResponseBody cfg))) ?h1"
  note st = stripped [OF assms(1)]
  have i0: "inv (strip_headers hops h)" using st by blast
  note i1 = set_inv [OF i0, of "''Content-Type''" "DenyResponseContentType cfg"]
  note i2 = set_inv [OF i1, of "''Content-Length''" "show_nat (length (DenyResponseBody cfg))"]
  have "names ?h2 = {n \<in> names h. survivesDenial n} \<union> {''Content-Type'', ''Content-Length''}"
    unfolding set_names [OF i1] set_names [OF i0] c using st by blast
  moreover have "hd_get hops ''Content-Type'' ?h2 = DenyResponseContentType cfg"
    unfolding get_set [OF i1] get_set [OF i0] c by simp
  moreover have "hd_get hops ''Content-Length'' ?h2 = show_nat (length (DenyResponseBody cfg))"
    unfolding get_set [OF i1] c by simp
  moreover have "w' = w\<lparr>rr_header := Some ?h2, rr_header_used := True, rr_status := Some (DenyStatusCode cfg),
      rr_written := Some (DenyResponseBody cfg)\<rparr>"
    using assms(2,3) unfolding denyResponse_def Let_def by simp
  ultimately show ?thesis using i2 by simp
qed

end

text \<open>The header map of \<open>net/http\<close> with one value per name: keys are canonical.\<close>

definition http_header_ops :: "(string \<times> string) list header_ops" where
  "http_header_ops =
     \<lparr>hd_view = (\<lambda>h. Some (map fst h)),
      hd_get = (\<lambda>n h. case map_of h (CanonicalHeaderKey n) of Some v \<Rightarrow> v | None \<Rightarrow> []),
      hd_set = (\<lambda>n v h. gset (CanonicalHeaderKey n) v h),
      hd_del = (\<lambda>n h. gdel (CanonicalHeaderKey n) h)\<rparr>"

definition canonical_header :: "(string \<times> string) list \<Rightarrow> bool" where
  "canonical_header h \<longleftrightarrow> list_all (\<lambda>n. CanonicalHeaderKey n = n) (map fst h)"

lemma keys_gset: "fst ` set (gset k v m) = insert k (fst ` set m)"
proof -
  have "set (map fst (gset k v m)) = insert k (set (map fst m))" by (auto simp: gset_def update_keys)
  then show ?thesis by simp
qed

interpretation http_headers: header_object canonical_header "\<lambda>h. fst ` set h" http_header_ops
proof
  fix h :: "(string \<times> string) list" and n m v :: string
  assume h: "canonical_header h"
  show "n \<in> fst ` set h \<Longrightarrow> CanonicalHeaderKey n = n" using h by (auto simp: canonical_header_def list_all_iff)
  show "case hd_view http_header_ops h of None \<Rightarrow> fst ` set h = {} | Some ns \<Rightarrow> set ns = fst ` set h"
    by (simp add: http_header_ops_def)
  have "fst ` set (hd_set http_header_ops n v h) = insert (CanonicalHeaderKey n) (fst ` set h)"
    by (simp add: http_header_ops_def keys_gset)
  then show "fst ` set (hd_set http_header_ops n v h) = insert (CanonicalHeaderKey n) (fst ` set h)"
    and "canonical_header (hd_set http_header_ops n v h)"
    using h unfolding canonical_header_def list.pred_set set_map by auto
  have "fst ` set (hd_del http_header_ops n h) = fst ` set h - {CanonicalHeaderKey n}"
    by (simp add: http_header_ops_def keys_gdel)
  then show "fst ` set (hd_del http_header_ops n h) = fst ` set h - {CanonicalHeaderKey n}"
    and "canonical_header (hd_del http_header_ops n h)"
    using h unfolding canonical_header_def list.pred_set set_map by auto
  show "hd_get http_header_ops n (hd_set http_header_ops m v h)
      = (if CanonicalHeaderKey n = CanonicalHeaderKey m then v else hd_get http_header_ops n h)"
    by (simp add: http_header_ops_def)
  show "CanonicalHeaderKey n \<noteq> CanonicalHeaderKey m \<Longrightarrow> hd_get http_header_ops n (hd_del http_header_ops m h) = hd_get http_header_ops n h"
    by (simp add: http_header_ops_def)
qed

section \<open>The calls of the response phase\<close>

lemma calls_checkPurposeScoping:
  "checkPurposeScoping (traced env) cfg key cs s = (oc, s') \<Longrightarrow> calls s' = calls s"
  by (induction "traced env" cfg key cs s rule: checkPurposeScoping.induct) (auto split: if_splits)

lemma calls_Load: "LoadAndDeleteRequestContext (traced env) key s = (r, s') \<Longrightarrow> calls s' = calls s"
  by (auto simp: LoadAndDeleteRequestContext_def calls_def split: if_splits prod.splits dest!: calls_time_now)

lemma calls_RecordDecision [simp]: "calls (RecordDecision d m s) = calls s"
  by (simp add: RecordDecision_def calls_def)

lemma calls_Emit: "calls (Emit i ev s) = calls s"
  by (simp add: Emit_def Let_def calls_heap_update)

lemma calls_recordAudit: "calls (recordAudit (traced env) cfg oc s) = calls s"
proof -
  have em: "calls (foldl (\<lambda>s ev. Emit i ev s) t evs) = calls t" for i evs and t :: "('a \<times> exchange list, 'b) audit_proc_scheme"
    by (induction evs arbitrary: t) (simp_all add: calls_Emit)
  have g: "calls t' = calls t" if "Get c t = (i, t')" for c i and t t' :: "('a \<times> exchange list, 'b) audit_proc_scheme"
    using that by (auto simp: Get_def calls_def split: option.splits)
  show ?thesis
  proof (cases "AuditEnabled cfg")
    case True
    obtain i t where i: "Get (audit_config_of cfg) s = (i, t)" by fastforce
    obtain now t' where t: "time_now (traced env) t = (now, t')" by fastforce
    from True i t show ?thesis by (simp add: recordAudit_def em calls_time_now [OF t] g [OF i])
  qed (simp add: recordAudit_def)
qed

lemma identify_parties_Inr:
  assumes "identify_parties (traced env) cfg key ctx client s = (Inr p, s')"
  shows "\<exists>did s1 es. consumerFromClaims (traced env) (rc_JWTClaims ctx) (ConsumerClaim cfg) = Inr did
    \<and> ParticipantSelfDescriptionByDID (traced env) client did s = (Inr (pt_Consumer p), s1) \<and> calls s' = calls s @ es"
proof -
  obtain did where d: "consumerFromClaims (traced env) (rc_JWTClaims ctx) (ConsumerClaim cfg) = Inr did"
    using assms by (auto simp: identify_parties_def split: sum.splits)
  obtain a s1 where a: "ParticipantSelfDescriptionByDID (traced env) client did s = (a, s1)" by fastforce
  obtain b s2 where b: "ProviderSelfDescription (traced env) client s1 = (b, s2)" by fastforce
  have "a = Inr (pt_Consumer p) \<and> s' = s2"
    using assms d a b by (auto simp: identify_parties_def split: sum.splits)
  moreover from issued_later [OF issued_trans [OF issued_ParticipantSD [OF a] issued_ProviderSelfDescription [OF b]]]
  obtain es where "calls s2 = calls s @ es" by blast
  ultimately show ?thesis using d a by auto
qed

definition resolver_question :: "config \<Rightarrow> request_context \<Rightarrow> string \<Rightarrow> parties \<Rightarrow> string \<Rightarrow> http_request" where
  "resolver_question cfg ctx contentType p body =
     resolve_request (resolver_NewClient (OwnerResolverURL cfg) (OwnerResolverTimeout cfg))
       \<lparr>rs_Service = Service cfg, rs_Method = rc_Method ctx, rs_Path = rc_Path ctx, rs_ContentType = contentType\<rparr> p body"

lemma ask_resolver_Inr:
  assumes "ask_resolver (traced env) cfg ctx ct p body s = (Inr result, s')"
  shows "\<exists>rbody. calls s' = calls s @ [(resolver_question cfg ctx ct p body, Response 200 rbody)]
    \<and> unmarshal dec_result rbody zero_result = Some result"
proof -
  obtain t0 s1 where t0: "time_now (traced env) s = (t0, s1)" by fastforce
  obtain a s2 where a: "Resolve (traced env) (resolver_NewClient (OwnerResolverURL cfg) (OwnerResolverTimeout cfg))
      \<lparr>rs_Service = Service cfg, rs_Method = rc_Method ctx, rs_Path = rc_Path ctx, rs_ContentType = ct\<rparr> p body s1 = (a, s2)"
    by fastforce
  obtain t1 s3 where t1: "time_now (traced env) s2 = (t1, s3)" by fastforce
  have r: "a = Inr result" "calls s' = calls s3" using assms t0 a t1 by (auto simp: ask_resolver_def)
  from calls_Resolve [OF a] r(1) calls_time_now [OF t0] calls_time_now [OF t1] r(2) show ?thesis
    by (auto simp: resolver_question_def)
qed

section \<open>The caches stay sourced\<close>

text \<open>
  Every operation of the response phase keeps the cached identifiers sourced (see \<open>Provenance\<close>), whatever the
  verdict, the policy and the schedule.
\<close>

lemma tracks_Resolve: "Resolve (traced env) c res p payload s = (r, s') \<Longrightarrow> tracks s s'"
  for s s' :: "('w \<times> exchange list, 'z) client_proc_scheme"
  by (auto simp: Resolve_def split: sum.splits prod.splits http_result.splits if_splits
      dest!: tracks_http_do [OF recording_traced] intro: tracks_trans tracks_log_every [OF recording_traced])

lemma tracks_RecordDependencyCall: "tracks s (RecordDependencyCall d o' t s)"
  by (rule tracks_outside) (simp_all add: RecordDependencyCall_def)

lemma tracks_ask_resolver:
  fixes s :: "('w \<times> exchange list, 'z) metrics_proc_scheme"
  assumes "ask_resolver (traced env) cfg ctx ct p body s = (r, s')"
  shows "tracks s s'"
proof -
  obtain t0 s1 where t0: "time_now (traced env) s = (t0, s1)" by fastforce
  obtain a s2 where a: "Resolve (traced env) (resolver_NewClient (OwnerResolverURL cfg) (OwnerResolverTimeout cfg))
      \<lparr>rs_Service = Service cfg, rs_Method = rc_Method ctx, rs_Path = rc_Path ctx, rs_ContentType = ct\<rparr> p body s1 = (a, s2)"
    by fastforce
  obtain t1 s3 where t1: "time_now (traced env) s2 = (t1, s3)" by fastforce
  have "tracks s s3"
    using tracks_time_now [OF recording_traced t0] tracks_Resolve [OF a] tracks_time_now [OF recording_traced t1]
    by (blast intro: tracks_trans)
  moreover have "tracks s3 s'" using assms t0 a t1 tracks_RecordDependencyCall by (auto simp: ask_resolver_def)
  ultimately show ?thesis by (rule tracks_trans)
qed

lemma tracks_identify_parties:
  assumes "plain_replies env" and "identify_parties (traced env) cfg key ctx client s = (r, s')"
  shows "tracks s s'"
  using assms(2)
  by (auto simp: identify_parties_def split: sum.splits prod.splits
      dest!: tracks_ParticipantSD [OF recording_traced plain_traced [OF assms(1)]] tracks_ProviderSD [OF recording_traced plain_traced [OF assms(1)]]
      intro: tracks_trans tracks_trans [OF _ tracks_log_every [OF recording_traced]] tracks_log_every [OF recording_traced])

lemma tracks_checkPurposeScoping:
  fixes s :: "('w \<times> exchange list, 'z) metrics_proc_scheme"
  shows "checkPurposeScoping (traced env) cfg key cs s = (oc, s') \<Longrightarrow> tracks s s'"
proof (induction "traced env" cfg key cs s rule: checkPurposeScoping.induct)
  case (2 cfg key c cs s)
  have "tracks s (log_every (traced env) l k m (RecordPurposeUnconstrained s))" for l k m
    by (rule tracks_trans [OF tracks_outside tracks_log_every [OF recording_traced]]) (simp_all add: RecordPurposeUnconstrained_def)
  with 2 show ?case by (auto split: if_splits intro: tracks_trans tracks_log_every [OF recording_traced])
qed simp

lemma tracks_decide_claims:
  assumes "plain_replies env" and "nul_free_client client" and "list_all trace_keeping ops"
    and "decide_claims (traced env) ops cfg key ctx client sd found s = (oc, s')"
  shows "tracks s s'"
  using assms(4)
  by (auto simp: decide_claims_def split: if_splits sum.splits prod.splits option.splits
      dest!: tracks_checkPurposeScoping tracks_checkOwners [OF assms(1-3)]
      intro: tracks_trans tracks_trans [OF _ tracks_log_every [OF recording_traced]])

lemma tracks_evaluateWithResolver:
  assumes "plain_replies env" and "nul_free_client client" and "list_all trace_keeping ops"
    and "evaluateWithResolver (traced env) hops ops cfg w key ctx client s = (oc, w', s')"
  shows "tracks s s'"
  using assms(4)
  by (auto simp: evaluateWithResolver_def split: if_splits sum.splits prod.splits
      dest!: tracks_identify_parties [OF assms(1)] tracks_ask_resolver tracks_decide_claims [OF assms(1-3)]
      intro: tracks_trans tracks_trans [OF _ tracks_log_every [OF recording_traced]] tracks_log_every [OF recording_traced])

lemma tracks_Load:
  fixes s :: "('w \<times> exchange list, 'z) store_proc_scheme"
  assumes "LoadAndDeleteRequestContext (traced env) key s = (r, s')"
  shows "tracks s s'"
proof -
  have "tracks s (t\<lparr>store := st\<rparr>)" if "time_now (traced env) s = (now, t)" for now t st
    by (rule tracks_trans [OF tracks_time_now [OF recording_traced that] tracks_outside]) simp_all
  then show ?thesis
    using assms by (auto simp: LoadAndDeleteRequestContext_def split: if_splits prod.splits intro: tracks_time_now [OF recording_traced] tracks_outside)
qed

lemma tracks_evaluate:
  assumes "plain_replies env" and "nul_free_client (NewClient (clientConfigFromCfg cfg))" and "list_all trace_keeping ops"
    and "evaluate (traced env) hops ops cfg w s = (oc, w', s')"
  shows "tracks s s'"
  using assms(4)
  by (auto simp: evaluate_def split: option.splits prod.splits
      dest!: tracks_Load tracks_evaluateWithResolver [OF assms(1-3)]
      intro: tracks_trans tracks_trans [OF _ tracks_log_every [OF recording_traced]] tracks_log_every [OF recording_traced])

lemma audit_caches:
  "credCache (recordAudit env cfg oc s) = credCache s \<and> identifierCache (recordAudit env cfg oc s) = identifierCache s"
proof -
  have em: "credCache (foldl (\<lambda>s ev. Emit i ev s) t evs) = credCache t \<and> identifierCache (foldl (\<lambda>s ev. Emit i ev s) t evs) = identifierCache t"
    for i evs and t :: "('a, 'b) audit_proc_scheme"
    by (induction evs arbitrary: t) (simp_all add: Emit_def logf_def Let_def)
  show ?thesis
    by (auto simp: recordAudit_def Get_def em split: prod.splits option.splits dest!: time_now_split)
qed

lemma tracks_ResponseFilter:
  assumes "plain_replies env" and "nul_free_client (NewClient (clientConfigFromCfg cfg))" and "list_all trace_keeping ops"
    and "ResponseFilter (traced env) hops ops (Some cfg) w s = Some (w', s')"
  shows "tracks s s'"
proof -
  obtain oc w1 s1 where e: "evaluate (traced env) hops ops cfg w s = (oc, w1, s1)" by (metis prod.exhaust)
  let ?s2 = "RecordDecision (oc_decision oc) (oc_failMode oc) s1"
  let ?s3 = "recordAudit (traced env) cfg oc ?s2"
  have "tracks s1 ?s2" by (rule tracks_outside) (simp_all add: RecordDecision_def)
  moreover have "tracks ?s2 ?s3" by (rule tracks_same) (simp_all add: calls_recordAudit audit_caches)
  moreover have "tracks ?s3 s'"
    using assms(4) e
    by (auto simp: ResponseFilter_def denyResponse_def Let_def logf_def split: if_splits option.splits intro: tracks_outside)
  ultimately show ?thesis using tracks_evaluate [OF assms(1-3) e] by (blast intro: tracks_trans)
qed

section \<open>What a release rests on\<close>

text \<open>The question to the resolver, with the body as it is: absent, readable with its value, or opaque with its size.\<close>

definition present :: "(string \<times> string) list \<Rightarrow> (string \<times> json) list" where
  "present ms = map (\<lambda>(k, v). (k, json_string v)) (filter (\<lambda>(k, v). v \<noteq> []) ms)"

definition resolver_asked :: "config \<Rightarrow> request_context \<Rightarrow> string \<Rightarrow> parties \<Rightarrow> string \<Rightarrow> http_request \<Rightarrow> bool" where
  "resolver_asked cfg ctx ct p body rq \<longleftrightarrow>
     rq_method rq = ''POST'' \<and> rq_url rq = OwnerResolverURL cfg
     \<and> rq_body rq = Some (JObj (
         [(''resource'', JObj (present [(''service'', Service cfg), (''method'', rc_Method ctx), (''path'', rc_Path ctx), (''contentType'', ct)]))]
         @ (if pt_Consumer p = [] \<and> pt_Provider p = [] then []
            else [(''parties'', JObj (present [(''consumer'', pt_Consumer p), (''provider'', pt_Provider p)]))])
         @ [(''body'', JObj (if body = [] then [(''encoding'', JStr ''none'')] else
              (case json_parse body of
                 Some v \<Rightarrow> [(''encoding'', JStr ''json''), (''content'', v)]
               | None \<Rightarrow> [(''encoding'', JStr ''opaque'')] @ present [(''contentType'', ct)]
                   @ [(''size'', JNum (show_nat (length body)))])))]))"

lemma resolver_question_asked: "resolver_asked cfg ctx ct p body (resolver_question cfg ctx ct p body)"
  by (simp add: resolver_asked_def resolver_question_def resolve_request_def resolver_NewClient_def resolve_json_def resource_json_def
      parties_json_def body_json_def describeBody_def parties_IsZero_def present_def member_if_def json_valid_def encodingNone_def
      encodingJSON_def encodingOpaque_def split: option.split)

definition claims_granted :: "client \<Rightarrow> request_context \<Rightarrow> string \<Rightarrow> claim list \<Rightarrow> exchange list \<Rightarrow> exchange list \<Rightarrow> bool" where
  "claims_granted client ctx sd found hist xs \<longleftrightarrow> found \<noteq> []
     \<and> (\<forall>c\<in>set found. cl_OwnerID c \<noteq> []
          \<and> (\<exists>d\<in>set found. cl_OwnerID d = cl_OwnerID c \<and> cl_DataResource d = cl_DataResource c
               \<and> consent_evidence client
                    \<lparr>Subject = cl_OwnerID d, Resource = rc_Path ctx, Method = rc_Method ctx, DataResource = cl_DataResource d,
                      Consumer = sd, Purpose = cl_Purpose d\<rparr> hist xs))"

lemma claims_granted_mono:
  "claims_granted client ctx sd found hist xs \<Longrightarrow> set hist \<subseteq> set hist' \<Longrightarrow> set xs \<subseteq> set ys \<Longrightarrow> claims_granted client ctx sd found hist' ys"
  unfolding claims_granted_def by (meson consent_evidence_mono)

lemma distinctClaims_Inr:
  assumes "distinctClaims found = Inr claims"
  shows "(\<forall>c\<in>set found. cl_OwnerID c \<noteq> []) \<and> claims = map to_owner_claim (first_by claim_pair found)"
  using assms distinct_loop_nameless [of found "[]" "[]"] distinct_loop_named [of found "[]" "[]"]
  by (cases "\<exists>c\<in>set found. cl_OwnerID c = []") (auto simp: distinctClaims_def)

lemma decide_allow:
  assumes run: "decide_claims (traced env) ops cfg key ctx client sd found s = (oc, s')"
    and allow: "oc_decision oc = decisionAllow" and closed: "\<not> IsFailOpen cfg"
    and u: "uncancelled env" and live: "Expire \<notin> set ops"
    and so: "sourced s" and nf: "nul_free_client client" and pl: "plain_replies env"
  shows "\<exists>es. calls s' = calls s @ es \<and> claims_granted client ctx sd found (calls s') es"
proof -
  note fo = failOutcome_closed [OF closed]
  have ne: "found \<noteq> []" using run allow by (auto simp: decide_claims_def fo)
  obtain claims where dc: "distinctClaims found = Inr claims"
    using run allow ne by (auto simp: decide_claims_def fo split: sum.splits)
  obtain po s1 where pc: "checkPurposeScoping (traced env) cfg key claims s = (po, s1)" by fastforce
  have "po = None"
    using run allow ne dc pc checkPurposeScoping_Some [of "traced env" cfg key claims s]
    by (cases po) (auto simp: decide_claims_def fo)
  with run allow ne dc pc have co: "checkOwners (traced env) ops cfg key ctx client claims sd s1 = (oc, s')"
    by (auto simp: decide_claims_def fo split: if_splits)
  have "sourced s1" using tracks_checkPurposeScoping [OF pc] so by (simp add: tracks_def)
  from allow_evidence [OF co allow closed u live this nf pl] obtain es where
    es: "calls s' = calls s1 @ es" "\<forall>c\<in>set claims. consent_evidence client (owner_request ctx sd c) (calls s') es" by blast
  have cl: "\<forall>c\<in>set found. cl_OwnerID c \<noteq> []" "claims = map to_owner_claim (first_by claim_pair found)"
    using distinctClaims_Inr [OF dc] by auto
  have "\<exists>d\<in>set found. claim_pair d = claim_pair c \<and> consent_evidence client (owner_request ctx sd (to_owner_claim d)) (calls s') es"
    if "c \<in> set found" for c
  proof -
    have "claim_pair c \<in> claim_pair ` set (first_by claim_pair found)" using that by (simp add: set_first_by)
    then obtain d where "d \<in> set (first_by claim_pair found)" "claim_pair d = claim_pair c" by auto
    with es(2) cl(2) first_by_subset [of claim_pair found] show ?thesis by auto
  qed
  with ne cl(1) es(1) calls_checkPurposeScoping [OF pc] show ?thesis
    by (auto simp: claims_granted_def owner_request_def to_owner_claim_def claim_pair_def)
qed

text \<open>
  The resolver was asked about this body and answered, and when it required consent every claim has it.
\<close>

definition release_basis :: "config \<Rightarrow> request_context \<Rightarrow> string \<Rightarrow> string \<Rightarrow> exchange list \<Rightarrow> exchange list \<Rightarrow> bool" where
  "release_basis cfg ctx body sd hist xs \<longleftrightarrow>
     (\<exists>ct p rq rbody result. pt_Consumer p = sd \<and> resolver_asked cfg ctx ct p body rq
        \<and> (rq, Response 200 rbody) \<in> set xs
        \<and> unmarshal dec_result rbody zero_result = Some result
        \<and> (ConsentRequired result \<longrightarrow> claims_granted (NewClient (clientConfigFromCfg cfg)) ctx sd (Claims result) hist xs))"

lemma evaluateWithResolver_allow:
  assumes run: "evaluateWithResolver (traced env) hops ops cfg w key ctx (NewClient (clientConfigFromCfg cfg)) s = (oc, w', s')"
    and allow: "oc_decision oc = decisionAllow" and closed: "\<not> IsFailOpen cfg"
    and u: "uncancelled env" and live: "Expire \<notin> set ops"
    and so: "sourced s" and nf: "nul_free_client (NewClient (clientConfigFromCfg cfg))" and pl: "plain_replies env"
  shows "\<exists>body did sd s1 xs. rr_body w = Inr body \<and> int (length body) \<le> MaxResolveBodyBytes cfg
    \<and> consumerFromClaims (traced env) (rc_JWTClaims ctx) (ConsumerClaim cfg) = Inr did
    \<and> ParticipantSelfDescriptionByDID (traced env) (NewClient (clientConfigFromCfg cfg)) did s = (Inr sd, s1)
    \<and> calls s' = calls s @ xs \<and> release_basis cfg ctx body sd (calls s') xs"
proof -
  note fo = failOutcome_closed [OF closed]
  let ?client = "NewClient (clientConfigFromCfg cfg)"
  obtain body where b: "rr_body w = Inr body" using run allow by (auto simp: evaluateWithResolver_def fo split: sum.splits)
  have sz: "\<not> int (length body) > MaxResolveBodyBytes cfg"
    using run allow b by (auto simp: evaluateWithResolver_def fo)
  obtain ct w1 where ct: "responseContentType hops w = (ct, w1)" by fastforce
  obtain po s1 where ip: "identify_parties (traced env) cfg key ctx ?client s = (po, s1)" by fastforce
  have "\<exists>p. po = Inr p"
  proof (cases po)
    case (Inl oc')
    with run b sz ct ip have "oc = oc'" by (simp add: evaluateWithResolver_def)
    with ip Inl allow show ?thesis by (auto simp: identify_parties_def fo split: sum.splits prod.splits)
  qed simp
  then obtain p where p: "po = Inr p" by blast
  obtain a s2 where a: "ask_resolver (traced env) cfg ctx ct p body s1 = (a, s2)" by fastforce
  have "\<exists>result. a = Inr result"
    using run allow b sz ct ip p a by (cases a) (auto simp: evaluateWithResolver_def fo)
  then obtain result where r: "a = Inr result" by blast
  obtain did t es where id: "consumerFromClaims (traced env) (rc_JWTClaims ctx) (ConsumerClaim cfg) = Inr did"
    "ParticipantSelfDescriptionByDID (traced env) ?client did s = (Inr (pt_Consumer p), t)" "calls s1 = calls s @ es"
    using identify_parties_Inr [OF ip [unfolded p]] by blast
  obtain rbody where rb: "calls s2 = calls s1 @ [(resolver_question cfg ctx ct p body, Response 200 rbody)]"
    "unmarshal dec_result rbody zero_result = Some result"
    using ask_resolver_Inr [OF a [unfolded r]] by blast
  have so2: "sourced s2"
    using tracks_trans [OF tracks_identify_parties [OF pl ip] tracks_ask_resolver [OF a]] so by (simp add: tracks_def)
  have "\<exists>ys. calls s' = calls s2 @ ys
      \<and> (ConsentRequired result \<longrightarrow> claims_granted ?client ctx (pt_Consumer p) (Claims result) (calls s') ys)"
  proof (cases "ConsentRequired result")
    case True
    with run b sz ct ip p a r have "decide_claims (traced env) ops cfg key ctx ?client (pt_Consumer p) (Claims result) s2 = (oc, s')"
      by (auto simp: evaluateWithResolver_def split: prod.splits)
    from decide_allow [OF this allow closed u live so2 nf pl] show ?thesis by blast
  next
    case False
    with run b sz ct ip p a r have "s' = s2" by (auto simp: evaluateWithResolver_def)
    with False show ?thesis by simp
  qed
  then obtain ys where ys: "calls s' = calls s2 @ ys"
    "ConsentRequired result \<longrightarrow> claims_granted ?client ctx (pt_Consumer p) (Claims result) (calls s') ys" by blast
  let ?xs = "es @ [(resolver_question cfg ctx ct p body, Response 200 rbody)] @ ys"
  have "ConsentRequired result \<longrightarrow> claims_granted ?client ctx (pt_Consumer p) (Claims result) (calls s') ?xs"
    using ys(2) by (auto intro: claims_granted_mono)
  then have "release_basis cfg ctx body (pt_Consumer p) (calls s') ?xs"
    unfolding release_basis_def using rb(2) resolver_question_asked [of cfg ctx ct p body]
    by (intro exI [of _ ct] exI [of _ p] exI [of _ "resolver_question cfg ctx ct p body"] exI [of _ rbody] exI [of _ result]) simp
  moreover have "calls s' = calls s @ ?xs" using id(3) rb(1) ys(1) by simp
  ultimately show ?thesis using b sz id(1,2) by (fastforce simp: not_less)
qed

lemma ResponseFilter_released:
  assumes "ResponseFilter env hops ops (Some cfg) w s = Some (w', s')" and "rr_status w = None" and "rr_status w' = None"
  shows "\<exists>oc s1. evaluate env hops ops cfg w s = (oc, w', s1) \<and> oc_decision oc \<noteq> decisionDeny
    \<and> s' = recordAudit env cfg oc (RecordDecision (oc_decision oc) (oc_failMode oc) s1)"
proof -
  obtain oc w1 s1 where e: "evaluate env hops ops cfg w s = (oc, w1, s1)" by (metis prod.exhaust)
  with assms show ?thesis
    by (auto simp: ResponseFilter_def Let_def denyResponse_def split: if_splits option.splits)
qed

text \<open>Every outcome is one of the two verdicts, with one of the fail modes or none.\<close>

definition two_valued :: "response_outcome \<Rightarrow> bool" where
  "two_valued oc \<longleftrightarrow> (oc_decision oc = decisionAllow \<or> oc_decision oc = decisionDeny)
     \<and> oc_failMode oc \<in> {[], ''by_policy'', ''always_closed''}"

lemma two_valued_fail [simp]: "two_valued (failOutcome cfg m r k q)"
  by (simp add: two_valued_def failOutcome_def fail_mode_text_def Let_def split: option.split)

lemma two_valued_checked [simp]: "two_valued (oc\<lparr>oc_checked := cs\<rparr>) = two_valued oc"
  by (simp add: two_valued_def)

lemma two_valued_allow [simp]: "oc_decision oc = decisionAllow \<Longrightarrow> oc_failMode oc = [] \<Longrightarrow> two_valued oc"
  by (simp add: two_valued_def)

lemma zero_outcome_mode [simp]: "oc_failMode zero_outcome = []"
  by (simp add: zero_outcome_def)

lemma checkOwners_decision:
  assumes "checkOwners env ops cfg key ctx client claims sd s = (oc, s')"
  shows "two_valued oc"
proof -
  obtain r s1 where "check_reach env key ctx client sd claims s (ops @ remaining_steps (length claims)) (r, s1)"
    and "goroutines r = replicate (length claims) Finished" and len: "length (results r) = length claims"
    and ok: "\<And>i. i < length claims \<Longrightarrow> result_ok key ctx sd (claims ! i) Finished (results r ! i)"
    and red: "reduceOwnerResults env cfg key ctx (phase_done r) (results r) s1 = (oc, s')"
    using checkOwners_run [OF assms] by blast
  show ?thesis
  proof (cases "first_denial (results r)")
    case (Some d)
    from first_denial_Some [OF Some] obtain x where x: "x \<in> set (results r)" "or_problem x" "or_err x = None" "d = or_outcome x" by blast
    from ok_denials [OF ok len x(1-3)] x(4) ok_denial_mode [OF ok len Some] have "two_valued d" by (simp add: two_valued_def)
    with red Some show ?thesis by (auto simp: reduceOwnerResults_def)
  next
    case None
    with red show ?thesis by (auto simp: reduceOwnerResults_def split: option.splits)
  qed
qed

lemma decide_decision: "decide_claims env ops cfg key ctx client sd found t = (oc, t') \<Longrightarrow> two_valued oc"
  by (auto simp: decide_claims_def split: if_splits sum.splits prod.splits option.splits
      dest: checkOwners_decision dest!: checkPurposeScoping_Some)

lemma identify_decision: "identify_parties env cfg key ctx client t = (Inl oc, t') \<Longrightarrow> two_valued oc"
  by (auto simp: identify_parties_def split: sum.splits prod.splits)

lemma evaluateWithResolver_decision:
  "evaluateWithResolver env hops ops cfg w key ctx client t = (oc, w', t') \<Longrightarrow> two_valued oc"
  by (auto simp: evaluateWithResolver_def split: sum.splits prod.splits if_splits dest: decide_decision identify_decision)

lemma evaluate_decision: "evaluate env hops ops cfg w s = (oc, w', s') \<Longrightarrow> two_valued oc"
  by (auto simp: evaluate_def split: option.splits prod.splits dest: evaluateWithResolver_decision)

text \<open>Evaluation leaves the response as it is; at most it touches the header object.\<close>

lemma responseContentType_response:
  "responseContentType hops w = (ct, w') \<Longrightarrow> w' = w \<or> w' = w\<lparr>rr_header_used := True\<rparr> \<and> (\<forall>v. rr_var w nginxUpstreamContentTypeVar = Inr v \<longrightarrow> v = [])"
  by (auto simp: responseContentType_def split: sum.splits list.splits)

lemma evaluate_response:
  assumes "evaluate env hops ops cfg w s = (oc, w', s')"
  shows "w' = w \<or> w' = w\<lparr>rr_header_used := True\<rparr> \<and> (\<forall>v. rr_var w nginxUpstreamContentTypeVar = Inr v \<longrightarrow> v = [])"
proof -
  obtain ct w1 where ct: "responseContentType hops w = (ct, w1)" by fastforce
  have e: "w' = w \<or> w' = w1" if "evaluateWithResolver env hops ops cfg w key ctx client t = (oc, w', t')" for key ctx client t t'
    using that ct by (auto simp: evaluateWithResolver_def split: sum.splits prod.splits if_splits)
  have "w' = w \<or> w' = w1"
    using assms by (auto simp: evaluate_def split: option.splits prod.splits dest: e)
  with responseContentType_response [OF ct] show ?thesis by auto
qed

end
