(* ===== verification/Filter_Runs.thy ===== *)
theory Filter_Runs
  imports Filter_Props
begin

text \<open>
  A whole response phase, executed: a stored request context, a consumer known to the registry, a resolver
  that names one data owner and a consent-manager that grants the check.  The witnesses of the properties
  of the filter are this run.
\<close>

definition resolver_body :: string where
  "resolver_body = ''{\"consentRequired\":true,\"claims\":[{\"ownerId\":\"did:o\"}]}''"

lemma resolver_parses:
  "json_parse resolver_body = Some (JObj [(''consentRequired'', JBool True), (''claims'', JArr [JObj [(''ownerId'', JStr ''did:o'')]])])"
  unfolding resolver_body_def by code_simp

lemma resolver_keys: "key_is ''consentRequired'' ''consentRequired''" "\<not> key_is ''claims'' ''consentRequired''" "key_is ''claims'' ''claims''" "key_is ''ownerId'' ''ownerId''"
  by code_simp+

lemma resolver_decodes:
  "unmarshal dec_result resolver_body zero_result =
     Some \<lparr>ConsentRequired = True, Claims = [\<lparr>cl_OwnerID = ''did:o'', cl_DataResource = [], cl_Purpose = []\<rparr>]\<rparr>"
  unfolding unmarshal_def resolver_parses
  by (simp add: dec_result_def result_field_def zero_result_def resolver_keys claim_field_def zero_claim_def dec_bool_def)

definition full_reply :: "http_request \<Rightarrow> http_result" where
  "full_reply rq = (case rq_body rq of
     Some (JObj ((k, _) # _)) \<Rightarrow> if k = ''resource'' then Response 200 resolver_body else demo_reply rq
   | _ \<Rightarrow> demo_reply rq)"

lemma answers_checks_full: "answers_checks full_reply"
  by (auto simp: answers_checks_def full_reply_def split: option.splits json.splits list.splits prod.splits)

definition full_config :: config where
  "full_config = zero_config\<lparr>ConsentAPIURL := ''http://cm'', ConsentAPIPrefix := ''/v1'', ParticipantToken := ''tok'', ProviderSD := ''sd:p'',
     ConsentAPITimeout := 5000, ParticipantTokenTTL := 3000, OwnerResolverURL := ''http://r'', ConsumerClaim := ''iss'',
     MaxResolveBodyBytes := 1000, MaxOwnersPerResponse := 50, DenyStatusCode := 403, DenyResponseBody := ''no''\<rparr>"

lemma full_client: "NewClient (clientConfigFromCfg full_config) = demo_client"
  by (simp add: NewClient_def clientConfigFromCfg_def full_config_def zero_config_def demo_client_def DefaultTokenTTL_def i64_id
      MinTimeoutMs_def second_def millisecond_def)

definition full_context :: request_context where
  "full_context = demo_request\<lparr>rc_JWTClaims := [(''iss'', JStr ''did:c'')]\<rparr>"

definition full_state :: "(int \<times> exchange list) audit_proc" where
  "full_state = \<lparr>world = (0, []), supp = [], log_lines = [], credCache = [],
     participantSDCache = [(participantCacheKey demo_client ''did:c'',
        \<lparr>pe_selfDescriptionURL = ''sd:c'', pe_expiry = 600 * second, pe_unknown = False\<rparr>)],
     identifierCache = [], store = \<lparr>requestContextStore = [(''r1'', \<lparr>sc_ctx = full_context, storedAt = 0\<rparr>)], contextsEvicted = 0\<rparr>,
     janitorStarted = True, decisions = [], dependencyCalls = [], latency = [], purposeUnconstrained = 0, callbacks = [],
     emitter_heap = [], emitters = []\<rparr>"

definition full_response :: "(string \<times> string) list runner_response" where
  "full_response = \<lparr>rr_ID = 7, rr_var = (\<lambda>v. if v = nginxRequestIDVar then Inr ''r1'' else Inr ''text/plain''), rr_body = Inr ''[1]'',
     rr_header = Some [(''Etag'', ''x''), (''Access-Control-Max-Age'', ''5'')], rr_header_used = False, rr_status = None,
     rr_written = None, rr_write_error = None\<rparr>"

lemma full_consumer: "consumerFromClaims env [(''iss'', JStr ''did:c'')] ''iss'' = Inr ''did:c''"
  by (simp add: consumerFromClaims_def walk_name_def descendIntoObject_def parseClaimSegment_def)

lemma full_owner_request: "owner_request full_context sd c = owner_request demo_request sd c"
  by (simp add: owner_request_def full_context_def)

lemma vars_differ: "nginxUpstreamContentTypeVar \<noteq> nginxRequestIDVar"
  by (simp add: nginxUpstreamContentTypeVar_def nginxRequestIDVar_def)

lemma full_correlation: "correlationKey (rr_var full_response) = Some ''r1''"
  by (simp add: correlationKey_def full_response_def)

lemma full_load: "\<exists>s1. LoadAndDeleteRequestContext (traced (scripted_env reply)) ''r1'' full_state = (Some full_context, s1)
    \<and> participantSDCache s1 = participantSDCache full_state \<and> world s1 = (second, [])"
  by (simp add: LoadAndDeleteRequestContext_def full_state_def time_now_def traced_def scripted_env_def store_take_def
      outlived_def time_sub_def RequestContextTTL_def Let_def second_def)

lemma full_parties:
  assumes "participantSDCache s = participantSDCache full_state" and "world s = (second, [])" and "ConsumerClaim cfg = ''iss''"
  shows "\<exists>s1. identify_parties (traced (scripted_env reply)) cfg key full_context demo_client s
    = (Inr \<lparr>pt_Consumer = ''sd:c'', pt_Provider = ''sd:p''\<rparr>, s1)"
  using assms
  by (simp add: identify_parties_def full_context_def full_consumer ParticipantSelfDescriptionByDID_def full_state_def
      time_now_def traced_def scripted_env_def sd_entry_get_def second_def ProviderSelfDescription_def credentials_def demo_client_def)

text \<open>A scripted resolver that answers its question as the sample does.\<close>

definition answers_resolver :: "(http_request \<Rightarrow> http_result) \<Rightarrow> bool" where
  "answers_resolver reply \<longleftrightarrow>
     (\<forall>rq v ms. rq_body rq = Some (JObj ((''resource'', v) # ms)) \<longrightarrow> reply rq = Response 200 resolver_body)"

lemma answers_resolver_full: "answers_resolver full_reply"
  by (simp add: answers_resolver_def full_reply_def)

lemma full_ask:
  assumes "answers_resolver reply"
  shows "\<exists>s1. ask_resolver (traced (scripted_env reply)) cfg full_context ct p body s
    = (Inr \<lparr>ConsentRequired = True, Claims = [\<lparr>cl_OwnerID = ''did:o'', cl_DataResource = [], cl_Purpose = []\<rparr>]\<rparr>, s1)"
  using assms
  by (simp add: ask_resolver_def Resolve_def time_now_def traced_def scripted_env_def new_request_def http_do_def set_header_def
      answers_resolver_def resolve_json_def json_unmarshal_def resolver_decodes split: prod.splits)

lemma full_decide:
  fixes s :: "(int \<times> exchange list, 'z) metrics_proc_scheme"
  shows "\<exists>oc s1. decide_claims (traced (scripted_env full_reply)) [] full_config key full_context demo_client ''sd:c''
      [\<lparr>cl_OwnerID = ''did:o'', cl_DataResource = [], cl_Purpose = []\<rparr>] s = (oc, s1) \<and> oc_decision oc = decisionAllow"
proof -
  let ?env = "traced (scripted_env full_reply)"
  have d: "distinctClaims [\<lparr>cl_OwnerID = ''did:o'', cl_DataResource = [], cl_Purpose = []\<rparr>] = Inr [demo_claim]"
    by (simp add: distinctClaims_def demo_claim_def)
  obtain po s1 where p: "checkPurposeScoping ?env full_config key [demo_claim] s = (po, s1)" by fastforce
  have "po = None" using checkPurposeScoping_None [OF p] by (simp add: full_config_def zero_config_def)
  obtain oc s2 where c: "checkOwners ?env [] full_config key full_context demo_client [demo_claim] ''sd:c'' s1 = (oc, s2)" by fastforce
  have "oc_decision oc = decisionAllow"
    using unanimous_allows [OF c] demo_always_grants [OF answers_checks_full, where ty = "TYPE((int \<times> exchange list, 'z) metrics_proc_scheme)"]
    by (simp add: full_owner_request)
  with d p c \<open>po = None\<close> show ?thesis by (simp add: decide_claims_def full_config_def)
qed

lemma full_evaluate:
  "\<exists>oc s1. evaluate (traced (scripted_env full_reply)) http_header_ops [] full_config full_response full_state = (oc, full_response, s1)
     \<and> oc_decision oc = decisionAllow"
proof -
  let ?env = "traced (scripted_env full_reply)"
  obtain s1 where l: "LoadAndDeleteRequestContext ?env ''r1'' full_state = (Some full_context, s1)"
    "participantSDCache s1 = participantSDCache full_state" "world s1 = (second, [])" using full_load by blast
  obtain s2 where i: "identify_parties ?env full_config ''r1'' full_context demo_client s1 = (Inr \<lparr>pt_Consumer = ''sd:c'', pt_Provider = ''sd:p''\<rparr>, s2)"
    using full_parties [OF l(2,3), of full_config] by (auto simp: full_config_def)
  obtain s3 where a: "ask_resolver ?env full_config full_context ''text/plain'' \<lparr>pt_Consumer = ''sd:c'', pt_Provider = ''sd:p''\<rparr> ''[1]'' s2
      = (Inr \<lparr>ConsentRequired = True, Claims = [\<lparr>cl_OwnerID = ''did:o'', cl_DataResource = [], cl_Purpose = []\<rparr>]\<rparr>, s3)"
    using full_ask [OF answers_resolver_full] by blast
  obtain oc s4 where d: "decide_claims ?env [] full_config ''r1'' full_context demo_client ''sd:c''
      [\<lparr>cl_OwnerID = ''did:o'', cl_DataResource = [], cl_Purpose = []\<rparr>] s3 = (oc, s4)" "oc_decision oc = decisionAllow"
    using full_decide by blast
  have ct: "responseContentType http_header_ops full_response = (''text/plain'', full_response)"
    by (simp add: responseContentType_def full_response_def vars_differ)
  have b: "rr_body full_response = Inr ''[1]''" "MaxResolveBodyBytes full_config = 1000"
    by (simp_all add: full_response_def full_config_def)
  from l i a d ct b show ?thesis
    by (simp add: evaluate_def full_correlation full_client evaluateWithResolver_def)
qed

lemma full_release:
  "\<exists>s'. ResponseFilter (traced (scripted_env full_reply)) http_header_ops [] (Some full_config) full_response full_state = Some (full_response, s')"
  using full_evaluate by (fastforce simp: ResponseFilter_def Let_def)

end
