(* ===== verification/Context_Props.thy ===== *)
theory Context_Props
  imports Context_Store Sample_Runs
begin

text \<open>
  What the request-context store guarantees: its keys stay distinct and its size under the cap,
  whatever requests do; it implements the two-phase interface; evictions take the expired or the
  oldest entries and are all counted.
\<close>

section \<open>Deleting a batch\<close>

abbreviation delete_all :: "('k \<times> 'v) list \<Rightarrow> ('k \<times> 'w) list \<Rightarrow> ('k \<times> 'v) list" where
  "delete_all m xs \<equiv> foldl (\<lambda>m (k, _). gdel k m) m xs"

lemma map_of_delete_all [gmap]:
  "map_of (delete_all m xs) k = (if k \<in> fst ` set xs then None else map_of m k)"
  by (induction xs arbitrary: m) auto

lemma wf_delete_all [simp]: "wf_map m \<Longrightarrow> wf_map (delete_all m xs)"
  by (induction xs arbitrary: m) auto

lemma length_delete_all:
  "wf_map m \<Longrightarrow> distinct (map fst xs) \<Longrightarrow> fst ` set xs \<subseteq> fst ` set m \<Longrightarrow>
   length (delete_all m xs) + length xs = length m"
proof (induction xs arbitrary: m)
  case Nil
  then show ?case by simp
next
  case (Cons x xs)
  obtain k v where x: "x = (k, v)" by fastforce
  have k: "map_of m k \<noteq> None" using Cons.prems x by (auto simp: map_of_eq_None_iff)
  have "fst ` set xs \<subseteq> fst ` set (gdel k m)"
    using Cons.prems x by (simp add: keys_gdel) blast
  with Cons.IH [of "gdel k m"] Cons.prems x length_gdel [OF _ k] show ?case by simp
qed

section \<open>The invariant\<close>

definition store_inv :: "context_store \<Rightarrow> bool" where
  "store_inv st \<longleftrightarrow> wf_map (requestContextStore st) \<and> length (requestContextStore st) \<le> MaxRequestContexts"

lemma outlived_iff: "outlived now e \<longleftrightarrow> RequestContextTTL < now - storedAt e"
  unfolding outlived_def by (rule time_sub_gt_iff) (simp_all add: RequestContextTTL_def second_def)

lemma sweepLocked_facts:
  assumes "sweepLocked now st = (n, st')" and "wf_map (requestContextStore st)"
  shows "wf_map (requestContextStore st')"
    and "map_of (requestContextStore st') k =
      (case map_of (requestContextStore st) k of None \<Rightarrow> None | Some e \<Rightarrow> if outlived now e then None else Some e)"
    and "length (requestContextStore st') + n = length (requestContextStore st)"
    and "contextsEvicted st' = contextsEvicted st + word_of_nat n"
  using assms sum_length_filter_compl [of "\<lambda>(_, e). outlived now e" "requestContextStore st"]
  by (auto simp: sweepLocked_def Let_def map_of_filter_wf split_def split: option.splits)

text \<open>What is evicted is a batch of the oldest entries, and nothing else.\<close>

lemma evictOldestLocked_facts:
  assumes e: "evictOldestLocked batch st = (n, st')" and wf: "wf_map (requestContextStore st)"
  shows "wf_map (requestContextStore st')"
    and "map_of (requestContextStore st') k = None \<or> map_of (requestContextStore st') k = map_of (requestContextStore st) k"
    and "length (requestContextStore st') + n = length (requestContextStore st)"
    and "n = min batch (length (requestContextStore st))"
    and "contextsEvicted st' = contextsEvicted st + word_of_nat n"
    and "map_of (requestContextStore st) k = Some e1 \<Longrightarrow> map_of (requestContextStore st') k = None \<Longrightarrow>
         map_of (requestContextStore st') k2 = Some e2 \<Longrightarrow> storedAt e1 \<le> storedAt e2"
proof -
  let ?m = "requestContextStore st"
  define entries where "entries = sort_key (\<lambda>(_, e). storedAt e) ?m"
  have len: "length entries = length ?m" and st: "set entries = set ?m" by (simp_all add: entries_def)
  have dist: "distinct (map fst entries)"
    using wf by (simp add: wf_map_def entries_def distinct_map distinct_sort)
  have st': "requestContextStore st' = delete_all ?m (take n entries)" and n: "n = min batch (length ?m)"
    and ev: "contextsEvicted st' = contextsEvicted st + word_of_nat n"
    using e len by (auto simp: evictOldestLocked_def Let_def entries_def min_def split: if_splits)
  have sub: "fst ` set (take n entries) \<subseteq> fst ` set ?m"
    using st by (auto dest: in_set_takeD)
  show "wf_map (requestContextStore st')" using wf st' by simp
  show "map_of (requestContextStore st') k = None \<or> map_of (requestContextStore st') k = map_of ?m k"
    by (simp add: st' map_of_delete_all)
  have "length (delete_all ?m (take n entries)) + length (take n entries) = length ?m"
    using wf sub dist by (intro length_delete_all) (simp_all add: take_map [symmetric])
  with n len st' show "length (requestContextStore st') + n = length ?m" by simp
  show "n = min batch (length ?m)" by (rule n)
  show "contextsEvicted st' = contextsEvicted st + word_of_nat n" by (rule ev)
  show "storedAt e1 \<le> storedAt e2"
    if k: "map_of ?m k = Some e1" "map_of (requestContextStore st') k = None" "map_of (requestContextStore st') k2 = Some e2"
  proof -
    have eq: "e = e'" if "(x, e) \<in> set ?m" "(x, e') \<in> set ?m" for x e e'
      using that wf by (meson eq_key_imp_eq_value wf_map_def)
    from k st' have "k \<in> fst ` set (take n entries)" by (auto simp: map_of_delete_all split: if_splits)
    then obtain e where "(k, e) \<in> set (take n entries)" by auto
    moreover have "(k, e1) \<in> set ?m" using k(1) by (rule map_of_SomeD)
    ultimately have i: "(k, e1) \<in> set (take n entries)" using st eq in_set_takeD by metis
    from k(3) st' have "k2 \<notin> fst ` set (take n entries)" and "(k2, e2) \<in> set ?m"
      by (auto simp: map_of_delete_all split: if_splits dest: map_of_SomeD)
    then have j: "(k2, e2) \<in> set (drop n entries)"
      using st by (metis Un_iff append_take_drop_id fst_conv image_eqI set_append)
    have "sorted (map (\<lambda>(_, e). storedAt e) (take n entries @ drop n entries))" by (simp add: entries_def)
    with i j show ?thesis unfolding map_append sorted_append by fastforce
  qed
qed

lemma make_room_facts:
  assumes "make_room now st = (ev, st')" and wf: "wf_map (requestContextStore st)"
  shows "wf_map (requestContextStore st')"
    and "map_of (requestContextStore st') k = None \<or> map_of (requestContextStore st') k = map_of (requestContextStore st) k"
    and "requestContextStore st \<noteq> [] \<Longrightarrow> length (requestContextStore st') < length (requestContextStore st)"
    and "length (requestContextStore st') \<le> length (requestContextStore st)"
    and "contextsEvicted st' = contextsEvicted st
           + word_of_nat (length (requestContextStore st) - length (requestContextStore st'))"
proof -
  obtain n st1 where sw: "sweepLocked now st = (n, st1)" by fastforce
  note s = sweepLocked_facts [OF sw wf]
  have b: "contextEvictionBatch > 0" by (simp add: contextEvictionBatch_def MaxRequestContexts_def)
  obtain m st2 where eo: "evictOldestLocked contextEvictionBatch st1 = (m, st2)" by fastforce
  note o' = evictOldestLocked_facts [OF eo s(1)]
  have st': "st' = (if n > 0 then st1 else st2)" using assms(1) sw eo by (auto simp: make_room_def split: if_splits)
  show "wf_map (requestContextStore st')" using st' s(1) o'(1) by simp
  show "map_of (requestContextStore st') k = None \<or> map_of (requestContextStore st') k = map_of (requestContextStore st) k"
    using st' s(2) [of k] o'(2) [of k] by (auto split: option.splits if_splits)
  show "length (requestContextStore st') \<le> length (requestContextStore st)" using st' s(3) o'(3) by (auto split: if_splits)
  show "length (requestContextStore st') < length (requestContextStore st)" if "requestContextStore st \<noteq> []"
    using that st' s(3) o'(3,4) b by (cases "n > 0") (auto simp: min_def split: if_splits)
  show "contextsEvicted st' = contextsEvicted st
           + word_of_nat (length (requestContextStore st) - length (requestContextStore st'))"
  proof -
    have "length (requestContextStore st) - length (requestContextStore st') = (if n > 0 then n else m)"
      using st' s(3) o'(3) by auto
    then show ?thesis using st' s(3,4) o'(3,5) by auto
  qed
qed

lemma store_put_facts:
  assumes p: "store_put key ctx now st = (ev, st')" and inv: "store_inv st"
  shows "store_inv st'"
    and "map_of (requestContextStore st') key = Some \<lparr>sc_ctx = ctx, storedAt = now\<rparr>"
    and "k \<noteq> key \<Longrightarrow> map_of (requestContextStore st') k = None \<or>
         map_of (requestContextStore st') k = map_of (requestContextStore st) k"
    and "contextsEvicted st' = contextsEvicted st
          + word_of_nat (length (requestContextStore st) + (if map_of (requestContextStore st) key = None then 1 else 0)
                         - length (requestContextStore st'))"
proof -
  let ?m = "requestContextStore st" and ?e = "\<lparr>sc_ctx = ctx, storedAt = now\<rparr>"
  have wf: "wf_map ?m" and le: "length ?m \<le> MaxRequestContexts" using inv by (simp_all add: store_inv_def)
  show "map_of (requestContextStore st') key = Some ?e"
    using p by (auto simp: store_put_def split: prod.splits)
  consider (full) st1 where "MaxRequestContexts \<le> length ?m" "map_of ?m key = None" "make_room now st = (ev, st1)"
      "requestContextStore st' = gset key ?e (requestContextStore st1)" "contextsEvicted st' = contextsEvicted st1"
    | (room) "map_of ?m key = None \<longrightarrow> length ?m < MaxRequestContexts"
      "requestContextStore st' = gset key ?e ?m" "contextsEvicted st' = contextsEvicted st"
    using p by (auto simp: store_put_def split: prod.splits if_splits)
  then have "store_inv st'
    \<and> (k \<noteq> key \<longrightarrow> map_of (requestContextStore st') k = None \<or> map_of (requestContextStore st') k = map_of ?m k)
    \<and> contextsEvicted st' = contextsEvicted st + word_of_nat (length ?m + (if map_of ?m key = None then 1 else 0)
                         - length (requestContextStore st'))"
  proof cases
    case full
    note f = make_room_facts [OF full(3) wf]
    have "?m \<noteq> []" using full(1) by (auto simp: MaxRequestContexts_def)
    note lt = f(3) [OF this]
    have none: "map_of (requestContextStore st1) key = None" using f(2) [of key] full(2) by auto
    show ?thesis
      using f(1,2,5) lt le full(2,4,5) length_gset_new [OF none, of ?e] by (auto simp: store_inv_def)
  next
    case room
    then show ?thesis
      using wf le length_gset_new [of ?m key ?e] length_gset_old [of ?m key ?e]
      by (cases "map_of ?m key = None") (auto simp: store_inv_def)
  qed
  then show "store_inv st'"
    and "k \<noteq> key \<Longrightarrow> map_of (requestContextStore st') k = None \<or> map_of (requestContextStore st') k = map_of ?m k"
    and "contextsEvicted st' = contextsEvicted st + word_of_nat (length ?m + (if map_of ?m key = None then 1 else 0)
                         - length (requestContextStore st'))"
    by blast+
qed

lemma fst_store_take:
  "fst (store_take k t st) = (case map_of (requestContextStore st) k of None \<Rightarrow> None
     | Some e \<Rightarrow> if outlived t e then None else Some (sc_ctx e))"
  by (auto simp: store_take_def Let_def split: option.splits)

lemma snd_store_take: "map_of (requestContextStore (snd (store_take k t st))) = (map_of (requestContextStore st))(k := None)"
  by (auto simp: store_take_def Let_def fun_eq_iff split: option.splits)

lemma store_inv_take: "store_inv st \<Longrightarrow> store_inv (snd (store_take k t st))"
  using length_gdel_le [of k "requestContextStore st"]
  by (auto simp: store_inv_def store_take_def Let_def split: option.splits)

interpretation contexts: phase_store store_inv "\<lambda>k c t st. snd (store_put k c t st)" store_take empty_store RequestContextTTL
proof
  show "store_inv empty_store" by (simp add: store_inv_def empty_store_def)
  fix m and k k' :: string and c t t0 t'
  show "fst (store_take k t empty_store) = None" by (simp add: store_take_def empty_store_def)
  assume i: "store_inv m"
  note pf = store_put_facts [OF surjective_pairing i]
  show "store_inv (snd (store_put k c t m))" by (rule pf(1))
  show "store_inv (snd (store_take k t m))" using i by (rule store_inv_take)
  show "fst (store_take k t (snd (store_put k c t0 m))) = (if t - t0 \<le> RequestContextTTL then Some c else None)"
    by (simp add: fst_store_take pf(2) outlived_iff not_less)
  show "fst (store_take k t (snd (store_take k t' m))) = None"
    by (simp add: fst_store_take snd_store_take)
  show "fst (store_take k t (snd (store_take k' t' m))) = fst (store_take k t m)" if "k \<noteq> k'"
    using that by (simp add: fst_store_take snd_store_take)
  show "fst (store_take k t (snd (store_put k' c t0 m))) = None
      \<or> fst (store_take k t (snd (store_put k' c t0 m))) = fst (store_take k t m)" if "k \<noteq> k'"
    using pf(3) [OF that, of c t0] by (auto simp: fst_store_take)
qed

section \<open>Reachable stores\<close>

text \<open>The states of the store under any interleaving of requests, responses and janitor ticks.\<close>

inductive store_reach :: "'w env \<Rightarrow> 'w store_proc \<Rightarrow> bool" for env where
  start: "store s = empty_store \<Longrightarrow> store_reach env s"
| request: "store_reach env s \<Longrightarrow> store_reach env (StoreRequestContext env k ctx s)"
| response: "store_reach env s \<Longrightarrow> store_reach env (snd (LoadAndDeleteRequestContext env k s))"
| tick: "store_reach env s \<Longrightarrow> store_reach env (janitor_tick env s)"
| others: "store_reach env s \<Longrightarrow> store s' = store s \<Longrightarrow> store_reach env s'"

inductive_cases store_reach_cases: "store_reach env s"

lemma store_time_now [frame]: "time_now env s = (t, s') \<Longrightarrow> store s' = store s"
  by (auto dest!: time_now_split)

lemma store_log_every [simp, frame]: "store (log_every env lvl k m s) = store s"
  using log_every_split [of env lvl k m s] by auto

lemma store_log_eviction [simp, frame]: "store (log_eviction env ev s) = store s"
  by (cases ev) (simp_all add: log_eviction_def)

lemma store_StoreRequestContext:
  assumes "time_now env (s\<lparr>janitorStarted := True\<rparr>) = (now, s1)"
  shows "store (StoreRequestContext env k ctx s) = snd (store_put k ctx now (store s))"
  using assms store_time_now [OF assms] by (auto simp: StoreRequestContext_def split: prod.splits)

lemma LoadAndDelete_take:
  assumes "time_now env s = (now, s1)"
  shows "fst (LoadAndDeleteRequestContext env k s) = fst (store_take k now (store s))"
    and "store (snd (LoadAndDeleteRequestContext env k s)) = snd (store_take k now (store s))"
  using assms store_time_now [OF assms]
  by (auto simp: LoadAndDeleteRequestContext_def store_take_def split: prod.splits)

lemma janitor_store:
  "\<exists>now. store (janitor_tick env s) = store s \<or> store (janitor_tick env s) = snd (sweepLocked now (store s))"
proof -
  obtain now s1 where t: "time_now env s = (now, s1)" by fastforce
  then have "store (janitor_tick env s) = store s \<or> store (janitor_tick env s) = snd (sweepLocked now (store s))"
    using store_time_now [OF t] by (auto simp: janitor_tick_def sweepRequestContexts_def logf_def split: prod.splits)
  then show ?thesis ..
qed

lemma sweep_inv: "store_inv st \<Longrightarrow> store_inv (snd (sweepLocked now st))"
  using sweepLocked_facts(1,3) [OF surjective_pairing, of st now] by (fastforce simp: store_inv_def)

lemma store_reach_inv: "store_reach env s \<Longrightarrow> store_inv (store s)"
proof (induction rule: store_reach.induct)
  case (start s)
  then show ?case using contexts.inv_empty by simp
next
  case (request s k ctx)
  obtain now s1 where "time_now env (s\<lparr>janitorStarted := True\<rparr>) = (now, s1)" by fastforce
  from store_StoreRequestContext [OF this] contexts.inv_put [OF request.IH] show ?case by simp
next
  case (response s k)
  obtain now s1 where "time_now env s = (now, s1)" by fastforce
  from LoadAndDelete_take(2) [OF this] contexts.inv_take [OF response.IH] show ?case by simp
next
  case (tick s)
  then show ?case using janitor_store [of env s] sweep_inv by metis
next
  case (others s s')
  then show ?case by simp
qed

section \<open>Claims\<close>

text \<open>
  Under any interleaving of requests, responses, janitor ticks and other work, the store has one
  entry per key and never more than its cap, so aborted requests cannot exhaust the memory.
\<close>

theorem context_store_bounded:
  assumes "store_reach env s"
  shows "wf_map (requestContextStore (store s)) \<and> RequestContextStoreSize s \<le> 100000"
  using store_reach_inv [OF assms] by (simp add: store_inv_def RequestContextStoreSize_def MaxRequestContexts_def)

definition demo_store :: "int store_proc" where
  "demo_store = \<lparr>world = 0, supp = [], log_lines = [], credCache = [], participantSDCache = [], identifierCache = [],
     store = empty_store, janitorStarted = False\<rparr>"

definition demo_context :: "string \<Rightarrow> request_context" where
  "demo_context path = \<lparr>rc_Method = ''GET'', rc_Path = path, rc_JWTClaims = []\<rparr>"

theorem context_store_bounded_witness:
  "RequestContextStoreSize (StoreRequestContext (scripted_env demo_reply) ''r1'' (demo_context ''/a'') demo_store) = 1
   \<and> RequestContextStoreSize (StoreRequestContext (scripted_env demo_reply) ''r1'' (demo_context ''/a'') demo_store) \<le> 100000"
proof -
  have "store demo_store = empty_store" by (simp add: demo_store_def)
  from context_store_bounded [OF store_reach.request [OF store_reach.start [OF this],
      of "scripted_env demo_reply" "''r1''" "demo_context ''/a''"]]
  show ?thesis
    by (simp add: demo_store_def RequestContextStoreSize_def StoreRequestContext_def time_now_def scripted_env_def
        store_put_def empty_store_def MaxRequestContexts_def log_eviction_def gset_def)
qed

definition run_op :: "context_store \<Rightarrow> (string, request_context) store_op \<Rightarrow> context_store" where
  "run_op st p = (case p of Put k c t \<Rightarrow> snd (store_put k c t st) | Take k t \<Rightarrow> snd (store_take k t st))"

lemma run_op_history: "foldl run_op empty_store ops = contexts.history ops"
proof -
  have "run_op = (\<lambda>st p. contexts.perform p st)"
    by (simp add: fun_eq_iff run_op_def split: store_op.splits)
  then show ?thesis by (simp add: contexts.history_def)
qed

text \<open>
  C11.  A response never gets a context that is not its own: what \<open>LoadAndDeleteRequestContext\<close>
  returns is the newest context stored under that very key, not handed out before, and stored at most
  sixty seconds ago, after any history of stores and loads.
\<close>

theorem loaded_context_is_own:
  assumes "store s = foldl run_op empty_store ops" and "LoadAndDeleteRequestContext env k s = (Some ctx, s')"
    and "time_now env s = (now, s1)"
  shows "(\<exists>ps qs t0. ops = ps @ Put k ctx t0 # qs \<and> k \<notin> op_key ` set qs \<and> now - t0 \<le> RequestContextTTL)
    \<and> store s' = foldl run_op empty_store (ops @ [Take k now])
    \<and> map_of (requestContextStore (store s')) k = None"
proof -
  have f: "fst (store_take k now (store s)) = Some ctx" and s': "store s' = snd (store_take k now (store s))"
    using LoadAndDelete_take [OF assms(3), of k] assms(2) by simp_all
  from contexts.taken_was_put [OF f [unfolded assms(1) run_op_history]] s' assms(1) show ?thesis
    by (simp add: run_op_def snd_store_take)
qed

theorem loaded_context_is_own_witness:
  "\<exists>s' ps qs t0. LoadAndDeleteRequestContext (scripted_env demo_reply) ''r1''
       (demo_store\<lparr>store := foldl run_op empty_store [Put ''r1'' (demo_context ''/a'') 0]\<rparr>) = (Some (demo_context ''/a''), s')
     \<and> [Put ''r1'' (demo_context ''/a'') 0] = ps @ Put ''r1'' (demo_context ''/a'') t0 # qs"
proof -
  let ?s = "demo_store\<lparr>store := foldl run_op empty_store [Put ''r1'' (demo_context ''/a'') 0]\<rparr>"
  have st: "store ?s = foldl run_op empty_store [Put ''r1'' (demo_context ''/a'') 0]" by simp
  obtain s' where r: "LoadAndDeleteRequestContext (scripted_env demo_reply) ''r1'' ?s = (Some (demo_context ''/a''), s')"
    by (simp add: LoadAndDeleteRequestContext_def demo_store_def run_op_def store_put_def empty_store_def
        MaxRequestContexts_def gset_def time_now_def scripted_env_def store_take_def outlived_iff RequestContextTTL_def second_def)
  obtain now s1 where "time_now (scripted_env demo_reply) ?s = (now, s1)" by fastforce
  from loaded_context_is_own [OF st r this] r show ?thesis by blast
qed

text \<open>
  Storing a context always succeeds and accounts for every entry it drops: the new entry is
  there, every other entry is as it was or gone, and the eviction counter grew (modulo 64 bits) by
  exactly the number of entries that are gone.
\<close>

theorem store_put_accounts:
  assumes "store_inv st"
  shows "let st' = snd (store_put key ctx now st) in
     map_of (requestContextStore st') key = Some \<lparr>sc_ctx = ctx, storedAt = now\<rparr>
     \<and> (k \<noteq> key \<longrightarrow> map_of (requestContextStore st') k \<in> {None, map_of (requestContextStore st) k})
     \<and> contextsEvicted st' = contextsEvicted st
          + word_of_nat (length (requestContextStore st) + (if map_of (requestContextStore st) key = None then 1 else 0)
                         - length (requestContextStore st'))"
proof -
  have p: "store_put key ctx now st = (fst (store_put key ctx now st), snd (store_put key ctx now st))" by simp
  show ?thesis using store_put_facts(2,3,4) [OF p assms] by (auto simp: Let_def)
qed

theorem store_put_accounts_witness:
  "map_of (requestContextStore (snd (store_put ''r1'' (demo_context ''/a'') 5 empty_store))) ''r1''
     = Some \<lparr>sc_ctx = demo_context ''/a'', storedAt = 5\<rparr>"
proof -
  have "store_inv empty_store" by (simp add: store_inv_def empty_store_def)
  from store_put_accounts [OF this] show ?thesis by (simp add: Let_def)
qed

text \<open>
  Eviction for space takes the oldest: it drops exactly a batch (or everything, if there is less),
  counts it, and no entry it keeps is older than one it drops.
\<close>

theorem eviction_takes_oldest:
  assumes "wf_map (requestContextStore st)" and "evictOldestLocked batch st = (n, st')"
  shows "n = min batch (length (requestContextStore st))
    \<and> length (requestContextStore st') + n = length (requestContextStore st)
    \<and> contextsEvicted st' = contextsEvicted st + word_of_nat n
    \<and> (\<forall>k e1 k2 e2. map_of (requestContextStore st) k = Some e1 \<and> map_of (requestContextStore st') k = None
          \<and> map_of (requestContextStore st') k2 = Some e2 \<longrightarrow> storedAt e1 \<le> storedAt e2)"
  using evictOldestLocked_facts(3-6) [OF assms(2,1)] by blast

theorem eviction_takes_oldest_witness:
  "fst (evictOldestLocked 1 \<lparr>requestContextStore = [(''new'', \<lparr>sc_ctx = demo_context ''/b'', storedAt = 9\<rparr>),
      (''old'', \<lparr>sc_ctx = demo_context ''/a'', storedAt = 4\<rparr>)], contextsEvicted = 0\<rparr>) = 1"
proof -
  let ?st = "\<lparr>requestContextStore = [(''new'', \<lparr>sc_ctx = demo_context ''/b'', storedAt = 9\<rparr>),
      (''old'', \<lparr>sc_ctx = demo_context ''/a'', storedAt = 4\<rparr>)], contextsEvicted = 0\<rparr> :: context_store"
  have "wf_map (requestContextStore ?st)" by (simp add: wf_map_def)
  from eviction_takes_oldest [OF this surjective_pairing, of 1] show ?thesis by simp
qed

section \<open>Refinement of a map with expiry\<close>

text \<open>What the store holds, as far as a response at a given time can see.\<close>

definition live_contexts :: "time \<Rightarrow> context_store \<Rightarrow> string \<Rightarrow> request_context option" where
  "live_contexts now st k =
     (case map_of (requestContextStore st) k of None \<Rightarrow> None | Some e \<Rightarrow> if outlived now e then None else Some (sc_ctx e))"

lemma outlived_mono: "t \<le> t' \<Longrightarrow> outlived t e \<Longrightarrow> outlived t' e"
  by (simp add: outlived_iff)

lemma live_sweep:
  assumes "wf_map (requestContextStore st)" and "t \<le> t'"
  shows "live_contexts t' (snd (sweepLocked t st)) = live_contexts t' st"
  using sweepLocked_facts(2) [OF surjective_pairing assms(1), of t] outlived_mono [OF assms(2)]
  by (auto simp: live_contexts_def fun_eq_iff split: option.split)

lemma live_put:
  assumes "store_inv st"
  shows "live_contexts t' (snd (store_put k c t st)) \<subseteq>\<^sub>m (live_contexts t' st)(k := (if t' - t \<le> RequestContextTTL then Some c else None))"
  using store_put_facts(2,3) [OF surjective_pairing assms, where key = k and ctx = c and now = t]
  by (fastforce simp: map_le_def live_contexts_def outlived_iff split: option.splits if_splits)

lemma live_put_eq:
  assumes inv: "store_inv st" and "t \<le> t'" and "\<And>n. fst (store_put k c t st) \<noteq> Oldest n"
  shows "live_contexts t' (snd (store_put k c t st)) = (live_contexts t' st)(k := (if t' - t \<le> RequestContextTTL then Some c else None))"
proof -
  have put: "live_contexts t' (st1\<lparr>requestContextStore := gset k \<lparr>sc_ctx = c, storedAt = t\<rparr> (requestContextStore st1)\<rparr>)
      = (live_contexts t' st1)(k := (if t' - t \<le> RequestContextTTL then Some c else None))" for st1
    by (auto simp: live_contexts_def fun_eq_iff outlived_iff)
  have wf: "wf_map (requestContextStore st)" using inv by (simp add: store_inv_def)
  have room: "live_contexts t' st1 = live_contexts t' st"
    if "make_room t st = (ev, st1)" "\<And>n. ev \<noteq> Oldest n" for ev st1
    using that live_sweep [OF wf assms(2)] by (auto simp: make_room_def evictOldestLocked_def Let_def split: prod.splits if_splits)
  show ?thesis
  proof (cases "MaxRequestContexts \<le> length (requestContextStore st) \<and> map_of (requestContextStore st) k = None")
    case True
    obtain ev st1 where m: "make_room t st = (ev, st1)" by fastforce
    with True assms(3) have "\<And>n. ev \<noteq> Oldest n" by (simp add: store_put_def)
    from room [OF m this] True m put [of st1] show ?thesis by (simp add: store_put_def)
  next
    case False
    then have "store_put k c t st
        = (Nothing, st\<lparr>requestContextStore := gset k \<lparr>sc_ctx = c, storedAt = t\<rparr> (requestContextStore st)\<rparr>)"
      unfolding store_put_def if_not_P [OF False] by simp
    with put [of st] show ?thesis by simp
  qed
qed

text \<open>
  C12.  The store implements a map with expiry: what a response takes is the live entry of its key and is
  gone afterwards, a sweep changes nothing that is live, and a request updates its own key and leaves the
  others alone, except that an overflow of unexpired entries may forget some.
\<close>

theorem store_refines_map:
  assumes "store_inv st" and "t \<le> t'"
  shows "fst (store_take k t st) = live_contexts t st k
    \<and> live_contexts t' (snd (store_take k t st)) = (live_contexts t' st)(k := None)
    \<and> live_contexts t' (snd (sweepLocked t st)) = live_contexts t' st
    \<and> live_contexts t' (snd (store_put k c t st))
        \<subseteq>\<^sub>m (live_contexts t' st)(k := (if t' - t \<le> RequestContextTTL then Some c else None))
    \<and> (fst (store_put k c t st) \<notin> range Oldest \<longrightarrow>
        live_contexts t' (snd (store_put k c t st))
          = (live_contexts t' st)(k := (if t' - t \<le> RequestContextTTL then Some c else None)))"
proof (intro conjI impI)
  show "fst (store_take k t st) = live_contexts t st k" by (simp add: fst_store_take live_contexts_def)
  show "live_contexts t' (snd (store_take k t st)) = (live_contexts t' st)(k := None)"
    by (simp add: live_contexts_def snd_store_take fun_eq_iff)
  show "live_contexts t' (snd (sweepLocked t st)) = live_contexts t' st"
    using assms by (intro live_sweep) (simp_all add: store_inv_def)
  show "live_contexts t' (snd (store_put k c t st))
      \<subseteq>\<^sub>m (live_contexts t' st)(k := (if t' - t \<le> RequestContextTTL then Some c else None))"
    by (rule live_put [OF assms(1)])
  show "live_contexts t' (snd (store_put k c t st))
      = (live_contexts t' st)(k := (if t' - t \<le> RequestContextTTL then Some c else None))"
    if "fst (store_put k c t st) \<notin> range Oldest"
    using that by (intro live_put_eq [OF assms]) auto
qed

theorem store_refines_map_witness:
  "live_contexts 9 (snd (store_put ''r1'' (demo_context ''/a'') 5 empty_store)) = [''r1'' \<mapsto> demo_context ''/a'']"
proof -
  have i: "store_inv empty_store" by (simp add: store_inv_def empty_store_def)
  have "fst (store_put ''r1'' (demo_context ''/a'') 5 empty_store) \<notin> range Oldest"
    by (auto simp: store_put_def empty_store_def MaxRequestContexts_def)
  moreover have "live_contexts 9 empty_store = Map.empty" by (simp add: fun_eq_iff live_contexts_def empty_store_def)
  ultimately show ?thesis
    using store_refines_map [OF i, of 5 9 "''r1''" "demo_context ''/a''"] by (simp add: RequestContextTTL_def second_def)
qed

end
