(* ===== verification/Filter_Claims.thy ===== *)
theory Filter_Claims
  imports Filter_Runs Context_Props Owners_Limits
begin

text \<open>
  The guarantees of the plugin: what a released response rests on, that it is not touched, what a denied
  one still shows, how the two phases of a request fit together, the client a loaded configuration gives,
  and what the audit log misses.
\<close>

section \<open>Release\<close>

text \<open>
  C1.  Nothing is released without consent: when a response whose status was not set leaves the filter with
  its status still not set, under a configuration that does not fail open, within the budget of the phase and
  with a network that does not answer with a cancellation, then its request's own context was stored, the body
  was read, the consumer was identified from that context's claims and mapped to a registered participant, and
  the resolver was asked about exactly this body and answered.  If the answer required consent, it named at
  least one claim, every claim named its owner, and for the owner and resource of every claim the
  consent-manager answered the identifier search for this very owner (before this phase when the identifier was
  cached) and, in this phase, a consents lookup of that identifier with a receipt that authorises the question,
  whatever the scheduling of the checks.  The identifiers cached before must come from searches
  (\<open>tracks_ResponseFilter\<close> keeps that), and the parts of the cache keys must not hold the separator byte.
\<close>

theorem released_only_with_consent:
  assumes "ResponseFilter (traced env) hops ops (Some cfg) w s = Some (w', s')"
    and "rr_status w = None" and "rr_status w' = None"
    and "\<not> IsFailOpen cfg" and "uncancelled env" and "Expire \<notin> set ops"
    and "sourced s" and "nul_free_client (NewClient (clientConfigFromCfg cfg))" and "plain_replies env"
  shows "\<exists>key ctx s1 body did sd s2 xs. correlationKey (rr_var w) = Some key
    \<and> LoadAndDeleteRequestContext (traced env) key s = (Some ctx, s1)
    \<and> rr_body w = Inr body \<and> int (length body) \<le> MaxResolveBodyBytes cfg
    \<and> consumerFromClaims (traced env) (rc_JWTClaims ctx) (ConsumerClaim cfg) = Inr did
    \<and> ParticipantSelfDescriptionByDID (traced env) (NewClient (clientConfigFromCfg cfg)) did s1 = (Inr sd, s2)
    \<and> calls s' = calls s @ xs \<and> release_basis cfg ctx body sd (calls s') xs"
proof -
  note fo = failOutcome_closed [OF assms(4)]
  obtain oc t where e: "evaluate (traced env) hops ops cfg w s = (oc, w', t)" and d: "oc_decision oc \<noteq> decisionDeny"
    and s': "s' = recordAudit (traced env) cfg oc (RecordDecision (oc_decision oc) (oc_failMode oc) t)"
    using ResponseFilter_released [OF assms(1-3)] by blast
  have allow: "oc_decision oc = decisionAllow" using evaluate_decision [OF e] d by (auto simp: two_valued_def)
  obtain key where k: "correlationKey (rr_var w) = Some key"
    using e allow by (auto simp: evaluate_def fo split: option.splits)
  obtain po s1 where l: "LoadAndDeleteRequestContext (traced env) key s = (po, s1)" by fastforce
  obtain ctx where ctx: "po = Some ctx" using e allow k l by (cases po) (auto simp: evaluate_def fo)
  with e k l have "evaluateWithResolver (traced env) hops ops cfg w key ctx (NewClient (clientConfigFromCfg cfg)) s1 = (oc, w', t)"
    by (simp add: evaluate_def)
  moreover have "sourced s1" using tracks_Load [OF l] assms(7) by (simp add: tracks_def)
  ultimately obtain body did sd s2 xs where
    r: "rr_body w = Inr body" "int (length body) \<le> MaxResolveBodyBytes cfg"
      "consumerFromClaims (traced env) (rc_JWTClaims ctx) (ConsumerClaim cfg) = Inr did"
      "ParticipantSelfDescriptionByDID (traced env) (NewClient (clientConfigFromCfg cfg)) did s1 = (Inr sd, s2)"
      "calls t = calls s1 @ xs" "release_basis cfg ctx body sd (calls t) xs"
    using evaluateWithResolver_allow [OF _ allow assms(4-6) _ assms(8,9)] by blast
  have "calls s' = calls t" by (simp add: s' calls_recordAudit)
  moreover have "calls s' = calls s @ xs" using calculation r(5) calls_Load [OF l] by simp
  ultimately show ?thesis using k l ctx r by (metis (no_types))
qed

lemma full_uncancelled: "uncancelled (scripted_env full_reply)"
  by (auto simp: uncancelled_def clean_for_def clean_result_def scripted_env_def full_reply_def demo_reply_def
      split: option.splits json.splits list.splits prod.splits)

lemma full_closed: "\<not> IsFailOpen full_config"
  by (simp add: full_config_def zero_config_def IsFailOpen_def)

lemma full_status: "rr_status full_response = None"
  by (simp add: full_response_def)

lemma full_sourced: "sourced full_state"
  by (rule sourced_empty) (simp_all add: full_state_def)

lemma full_me: "unmarshal (dec_struct me_field) resolver_body [] = Some []"
  unfolding resolver_body_def by code_simp

lemma full_plain: "plain_replies (scripted_env full_reply)"
proof -
  have "unmarshal (dec_struct me_field) body [] = Some []" if "full_reply rq = Response 200 body" for rq body
    using that by (auto simp: full_reply_def demo_reply_def full_me demo_me split: option.splits json.splits list.splits prod.splits if_splits)
  then show ?thesis by (auto simp: plain_replies_def scripted_env_def nul_free_def)
qed

theorem released_only_with_consent_witness:
  "\<exists>s' ctx sd. ResponseFilter (traced (scripted_env full_reply)) http_header_ops [] (Some full_config) full_response full_state
       = Some (full_response, s') \<and> release_basis full_config ctx ''[1]'' sd (calls s') (calls s')"
proof -
  have nf: "nul_free_client (NewClient (clientConfigFromCfg full_config))" by (simp add: full_client demo_nul_free)
  obtain s' where r: "ResponseFilter (traced (scripted_env full_reply)) http_header_ops [] (Some full_config) full_response full_state
       = Some (full_response, s')" using full_release by blast
  from released_only_with_consent [OF r full_status full_status full_closed full_uncancelled _ full_sourced nf full_plain] obtain ctx body sd xs where
    "rr_body full_response = Inr body" "calls s' = calls full_state @ xs" "release_basis full_config ctx body sd (calls s') xs" by auto
  with r show ?thesis by (auto simp: full_response_def full_state_def calls_def)
qed

text \<open>
  C6.  Released untouched or denied: evaluation always ends in one of the two verdicts, with one of the two fail modes or none, and leaves the
  response alone; at most, when the runner could not name the upstream's content type, it asked for the
  header object.  On an allow the response goes back as evaluation left it, on a deny the denial is written,
  and the decision is counted and audited in both cases.
\<close>

theorem released_or_denied:
  "\<exists>oc w1 s1. evaluate env hops ops cfg w s = (oc, w1, s1) \<and> oc_failMode oc \<in> {[], ''by_policy'', ''always_closed''}
    \<and> (w1 = w \<or> w1 = w\<lparr>rr_header_used := True\<rparr> \<and> rr_var w nginxUpstreamContentTypeVar \<in> range Inl \<union> {Inr []})
    \<and> (oc_decision oc = decisionAllow
         \<and> ResponseFilter env hops ops (Some cfg) w s
             = Some (w1, recordAudit env cfg oc (RecordDecision (oc_decision oc) (oc_failMode oc) s1))
       \<or> oc_decision oc = decisionDeny
         \<and> ResponseFilter env hops ops (Some cfg) w s
             = denyResponse hops w1 cfg (recordAudit env cfg oc (RecordDecision (oc_decision oc) (oc_failMode oc) s1)))"
proof -
  obtain oc w1 s1 where e: "evaluate env hops ops cfg w s = (oc, w1, s1)" by (metis prod.exhaust)
  have v: "rr_var w nginxUpstreamContentTypeVar \<in> range Inl \<union> {Inr []}"
    if "\<forall>v. rr_var w nginxUpstreamContentTypeVar = Inr v \<longrightarrow> v = []"
    using that by (cases "rr_var w nginxUpstreamContentTypeVar") auto
  have d: "oc_decision oc = decisionAllow \<or> oc_decision oc = decisionDeny" "oc_failMode oc \<in> {[], ''by_policy'', ''always_closed''}"
    using evaluate_decision [OF e] by (simp_all add: two_valued_def)
  from e d v evaluate_response [OF e] show ?thesis by (auto simp: ResponseFilter_def Let_def)
qed

section \<open>Denial\<close>

lemma filter_cases:
  assumes "ResponseFilter env hops ops (Some cfg) w s = Some (w', s')"
  shows "\<exists>w1 s1. (w1 = w \<or> w1 = w\<lparr>rr_header_used := True\<rparr>)
    \<and> (w' = w1 \<or> denyResponse hops w1 cfg s1 = Some (w', s'))"
proof -
  obtain oc w1 s1 where e: "evaluate env hops ops cfg w s = (oc, w1, s1)" by (metis prod.exhaust)
  with assms evaluate_response [OF e] show ?thesis by (auto simp: ResponseFilter_def Let_def split: if_splits)
qed

text \<open>
  C4.  A denied response reveals nothing of the upstream's: its status and body are the configured ones, its
  headers are the upstream's \<open>Access-Control-\<close> headers and a content type and length that describe the denial,
  for every header object that keeps the contract \<open>header_object\<close>.
\<close>

theorem denied_response_reveals_nothing:
  assumes "header_object valid names hops" and "valid h" and "rr_header w = Some h"
    and "ResponseFilter env hops ops (Some cfg) w s = Some (w', s')" and "rr_status w = None" and "rr_status w' \<noteq> None"
  shows "\<exists>h'. rr_status w' = Some (DenyStatusCode cfg) \<and> rr_written w' = Some (DenyResponseBody cfg)
    \<and> rr_header w' = Some h'
    \<and> names h' = {n \<in> names h. has_prefix n ''Access-Control-''} \<union> {''Content-Type'', ''Content-Length''}
    \<and> hd_get hops ''Content-Type'' h' = DenyResponseContentType cfg
    \<and> hd_get hops ''Content-Length'' h' = show_nat (length (DenyResponseBody cfg))"
proof -
  obtain w1 s1 where w1: "w1 = w \<or> w1 = w\<lparr>rr_header_used := True\<rparr>"
    and d: "w' = w1 \<or> denyResponse hops w1 cfg s1 = Some (w', s')"
    using filter_cases [OF assms(4)] by blast
  from w1 d assms(5,6) have d: "denyResponse hops w1 cfg s1 = Some (w', s')" by auto
  have "rr_header w1 = Some h" using w1 assms(3) by auto
  from header_object.denied_headers [OF assms(1,2) this d] obtain h' where h': "rr_header w' = Some h'"
    "names h' = {n \<in> names h. survivesDenial n} \<union> {''Content-Type'', ''Content-Length''}"
    "hd_get hops ''Content-Type'' h' = DenyResponseContentType cfg"
    "hd_get hops ''Content-Length'' h' = show_nat (length (DenyResponseBody cfg))"
    "rr_status w' = Some (DenyStatusCode cfg)" "rr_written w' = Some (DenyResponseBody cfg)" by blast
  have "survivesDenial n \<longleftrightarrow> has_prefix n ''Access-Control-''" if "n \<in> names h" for n
    using header_object.canonical [OF assms(1,2) that]
    by (simp add: survivesDenial_def deniedResponseHeaderPrefixes_def)
  then have "{n \<in> names h. survivesDenial n} = {n \<in> names h. has_prefix n ''Access-Control-''}" by blast
  with h' show ?thesis by simp
qed

definition lost_response :: "(string \<times> string) list runner_response" where
  "lost_response = full_response\<lparr>rr_var := (\<lambda>_. Inr [])\<rparr>"

lemma lost_denied:
  "\<exists>w' s'. ResponseFilter (traced (scripted_env full_reply)) http_header_ops [] (Some full_config) lost_response full_state
     = Some (w', s') \<and> rr_status w' \<noteq> None"
proof -
  have "correlationKey (rr_var lost_response) = None" "rr_header lost_response \<noteq> None" "rr_write_error lost_response = None"
    by (simp_all add: correlationKey_def lost_response_def full_response_def)
  then show ?thesis
    by (auto simp: ResponseFilter_def evaluate_def failOutcome_closed [OF full_closed] Let_def denyResponse_def)
qed

theorem denied_response_reveals_nothing_witness:
  "\<exists>w' s' h'. ResponseFilter (traced (scripted_env full_reply)) http_header_ops [] (Some full_config) lost_response full_state = Some (w', s')
     \<and> rr_status w' = Some 403 \<and> rr_written w' = Some ''no'' \<and> rr_header w' = Some h'
     \<and> fst ` set h' = {''Access-Control-Max-Age'', ''Content-Type'', ''Content-Length''}"
proof -
  let ?h = "[(''Etag'', ''x''), (''Access-Control-Max-Age'', ''5'')] :: (string \<times> string) list"
  obtain w' s' where r: "ResponseFilter (traced (scripted_env full_reply)) http_header_ops [] (Some full_config) lost_response full_state
     = Some (w', s')" "rr_status w' \<noteq> None" using lost_denied by blast
  have c: "canonical_header ?h" unfolding canonical_header_def by code_simp
  have w: "rr_header lost_response = Some ?h" "rr_status lost_response = None" by (simp_all add: lost_response_def full_response_def)
  have f: "DenyStatusCode full_config = 403" "DenyResponseBody full_config = ''no''" by (simp_all add: full_config_def)
  have n: "{n \<in> fst ` set ?h. has_prefix n ''Access-Control-''} = {''Access-Control-Max-Age''}"
    by (auto simp: has_prefix_iff)
  from denied_response_reveals_nothing [OF http_headers.header_object_axioms c w(1) r(1) w(2) r(2)] r(1) f
  show ?thesis unfolding n by auto
qed

section \<open>The two phases of a request\<close>

lemma captured_claims_Inr:
  assumes "ExtractToken header = Inr token" and "DecodeClaims env token (claimKeysToDecode cfg) = Inr claims"
  shows "captured_claims env cfg header s = (claims, s)"
proof -
  have "header \<noteq> []" using assms(1) by (auto simp: ExtractToken_def)
  with assms show ?thesis by (simp add: captured_claims_def)
qed

text \<open>
  C10.  The response phase sees the request it belongs to: a request with a readable bearer token and a
  correlation id is stored under that id, and as long as the entry is there and not older than a minute, a
  response with the id takes a context with the request's method and path, in which the configured claim
  resolves to exactly the consumers it resolves to in the whole token.
\<close>

theorem response_sees_its_request:
  fixes s s2 :: "('w, 'z) store_proc_scheme"
  assumes "ExtractToken (nr_header r (JWTHeaderName cfg)) = Inr token" and "payload_claims env token = Inr all"
    and "claimPathRoot (ConsumerClaim cfg) \<noteq> []" and "correlationKey (nr_var r) = Some key" and "store_inv (store s)"
  shows "\<exists>ctx t. map_of (requestContextStore (store (RequestFilter env (Some cfg) r s))) key = Some \<lparr>sc_ctx = ctx, storedAt = t\<rparr>
    \<and> rc_Method ctx = nr_Method r \<and> rc_Path ctx = nr_Path r
    \<and> (\<forall>did. consumerFromClaims env (rc_JWTClaims ctx) (ConsumerClaim cfg) = Inr did
          \<longleftrightarrow> consumerFromClaims env all (ConsumerClaim cfg) = Inr did)
    \<and> (\<forall>now s3. map_of (requestContextStore (store s2)) key = Some \<lparr>sc_ctx = ctx, storedAt = t\<rparr>
          \<and> time_now env s2 = (now, s3) \<and> now - t \<le> 60 * second \<longrightarrow>
          fst (LoadAndDeleteRequestContext env key s2) = Some ctx)"
proof -
  obtain claims where d: "DecodeClaims env token (claimKeysToDecode cfg) = Inr claims"
    using assms(2) by (simp add: DecodeClaims_select)
  let ?ctx = "\<lparr>rc_Method = nr_Method r, rc_Path = nr_Path r, rc_JWTClaims = claims\<rparr>"
  have rf: "RequestFilter env (Some cfg) r s = StoreRequestContext env key ?ctx s"
    using assms(4) by (simp add: RequestFilter_def captured_claims_Inr [OF assms(1) d])
  obtain t s1 where t: "time_now env (s\<lparr>janitorStarted := True\<rparr>) = (t, s1)" by fastforce
  have "map_of (requestContextStore (store (RequestFilter env (Some cfg) r s))) key = Some \<lparr>sc_ctx = ?ctx, storedAt = t\<rparr>"
    unfolding rf store_StoreRequestContext [OF t] by (rule store_put_facts(2) [OF surjective_pairing assms(5)])
  moreover have "fst (LoadAndDeleteRequestContext env key s2) = Some ?ctx"
    if "map_of (requestContextStore (store s2)) key = Some \<lparr>sc_ctx = ?ctx, storedAt = t\<rparr>"
      "time_now env s2 = (now, s3)" "now - t \<le> 60 * second" for now s3
    using that LoadAndDelete_take(1) [OF that(2), of key] by (simp add: fst_store_take outlived_iff RequestContextTTL_def)
  ultimately show ?thesis using decoded_consumer [OF assms(2) d assms(3)] by fastforce
qed

definition demo_runner_request :: runner_request where
  "demo_runner_request = \<lparr>nr_ID = 7, nr_Method = ''GET'', nr_Path = ''/d'', nr_header = (\<lambda>_. ''Bearer '' @ demo_token),
     nr_var = (\<lambda>_. Inr ''r1'')\<rparr>"

theorem response_sees_its_request_witness:
  "\<exists>ctx. fst (LoadAndDeleteRequestContext (scripted_env demo_reply) ''r1''
        (RequestFilter (scripted_env demo_reply) (Some full_config) demo_runner_request demo_store)) = Some ctx
     \<and> rc_Path ctx = ''/d'' \<and> consumerFromClaims (scripted_env demo_reply) (rc_JWTClaims ctx) ''iss'' = Inr ''d''"
proof -
  let ?env = "scripted_env demo_reply" and ?s = "RequestFilter (scripted_env demo_reply) (Some full_config) demo_runner_request demo_store"
  have t: "ExtractToken (nr_header demo_runner_request (JWTHeaderName full_config)) = Inr demo_token"
    by (simp add: demo_runner_request_def ExtractToken_def bearerPrefix_def demo_token_def has_prefix_iff trim_prefix_def)
  have p: "claimPathRoot (ConsumerClaim full_config) \<noteq> []" by (simp add: full_config_def claimPathRoot_def)
  have k: "correlationKey (nr_var demo_runner_request) = Some ''r1''" by (simp add: correlationKey_def demo_runner_request_def)
  have i: "store_inv (store demo_store)" by (simp add: demo_store_def store_inv_def empty_store_def)
  from response_sees_its_request [OF t demo_token_claims p k i, where ?s2.0 = ?s] obtain ctx t0 where
    c: "map_of (requestContextStore (store ?s)) ''r1'' = Some \<lparr>sc_ctx = ctx, storedAt = t0\<rparr>" "rc_Path ctx = ''/d''"
      "\<And>did. consumerFromClaims ?env (rc_JWTClaims ctx) (ConsumerClaim full_config) = Inr did
         \<longleftrightarrow> consumerFromClaims ?env [(''iss'', JStr ''d''), (''a'', JNum ''1'')] (ConsumerClaim full_config) = Inr did"
      "\<And>now s3. time_now ?env ?s = (now, s3) \<Longrightarrow> now - t0 \<le> 60 * second \<Longrightarrow> fst (LoadAndDeleteRequestContext ?env ''r1'' ?s) = Some ctx"
    by (fastforce simp: demo_runner_request_def)
  obtain claims where d: "DecodeClaims ?env demo_token (claimKeysToDecode full_config) = Inr claims"
    by (simp add: DecodeClaims_select demo_token_claims)
  have rf: "?s = StoreRequestContext ?env ''r1'' \<lparr>rc_Method = ''GET'', rc_Path = ''/d'', rc_JWTClaims = claims\<rparr> demo_store"
    using k by (simp add: RequestFilter_def captured_claims_Inr [OF t d]) (simp add: demo_runner_request_def)
  have "t0 = 0 \<and> time_now ?env ?s = (second, snd (time_now ?env ?s))"
    using c(1) unfolding rf
    by (auto simp: StoreRequestContext_def demo_store_def time_now_def scripted_env_def store_put_def empty_store_def MaxRequestContexts_def log_eviction_def gset_def)
  with c(4) have "fst (LoadAndDeleteRequestContext ?env ''r1'' ?s) = Some ctx" by (fastforce simp: second_def)
  moreover have "consumerFromClaims ?env (rc_JWTClaims ctx) ''iss'' = Inr ''d''"
    using c(3) [of "''d''"]
    by (simp add: full_config_def consumerFromClaims_def parseClaimSegment_def walk_name_def descendIntoObject_def)
  ultimately show ?thesis using c(2) by blast
qed

section \<open>The client of a loaded configuration\<close>

text \<open>
  C24.  A route that loads gives working clients: the consent-manager client has credentials, and its timeout
  and token lifetime and the resolver's timeout are the configured ones, positive and without wrap-around.
\<close>

theorem loaded_config_is_usable:
  assumes "ParseConf env input s = (Inr cfg, s')"
  shows "\<not> no_credentials (NewClient (clientConfigFromCfg cfg))
    \<and> timeout (NewClient (clientConfigFromCfg cfg)) = ConsentAPITimeout cfg * millisecond \<and> 0 < ConsentAPITimeout cfg
    \<and> tokenTTL (NewClient (clientConfigFromCfg cfg)) = ParticipantTokenTTL cfg * second \<and> 0 < ParticipantTokenTTL cfg
    \<and> or_timeout (resolver_NewClient (OwnerResolverURL cfg) (OwnerResolverTimeout cfg)) = OwnerResolverTimeout cfg * millisecond
    \<and> 0 < OwnerResolverTimeout cfg
    \<and> apiPrefix (NewClient (clientConfigFromCfg cfg)) = ConsentAPIPrefix cfg"
proof -
  have "Validate env cfg = None"
    using assms by (auto simp: ParseConf_def ParseConfig_def Let_def split: if_splits sum.splits option.splits)
  then have v: "valid_config env cfg" by (simp add: Validate_valid)
  then have r: "ConsentAPITimeout cfg \<in> {1..60000}" "ParticipantTokenTTL cfg \<in> {1..86400}" "OwnerResolverTimeout cfg \<in> {1..60000}"
    "TokenServiceURL cfg \<noteq> [] \<or> ParticipantToken cfg \<noteq> []" "ConsentAPIPrefix cfg \<noteq> []"
    by (auto simp: valid_config_def http_url_def)
  have i: "i64 (ConsentAPITimeout cfg * millisecond) = ConsentAPITimeout cfg * millisecond"
    "i64 (ParticipantTokenTTL cfg * second) = ParticipantTokenTTL cfg * second"
    "i64 (OwnerResolverTimeout cfg * millisecond) = OwnerResolverTimeout cfg * millisecond"
    using r(1-3) by (auto intro!: i64_id simp: millisecond_def second_def)
  show ?thesis
    using r i by (auto simp: NewClient_def clientConfigFromCfg_def no_credentials_def resolver_NewClient_def MinTimeoutMs_def second_def)
qed

theorem loaded_config_is_usable_witness:
  "\<exists>cfg s'. ParseConf (scripted_env demo_reply) small_config empty_proc = (Inr cfg, s')
     \<and> \<not> no_credentials (NewClient (clientConfigFromCfg cfg))"
proof -
  obtain cfg s' where r: "ParseConf (scripted_env demo_reply) small_config empty_proc = (Inr cfg, s')"
    using small_config_loads by (auto simp: ParseConf_def)
  from loaded_config_is_usable [OF r] r show ?thesis by blast
qed

section \<open>What the audit log misses\<close>

text \<open>
  C35.  A failure after the first consent is not in the audit log: when the checks of a response end in a
  failure and some owner had answered, every audit record of the response says allow, although, without a
  fail-open policy, the response was denied.
\<close>

theorem failure_unrecorded:
  assumes "checkOwners env ops cfg key ctx client claims sd s = (oc, s')"
    and "oc_failMode oc \<noteq> []" and "oc_checked oc \<noteq> []" and "\<not> IsFailOpen cfg"
  shows "oc_decision oc = decisionDeny \<and> audit_events now oc \<noteq> []
    \<and> (\<forall>ev\<in>set (audit_events now oc). ev_Decision ev = decisionAllow)"
proof -
  obtain r s1 where "check_reach env key ctx client sd claims s (ops @ remaining_steps (length claims)) (r, s1)"
    and "goroutines r = replicate (length claims) Finished" and len: "length (results r) = length claims"
    and ok: "\<And>i. i < length claims \<Longrightarrow> result_ok key ctx sd (claims ! i) Finished (results r ! i)"
    and red: "reduceOwnerResults env cfg key ctx (phase_done r) (results r) s1 = (oc, s')"
    using checkOwners_run [OF assms(1)] by blast
  have nd: "first_denial (results r) = None"
  proof (cases "first_denial (results r)")
    case (Some d)
    with ok_denial_mode [OF ok len Some] red assms(2) show ?thesis by (auto simp: reduceOwnerResults_def)
  qed simp
  have al: "ck_decision k = decisionAllow" if k: "k \<in> set (consulted (results r))" for k
  proof -
    obtain x where x: "x \<in> set (results r)" "k = or_record x" "ck_subject k \<noteq> []"
      using k by (auto simp: consulted_def)
    then obtain i where i: "i < length claims" "k = or_record (results r ! i)" "ck_subject k \<noteq> []"
      using len by (metis in_set_conv_nth)
    then have "results r ! i \<in> set (results r)" using len by simp
    with nd result_ok_facts(2) [OF ok [OF i(1)]] i(2,3) show ?thesis by (auto simp: first_denial_None)
  qed
  have "oc_decision oc = decisionDeny"
    using red nd assms(2) failOutcome_closed [OF assms(4)] by (auto simp: reduceOwnerResults_def zero_outcome_def split: option.splits)
  with al assms(3) reduce_checked [OF red] show ?thesis by (auto simp: audit_events_def)
qed

definition late_bites :: "'w bites" where
  "late_bites = (\<lambda>rq w. Some ((None, ''timed out''), w))"

lemma late_check:
  fixes t :: "(int \<times> exchange list, 'z) client_proc_scheme"
  shows "\<exists>e t'. CheckConsent (cut_env (Some DeadlineExceeded) late_bites (traced (scripted_env demo_reply))) demo_client demo_question t = (Inl e, t')"
proof -
  let ?env = "cut_env (Some DeadlineExceeded) late_bites (traced (scripted_env demo_reply))"
  have f: "client_do ?env demo_client rq s = (a, s') \<Longrightarrow> isl a" for rq a and s s' :: "(int \<times> exchange list, 'z) client_proc_scheme"
    by (auto simp: client_do_def http_do_def cut_env_def late_bites_def Let_def split: prod.splits)
  have si: "search_identifier ?env demo_client sub sd tok s = (a, s') \<Longrightarrow> isl a"
    for sub sd tok a and s s' :: "(int \<times> exchange list, 'z) client_proc_scheme"
    by (auto simp: search_identifier_def split: sum.splits prod.splits dest!: f)
  have ri: "resolveUserIdentifier ?env demo_client sub sd tok s = (Inr u, s') \<Longrightarrow> u \<noteq> None"
    for sub sd tok u and s s' :: "(int \<times> exchange list, 'z) client_proc_scheme"
    by (auto simp: resolveUserIdentifier_def split: option.splits prod.splits dest!: si) metis
  have hg: "hasGrantedConsent ?env demo_client tok u demo_question s = (a, s') \<Longrightarrow> isl a"
    for tok u a and s s' :: "(int \<times> exchange list, 'z) client_proc_scheme"
    by (auto simp: hasGrantedConsent_def split: sum.splits prod.splits dest!: f)
  have ck: "check ?env demo_client demo_question False s = (a, s') \<Longrightarrow> isl a"
    for a and s s' :: "(int \<times> exchange list, 'z) client_proc_scheme"
    by (auto simp: check_def split: sum.splits prod.splits option.splits if_splits bool.splits dest!: ri hg)
  obtain a t' where c: "check ?env demo_client demo_question False t = (a, t')" by fastforce
  from ck [OF c] c show ?thesis
    by (cases a) (auto simp: CheckConsent_def check_with_retry_def demo_client_def demo_question_def)
qed

definition late_steps :: "'w owner_op list" where
  "late_steps = [Start 0, Finish 0 no_bites, Start 1, Expire, Finish 1 late_bites]"

lemma late_run:
  "\<exists>r s'. run_steps (traced (scripted_env demo_reply)) ''r1'' demo_request demo_client ''sd:c'' [demo_claim, demo_claim] late_steps
       (start_run [demo_claim, demo_claim], demo_state (0, [])) = (r, s')
     \<and> goroutines r = [Finished, Finished] \<and> phase_done r = Some DeadlineExceeded
     \<and> (\<exists>e. results r = [check_result ''r1'' demo_request demo_claim (Inr \<lparr>Decision = DecisionAllow, Reason = []\<rparr>)
               (attempted_result demo_request ''sd:c'' demo_claim),
            check_result ''r1'' demo_request demo_claim (Inl e) (attempted_result demo_request ''sd:c'' demo_claim)])"
proof -
  let ?env = "traced (scripted_env demo_reply)" and ?L = "[demo_claim, demo_claim]"
  let ?step = "\<lambda>p st. owner_step ?env ''r1'' demo_request demo_client ''sd:c'' ?L p st"
  let ?x = "attempted_result demo_request ''sd:c'' demo_claim"
  let ?a = "check_result ''r1'' demo_request demo_claim (Inr \<lparr>Decision = DecisionAllow, Reason = []\<rparr>) ?x"
  have s0: "start_run ?L = \<lparr>goroutines = [Waiting, Waiting], results = [zero_result_of_check, zero_result_of_check],
      checks_done = None, phase_done = None\<rparr>"
    by (simp add: start_run_def numeral_2_eq_2)
  obtain t1 s1 where 1: "?step (Start 0) (start_run ?L, demo_state (0, [])) = (\<lparr>goroutines = [Running t1, Waiting],
      results = [?x, zero_result_of_check], checks_done = None, phase_done = None\<rparr>, s1)"
    by (cases "time_now ?env (demo_state (0, []))") (simp add: s0 owner_step_def start_check_def in_flight_def is_running_def
        maxConcurrentConsentChecks_def attempted_result_def)
  obtain s2 where g: "CheckConsent ?env demo_client demo_question s1 = (Inr \<lparr>Decision = DecisionAllow, Reason = []\<rparr>, s2)"
    using demo_grants [OF answers_checks_demo] by blast
  obtain s3 where 2: "?step (Finish 0 no_bites) (\<lparr>goroutines = [Running t1, Waiting],
      results = [?x, zero_result_of_check], checks_done = None, phase_done = None\<rparr>, s1) = (\<lparr>goroutines = [Finished, Waiting],
      results = [?a, zero_result_of_check], checks_done = None, phase_done = None\<rparr>, s3)"
    by (cases "time_now ?env s2") (simp add: owner_step_def finish_check_def demo_owner_request g cut_env_def,
        simp add: result_defs)
  obtain t4 s4 where 3: "?step (Start 1) (\<lparr>goroutines = [Finished, Waiting],
      results = [?a, zero_result_of_check], checks_done = None, phase_done = None\<rparr>, s3) = (\<lparr>goroutines = [Finished, Running t4],
      results = [?a, ?x], checks_done = None, phase_done = None\<rparr>, s4)"
    by (cases "time_now ?env s3") (simp add: owner_step_def start_check_def in_flight_def is_running_def
        maxConcurrentConsentChecks_def attempted_result_def)
  have 4: "?step Expire (\<lparr>goroutines = [Finished, Running t4],
      results = [?a, ?x], checks_done = None, phase_done = None\<rparr>, s4) = (\<lparr>goroutines = [Finished, Running t4],
      results = [?a, ?x], checks_done = Some DeadlineExceeded, phase_done = Some DeadlineExceeded\<rparr>, s4)"
    by (simp add: owner_step_def)
  obtain e s5 where f: "CheckConsent (cut_env (Some DeadlineExceeded) late_bites ?env) demo_client demo_question s4 = (Inl e, s5)"
    using late_check by blast
  let ?e = "check_result ''r1'' demo_request demo_claim (Inl e) ?x"
  obtain s6 where 5: "?step (Finish 1 late_bites) (\<lparr>goroutines = [Finished, Running t4],
      results = [?a, ?x], checks_done = Some DeadlineExceeded, phase_done = Some DeadlineExceeded\<rparr>, s4) = (\<lparr>goroutines = [Finished, Finished],
      results = [?a, ?e], checks_done = Some DeadlineExceeded, phase_done = Some DeadlineExceeded\<rparr>, s6)"
    by (cases "time_now ?env s5") (simp add: owner_step_def finish_check_def demo_owner_request f)
  show ?thesis unfolding late_steps_def run_steps_Cons run_steps_Nil 1 2 3 4 5 by auto
qed

theorem failure_unrecorded_witness:
  "\<exists>oc s'. checkOwners (traced (scripted_env demo_reply)) late_steps zero_config ''r1'' demo_request demo_client
       [demo_claim, demo_claim] ''sd:c'' (demo_state (0, [])) = (oc, s')
     \<and> oc_decision oc = decisionDeny \<and> map ev_Decision (audit_events 0 oc) = [decisionAllow]"
proof -
  let ?env = "traced (scripted_env demo_reply)" and ?L = "[demo_claim, demo_claim]"
  obtain r s1 e where r: "run_steps ?env ''r1'' demo_request demo_client ''sd:c'' ?L late_steps (start_run ?L, demo_state (0, [])) = (r, s1)"
    "goroutines r = [Finished, Finished]" "phase_done r = Some DeadlineExceeded"
    "results r = [check_result ''r1'' demo_request demo_claim (Inr \<lparr>Decision = DecisionAllow, Reason = []\<rparr>)
               (attempted_result demo_request ''sd:c'' demo_claim),
            check_result ''r1'' demo_request demo_claim (Inl e) (attempted_result demo_request ''sd:c'' demo_claim)]"
    using late_run by blast
  have "run_steps ?env ''r1'' demo_request demo_client ''sd:c'' ?L (remaining_steps 2) (r, s1) = (r, s1)"
    using r(2) by (intro finished_idle [of _ 2]) (auto simp: remaining_steps_def list_all_iff numeral_2_eq_2)
  then have a: "run_steps ?env ''r1'' demo_request demo_client ''sd:c'' ?L (late_steps @ remaining_steps (length ?L)) (start_run ?L, demo_state (0, [])) = (r, s1)"
    by (simp add: run_steps_append r(1) numeral_2_eq_2 [symmetric])
  obtain oc s2 where oc: "checkOwners ?env late_steps zero_config ''r1'' demo_request demo_client ?L ''sd:c'' (demo_state (0, [])) = (oc, s2)"
    by fastforce
  then have red: "reduceOwnerResults ?env zero_config ''r1'' demo_request (Some DeadlineExceeded) (results r) s1 = (oc, s2)"
    unfolding checkOwners_def a using r(3) by simp
  have "oc_failMode oc \<noteq> [] \<and> length (oc_checked oc) = 1"
    using red unfolding r(4)
    by (auto simp: reduceOwnerResults_def result_defs consulted_def demo_claim_def failOutcome_def fail_mode_text_def split: option.splits if_splits)
  moreover have "\<not> IsFailOpen zero_config" by (simp add: IsFailOpen_def zero_config_def)
  ultimately have "oc_decision oc = decisionDeny \<and> (\<forall>ev\<in>set (audit_events 0 oc). ev_Decision ev = decisionAllow)"
    "length (audit_events 0 oc) = 1"
    using failure_unrecorded [OF oc, of 0] by (auto simp: audit_events_def)
  then show ?thesis using oc by (cases "audit_events 0 oc") auto
qed

section \<open>What is not checked\<close>

text \<open>
  C36.  The purpose is not part of a claim's identity: once a claim names an owner and a resource, a later claim
  of the resolver for the same two is without effect, whatever its purpose.  The verdict, the calls and the whole
  state are those of the resolution without it, so that purpose is never checked.
\<close>

theorem second_purpose_unchecked:
  assumes "cl_OwnerID c' = cl_OwnerID c" and "cl_DataResource c' = cl_DataResource c" and "c \<in> set cs"
  shows "decide_claims env ops cfg key ctx client sd (cs @ c' # ds) s = decide_claims env ops cfg key ctx client sd (cs @ ds) s"
proof -
  have "claim_pair c' \<in> claim_pair ` set cs" using assms by (force simp: claim_pair_def)
  from distinctClaims_repeated [OF this] assms(3) show ?thesis by (auto simp: decide_claims_def)
qed

definition two_purposes :: "claim list" where
  "two_purposes = [\<lparr>cl_OwnerID = ''did:o'', cl_DataResource = [], cl_Purpose = []\<rparr>,
     \<lparr>cl_OwnerID = ''did:o'', cl_DataResource = [], cl_Purpose = ''marketing''\<rparr>]"

theorem second_purpose_unchecked_witness:
  "\<exists>oc s1. decide_claims (traced (scripted_env full_reply)) [] full_config ''r1'' full_context demo_client ''sd:c'' two_purposes full_state
       = (oc, s1) \<and> oc_decision oc = decisionAllow"
proof -
  let ?c = "\<lparr>cl_OwnerID = ''did:o'', cl_DataResource = [], cl_Purpose = []\<rparr> :: claim"
  have "decide_claims (traced (scripted_env full_reply)) [] full_config ''r1'' full_context demo_client ''sd:c'' two_purposes full_state
      = decide_claims (traced (scripted_env full_reply)) [] full_config ''r1'' full_context demo_client ''sd:c'' [?c] full_state"
    using second_purpose_unchecked [of "\<lparr>cl_OwnerID = ''did:o'', cl_DataResource = [], cl_Purpose = ''marketing''\<rparr>" ?c "[?c]"
        _ _ _ _ _ _ _ "[]"] by (simp add: two_purposes_def)
  then show ?thesis using full_decide [where s = full_state] by simp
qed

end
