(* ===== verification/Release_Claims.thy ===== *)
theory Release_Claims
  imports Filter_Claims
begin

text \<open>
  What every policy guarantees: the failures that are denied even by a configuration that fails open, what a
  phase that ran out of time lets through whatever the configuration, and what the audit log says of a verdict.
\<close>

section \<open>Failures that are always denied\<close>

definition tolerated :: "config \<Rightarrow> gerror \<Rightarrow> bool" where
  "tolerated cfg e \<longleftrightarrow> IsFailOpen cfg \<and> \<not> errors_is e NoCredentials \<and> \<not> errors_is e ParticipantNotRegistered"

lemma fail_outcome_allow:
  "oc_decision (failOutcome cfg mode reason key req) = decisionAllow \<longleftrightarrow> mode = FailByPolicy \<and> IsFailOpen cfg"
  by (simp add: failOutcome_def zero_outcome_def Let_def decisionAllow_def decisionDeny_def split: option.split)

lemma mode_for_error: "failModeForError e = FailByPolicy \<longleftrightarrow> \<not> errors_is e NoCredentials \<and> \<not> errors_is e ParticipantNotRegistered"
  by (simp add: failModeForError_def)

lemma identify_allow:
  assumes "identify_parties env cfg key ctx client s = (Inl oc, s')" and "oc_decision oc = decisionAllow"
  shows "\<exists>did. consumerFromClaims env (rc_JWTClaims ctx) (ConsumerClaim cfg) = Inr did
    \<and> (\<exists>e s2. tolerated cfg e \<and> (ParticipantSelfDescriptionByDID env client did s = (Inl e, s2)
         \<or> (\<exists>sd s1. ParticipantSelfDescriptionByDID env client did s = (Inr sd, s1) \<and> ProviderSelfDescription env client s1 = (Inl e, s2))))"
  using assms by (auto simp: identify_parties_def fail_outcome_allow mode_for_error tolerated_def split: sum.splits prod.splits)

lemma decide_fits:
  assumes "decide_claims env ops cfg key ctx client sd found s = (oc, s')" and "oc_decision oc = decisionAllow"
  shows "found \<noteq> [] \<and> (\<exists>claims. distinctClaims found = Inr claims \<and> int (length claims) \<le> MaxOwnersPerResponse cfg
    \<and> (RequirePurpose cfg \<longrightarrow> (\<forall>c\<in>set claims. ow_purpose c \<noteq> [])))"
proof -
  have ne: "found \<noteq> []" using assms by (auto simp: decide_claims_def fail_outcome_allow)
  obtain claims where d: "distinctClaims found = Inr claims"
    using assms ne by (cases "distinctClaims found") (auto simp: decide_claims_def fail_outcome_allow)
  obtain po s1 where p: "checkPurposeScoping env cfg key claims s = (po, s1)" by fastforce
  have "po = None" using assms ne d p checkPurposeScoping_Some by (cases po) (fastforce simp: decide_claims_def fail_outcome_allow)+
  with checkPurposeScoping_None [OF p] assms ne d p show ?thesis
    by (auto simp: decide_claims_def fail_outcome_allow split: if_splits)
qed

text \<open>
  The failures of the checks that count, in the order of the claims: a check that was cancelled because another
  one settled the verdict does not.  An allowed outcome has no refusal, and its first failure is a tolerated one.
\<close>

definition counting_failures :: "sentinel option \<Rightarrow> owner_check_result list \<Rightarrow> gerror list" where
  "counting_failures phaseErr rs =
     filter (\<lambda>e. \<not> (errors_is e Canceled \<and> phaseErr = None)) (List.map_filter (\<lambda>x. if or_attempted x then or_err x else None) rs)"

lemma first_failure_counting:
  "first_failure pe rs = None \<Longrightarrow> counting_failures pe rs = []"
  "first_failure pe rs = Some (e, q) \<Longrightarrow> \<exists>es. counting_failures pe rs = e # es"
  by (induction rs) (auto simp: counting_failures_def map_filter_simps split: option.splits if_splits)

definition checks_passed :: "'w env \<Rightarrow> 'w owner_op list \<Rightarrow> config \<Rightarrow> string \<Rightarrow> request_context \<Rightarrow> client \<Rightarrow> owner_claim list \<Rightarrow> string
    \<Rightarrow> ('w, 'z) metrics_proc_scheme \<Rightarrow> bool" where
  "checks_passed env ops cfg key ctx client claims sd s =
     (case run_steps env key ctx client sd claims (ops @ remaining_steps (length claims)) (start_run claims, s) of
        (r, _) \<Rightarrow> (\<forall>x\<in>set (results r). or_problem x \<longrightarrow> or_err x \<noteq> None)
          \<and> (case counting_failures (phase_done r) (results r) of [] \<Rightarrow> True | e # _ \<Rightarrow> tolerated cfg e))"

lemma allowed_checks_passed:
  assumes "checkOwners env ops cfg key ctx client claims sd s = (oc, s')" and allow: "oc_decision oc = decisionAllow"
  shows "checks_passed env ops cfg key ctx client claims sd s"
proof -
  let ?ops = "ops @ remaining_steps (length claims)"
  obtain r s1 where run: "run_steps env key ctx client sd claims ?ops (start_run claims, s) = (r, s1)" by fastforce
  have red: "reduceOwnerResults env cfg key ctx (phase_done r) (results r) s1 = (oc, s')"
    using assms(1) run by (simp add: checkOwners_def)
  note reach = run_steps_reach [of env key ctx client sd claims s ?ops, unfolded run]
  have len: "length (results r) = length claims" using reach_shape [OF reach] by simp
  have "goroutines r = replicate (length claims) Finished"
    using remaining_steps_end [of "run_steps env key ctx client sd claims ops (start_run claims, s)" "length claims" env key ctx client sd claims]
      reach_shape [OF run_steps_reach [of env key ctx client sd claims s ops]] run by (simp add: run_steps_append)
  then have ok: "\<And>i. i < length claims \<Longrightarrow> result_ok key ctx sd (claims ! i) Finished (results r ! i)"
    using reach_results [OF reach] by simp
  note dn = ok_denials [OF ok len]
  have nd: "\<forall>x\<in>set (results r). or_problem x \<longrightarrow> or_err x \<noteq> None" using reduce_denial [OF dn red allow] by blast
  then have fd: "first_denial (results r) = None" by (auto simp: first_denial_None)
  have tol: "tolerated cfg e" if "first_failure (phase_done r) (results r) = Some (e, q)" for e q
    using red allow by (auto simp: reduceOwnerResults_def fd that fail_outcome_allow mode_for_error tolerated_def)
  have "case counting_failures (phase_done r) (results r) of [] \<Rightarrow> True | e # _ \<Rightarrow> tolerated cfg e"
  proof (cases "first_failure (phase_done r) (results r)")
    case None
    from first_failure_counting(1) [OF this] show ?thesis by simp
  next
    case (Some f)
    obtain e q where f: "f = (e, q)" by fastforce
    obtain es where "counting_failures (phase_done r) (results r) = e # es" using first_failure_counting(2) Some f by blast
    with tol Some f show ?thesis by simp
  qed
  with nd show ?thesis by (simp add: checks_passed_def run)
qed

lemma decide_passed:
  assumes "decide_claims env ops cfg key ctx client sd found s = (oc, s')" and allow: "oc_decision oc = decisionAllow"
  shows "found \<noteq> [] \<and> (\<exists>claims. distinctClaims found = Inr claims \<and> int (length claims) \<le> MaxOwnersPerResponse cfg
    \<and> (RequirePurpose cfg \<longrightarrow> (\<forall>c\<in>set claims. ow_purpose c \<noteq> []))
    \<and> checks_passed env ops cfg key ctx client claims sd (snd (checkPurposeScoping env cfg key claims s)))"
proof -
  from decide_fits [OF assms] obtain claims where ne: "found \<noteq> []" and d: "distinctClaims found = Inr claims"
    and n: "int (length claims) \<le> MaxOwnersPerResponse cfg" and q: "RequirePurpose cfg \<longrightarrow> (\<forall>c\<in>set claims. ow_purpose c \<noteq> [])" by blast
  obtain po s1 where p: "checkPurposeScoping env cfg key claims s = (po, s1)" by fastforce
  have "po = None" using checkPurposeScoping_None [OF p] q by blast
  then have "checkOwners env ops cfg key ctx client claims sd s1 = (oc, s')"
    using assms(1) ne d n p by (simp add: decide_claims_def)
  from allowed_checks_passed [OF this allow] ne d n q p show ?thesis by simp
qed

text \<open>What a released response has passed, from the context its request left.\<close>

definition passed :: "'w env \<Rightarrow> 'h header_ops \<Rightarrow> 'w owner_op list \<Rightarrow> config \<Rightarrow> 'h runner_response \<Rightarrow> string \<Rightarrow> request_context
    \<Rightarrow> ('w, 'z) metrics_proc_scheme \<Rightarrow> bool" where
  "passed env hops ops cfg w key ctx s =
     (let client = NewClient (clientConfigFromCfg cfg)
      in case rr_body w of
           Inl _ \<Rightarrow> IsFailOpen cfg
         | Inr body \<Rightarrow> int (length body) \<le> MaxResolveBodyBytes cfg
             \<and> (case consumerFromClaims env (rc_JWTClaims ctx) (ConsumerClaim cfg) of
                  Inl _ \<Rightarrow> False
                | Inr did \<Rightarrow>
                    (case ParticipantSelfDescriptionByDID env client did s of
                       (Inl e, _) \<Rightarrow> tolerated cfg e
                     | (Inr sd, s1) \<Rightarrow>
                         (case ProviderSelfDescription env client s1 of
                            (Inl e, _) \<Rightarrow> tolerated cfg e
                          | (Inr psd, s2) \<Rightarrow>
                              (case ask_resolver env cfg ctx (fst (responseContentType hops w))
                                      \<lparr>pt_Consumer = sd, pt_Provider = psd\<rparr> body s2 of
                                 (Inl _, _) \<Rightarrow> IsFailOpen cfg
                               | (Inr result, s3) \<Rightarrow> ConsentRequired result \<longrightarrow>
                                   Claims result \<noteq> [] \<and> (\<exists>claims. distinctClaims (Claims result) = Inr claims
                                     \<and> int (length claims) \<le> MaxOwnersPerResponse cfg
                                     \<and> (RequirePurpose cfg \<longrightarrow> (\<forall>c\<in>set claims. ow_purpose c \<noteq> []))
                                     \<and> checks_passed env ops cfg key ctx client claims sd
                                          (snd (checkPurposeScoping env cfg key claims s3))))))))"

lemma evaluateWithResolver_passed:
  assumes "evaluateWithResolver env hops ops cfg w key ctx (NewClient (clientConfigFromCfg cfg)) s = (oc, w', s')"
    and allow: "oc_decision oc = decisionAllow"
  shows "passed env hops ops cfg w key ctx s"
proof (cases "rr_body w")
  case (Inl e)
  then show ?thesis using assms by (auto simp: evaluateWithResolver_def passed_def fail_outcome_allow)
next
  case (Inr body)
  let ?client = "NewClient (clientConfigFromCfg cfg)"
  have small: "int (length body) \<le> MaxResolveBodyBytes cfg"
    using assms Inr by (auto simp: evaluateWithResolver_def fail_outcome_allow split: if_splits)
  obtain ct w1 where ct: "responseContentType hops w = (ct, w1)" by fastforce
  obtain q s1 where q: "identify_parties env cfg key ctx ?client s = (q, s1)" by fastforce
  show ?thesis
  proof (cases q)
    case Inl
    with assms Inr small ct q have "identify_parties env cfg key ctx ?client s = (Inl oc, s')" by (auto simp: evaluateWithResolver_def)
    from identify_allow [OF this allow] Inr small show ?thesis by (auto simp: passed_def Let_def)
  next
    case (Inr p)
    obtain a s2 where a: "ask_resolver env cfg ctx ct p body s1 = (a, s2)" by fastforce
    have "case a of Inl _ \<Rightarrow> IsFailOpen cfg | Inr result \<Rightarrow> ConsentRequired result \<longrightarrow>
        Claims result \<noteq> [] \<and> (\<exists>claims. distinctClaims (Claims result) = Inr claims
          \<and> int (length claims) \<le> MaxOwnersPerResponse cfg \<and> (RequirePurpose cfg \<longrightarrow> (\<forall>c\<in>set claims. ow_purpose c \<noteq> []))
          \<and> checks_passed env ops cfg key ctx ?client claims (pt_Consumer p) (snd (checkPurposeScoping env cfg key claims s2)))"
    proof (cases a)
      case (Inl e)
      with assms \<open>rr_body w = Inr body\<close> small ct q Inr a show ?thesis by (auto simp: evaluateWithResolver_def fail_outcome_allow)
    next
      case res: (Inr result)
      show ?thesis
      proof (cases "ConsentRequired result")
        case True
        then have "decide_claims env ops cfg key ctx ?client (pt_Consumer p) (Claims result) s2 = (oc, s')"
          using assms(1) \<open>rr_body w = Inr body\<close> small ct q Inr a res by (auto simp: evaluateWithResolver_def split: prod.splits)
        from decide_passed [OF this allow] res show ?thesis by simp
      qed (simp add: res)
    qed
    with \<open>rr_body w = Inr body\<close> small ct q Inr a show ?thesis
      by (auto simp: passed_def Let_def identify_parties_def split: sum.splits prod.splits)
  qed
qed

text \<open>
  C7.  Some failures are denied whatever the fail policy: a response that is released, even by a configuration
  that fails open, has a correlation id and a stored context, a body within its cap unless reading it failed, a
  consumer identified in the claims; the lookup of neither party failed for want of credentials or of a
  registration; and when the resolver required consent, it named an owner for every one of at least one claim,
  a purpose where one is required, and no more owners than the cap, no owner's check ended in a refusal, and the
  first check that failed, if any, did not fail for want of credentials or of a registration.  What fails open is
  only the reading of the body, a lookup of a party that failed otherwise, the resolver and the owner checks.
\<close>

theorem structural_failures_deny:
  assumes "ResponseFilter env hops ops (Some cfg) w s = Some (w', s')" and "rr_status w = None" and "rr_status w' = None"
  shows "\<exists>key ctx s1. correlationKey (rr_var w) = Some key \<and> LoadAndDeleteRequestContext env key s = (Some ctx, s1)
    \<and> passed env hops ops cfg w key ctx s1"
proof -
  let ?client = "NewClient (clientConfigFromCfg cfg)"
  obtain oc t where e: "evaluate env hops ops cfg w s = (oc, w', t)" and d: "oc_decision oc \<noteq> decisionDeny"
    using ResponseFilter_released [OF assms] by blast
  have allow: "oc_decision oc = decisionAllow" using evaluate_decision [OF e] d by (auto simp: two_valued_def)
  obtain key where k: "correlationKey (rr_var w) = Some key"
    using e allow by (cases "correlationKey (rr_var w)") (auto simp: evaluate_def fail_outcome_allow)
  obtain po s1 where l: "LoadAndDeleteRequestContext env key s = (po, s1)" by fastforce
  obtain ctx where ctx: "po = Some ctx" using e allow k l by (cases po) (auto simp: evaluate_def fail_outcome_allow)
  with e k l have "evaluateWithResolver env hops ops cfg w key ctx ?client s1 = (oc, w', t)" by (simp add: evaluate_def)
  from evaluateWithResolver_passed [OF this allow] k l ctx show ?thesis by blast
qed

text \<open>A configuration that fails open, a resolver that answers and a consent-manager that is down: the response goes.\<close>

definition down_reply :: "http_request \<Rightarrow> http_result" where
  "down_reply rq = (case rq_body rq of
     Some (JObj ((k, _) # _)) \<Rightarrow> if k = ''resource'' then Response 200 resolver_body else Do_Error (new_error ''refused'')
   | _ \<Rightarrow> Do_Error (new_error ''refused''))"

definition open_route :: config where
  "open_route = full_config\<lparr>FailOpen := Some True\<rparr>"

lemma down_answers: "answers_resolver down_reply"
  by (simp add: answers_resolver_def down_reply_def)

lemma down_check:
  "\<exists>t'. CheckConsent (traced (scripted_env down_reply)) demo_client (owner_request full_context ''sd:c'' demo_claim) t
     = (Inl (errorf_w ''consent client: HTTP request failed: '' (new_error ''refused'')), t')"
  unfolding full_owner_request demo_owner_request
  by (simp add: demo_defs check_defs Let_def down_reply_def errors_is_def errorf_w_def new_error_def split: option.splits prod.splits)

lemma down_decide:
  "\<exists>oc s1. decide_claims (traced (scripted_env down_reply)) [] open_route key full_context demo_client ''sd:c''
      [\<lparr>cl_OwnerID = ''did:o'', cl_DataResource = [], cl_Purpose = []\<rparr>] s = (oc, s1)
    \<and> oc_decision oc = decisionAllow \<and> oc_failMode oc = ''by_policy''"
proof -
  let ?env = "traced (scripted_env down_reply)"
  have d: "distinctClaims [\<lparr>cl_OwnerID = ''did:o'', cl_DataResource = [], cl_Purpose = []\<rparr>] = Inr [demo_claim]"
    by (simp add: distinctClaims_def demo_claim_def)
  obtain po s1 where p: "checkPurposeScoping ?env open_route key [demo_claim] s = (po, s1)" by fastforce
  have "po = None" using checkPurposeScoping_None [OF p] by (simp add: open_route_def full_config_def zero_config_def)
  obtain started s2 where t: "time_now ?env s1 = (started, s2)" by fastforce
  obtain s3 where c: "CheckConsent ?env demo_client (owner_request full_context ''sd:c'' demo_claim) s2
      = (Inl (errorf_w ''consent client: HTTP request failed: '' (new_error ''refused'')), s3)" using down_check by blast
  obtain now s4 where t': "time_now ?env s3 = (now, s4)" by fastforce
  have rem: "remaining_steps (Suc 0) = [Finish 0 no_bites, Start 0, Finish 0 no_bites]" by (simp add: remaining_steps_def)
  have "oc_decision (fst (checkOwners ?env [] open_route key full_context demo_client [demo_claim] ''sd:c'' s1)) = decisionAllow
    \<and> oc_failMode (fst (checkOwners ?env [] open_route key full_context demo_client [demo_claim] ''sd:c'' s1)) = ''by_policy''"
    by (simp add: checkOwners_def rem start_run_def owner_step_def start_check_def finish_check_def in_flight_def is_running_def
        maxConcurrentConsentChecks_def t t' c result_defs reduceOwnerResults_def errors_is_def errorf_w_def new_error_def
        failOutcome_def failModeForError_def fail_mode_text_def open_route_def IsFailOpen_def)
  with d p \<open>po = None\<close> show ?thesis
    by (cases "checkOwners ?env [] open_route key full_context demo_client [demo_claim] ''sd:c'' s1")
       (simp add: decide_claims_def open_route_def full_config_def)
qed

lemma open_release:
  "\<exists>s'. ResponseFilter (traced (scripted_env down_reply)) http_header_ops [] (Some open_route) full_response full_state = Some (full_response, s')"
proof -
  let ?env = "traced (scripted_env down_reply)" and ?p = "\<lparr>pt_Consumer = ''sd:c'', pt_Provider = ''sd:p''\<rparr>"
  have cl: "NewClient (clientConfigFromCfg open_route) = demo_client"
    using full_client by (simp add: open_route_def clientConfigFromCfg_def)
  obtain s1 where l: "LoadAndDeleteRequestContext ?env ''r1'' full_state = (Some full_context, s1)"
    "participantSDCache s1 = participantSDCache full_state" "world s1 = (second, [])" using full_load by blast
  obtain s2 where i: "identify_parties ?env open_route ''r1'' full_context demo_client s1 = (Inr ?p, s2)"
    using full_parties [OF l(2,3), of open_route] by (auto simp: open_route_def full_config_def)
  obtain s3 where a: "ask_resolver ?env open_route full_context ''text/plain'' ?p ''[1]'' s2
      = (Inr \<lparr>ConsentRequired = True, Claims = [\<lparr>cl_OwnerID = ''did:o'', cl_DataResource = [], cl_Purpose = []\<rparr>]\<rparr>, s3)"
    using full_ask [OF down_answers] by blast
  obtain oc s4 where d: "decide_claims ?env [] open_route ''r1'' full_context demo_client ''sd:c''
      [\<lparr>cl_OwnerID = ''did:o'', cl_DataResource = [], cl_Purpose = []\<rparr>] s3 = (oc, s4)" "oc_decision oc = decisionAllow"
    using down_decide by blast
  have ct: "responseContentType http_header_ops full_response = (''text/plain'', full_response)"
    by (simp add: responseContentType_def full_response_def vars_differ)
  have b: "rr_body full_response = Inr ''[1]''" "MaxResolveBodyBytes open_route = 1000"
    by (simp_all add: full_response_def full_config_def open_route_def)
  from l i a d ct b have "evaluate ?env http_header_ops [] open_route full_response full_state = (oc, full_response, s4)"
    by (simp add: evaluate_def full_correlation cl evaluateWithResolver_def)
  with d(2) show ?thesis by (fastforce simp: ResponseFilter_def Let_def)
qed

theorem structural_failures_deny_witness:
  "\<exists>ctx s1. LoadAndDeleteRequestContext (traced (scripted_env down_reply)) ''r1'' full_state = (Some ctx, s1)
     \<and> IsFailOpen open_route \<and> passed (traced (scripted_env down_reply)) http_header_ops [] open_route full_response ''r1'' ctx s1"
proof -
  obtain s' where "ResponseFilter (traced (scripted_env down_reply)) http_header_ops [] (Some open_route) full_response full_state
       = Some (full_response, s')" using open_release by blast
  from structural_failures_deny [OF this full_status full_status] show ?thesis
    by (auto simp: full_correlation open_route_def IsFailOpen_def)
qed

section \<open>An expired phase\<close>

text \<open>
  C33.  A phase that runs out of time can release the response, whatever the configuration: the resolver was
  asked and answered within the phase, required consent and named owners within every limit; then there is a
  schedule, the one in which the deadline passes before the first check starts and every goroutine sees its
  context done before it gets a slot, under which no call follows the resolver's reply, so that no owner's
  consent is checked, and the response goes back unwritten, under a configuration that fails closed too.
\<close>

theorem expired_phase_releases:
  assumes "correlationKey (rr_var w) = Some key" and "LoadAndDeleteRequestContext (traced env) key s = (Some ctx, s1)"
    and "rr_body w = Inr body" and "int (length body) \<le> MaxResolveBodyBytes cfg"
    and "identify_parties (traced env) cfg key ctx (NewClient (clientConfigFromCfg cfg)) s1 = (Inr p, s2)"
    and "ask_resolver (traced env) cfg ctx (fst (responseContentType hops w)) p body s2 = (Inr result, s3)"
    and "ConsentRequired result" and "Claims result \<noteq> []" and "distinctClaims (Claims result) = Inr claims"
    and "int (length claims) \<le> MaxOwnersPerResponse cfg" and "RequirePurpose cfg \<longrightarrow> (\<forall>c\<in>set claims. ow_purpose c \<noteq> [])"
  shows "\<exists>s'. ResponseFilter (traced env) hops (Expire # map Give_Up [0..<length claims]) (Some cfg) w s
      = Some (snd (responseContentType hops w), s') \<and> calls s' = calls s3"
proof -
  let ?ops = "Expire # map Give_Up [0..<length claims] :: ('b \<times> exchange list) owner_op list"
  let ?client = "NewClient (clientConfigFromCfg cfg)"
  obtain ct w1 where ct: "responseContentType hops w = (ct, w1)" by fastforce
  obtain po s4 where pc: "checkPurposeScoping (traced env) cfg key claims s3 = (po, s4)" by fastforce
  have "po = None" using checkPurposeScoping_None [OF pc] assms(11) by blast
  let ?oc = "zero_outcome\<lparr>oc_decision := decisionAllow, oc_requestID := key, oc_resource := rc_Path ctx,
      oc_method := rc_Method ctx, oc_checked := []\<rparr>"
  have "decide_claims (traced env) ?ops cfg key ctx ?client (pt_Consumer p) (Claims result) s3 = (?oc, s4)"
    using assms(8-10) pc \<open>po = None\<close> by (simp add: decide_claims_def expired_phase_allows)
  then have "evaluate (traced env) hops ?ops cfg w s = (?oc, w1, s4)"
    using assms(1-7) ct by (simp add: evaluate_def evaluateWithResolver_def)
  then show ?thesis using ct by (simp add: ResponseFilter_def Let_def calls_recordAudit calls_checkPurposeScoping [OF pc])
qed

text \<open>The run of \<open>full_release\<close>, with the phase expiring before its only check.\<close>

theorem expired_phase_releases_witness:
  "\<exists>s' (s3 :: (int \<times> exchange list) audit_proc). ResponseFilter (traced (scripted_env full_reply)) http_header_ops [Expire, Give_Up 0] (Some full_config) full_response full_state
      = Some (full_response, s') \<and> \<not> IsFailOpen full_config \<and> calls s' = calls s3
      \<and> (\<exists>s2. ask_resolver (traced (scripted_env full_reply)) full_config full_context ''text/plain''
             \<lparr>pt_Consumer = ''sd:c'', pt_Provider = ''sd:p''\<rparr> ''[1]'' s2 = (Inr \<lparr>ConsentRequired = True,
                Claims = [\<lparr>cl_OwnerID = ''did:o'', cl_DataResource = [], cl_Purpose = []\<rparr>]\<rparr>, s3))"
proof -
  let ?env = "traced (scripted_env full_reply)" and ?p = "\<lparr>pt_Consumer = ''sd:c'', pt_Provider = ''sd:p''\<rparr>"
  let ?found = "[\<lparr>cl_OwnerID = ''did:o'', cl_DataResource = [], cl_Purpose = []\<rparr>]"
  obtain s1 where l: "LoadAndDeleteRequestContext ?env ''r1'' full_state = (Some full_context, s1)"
    "participantSDCache s1 = participantSDCache full_state" "world s1 = (second, [])" using full_load by blast
  obtain s2 where i: "identify_parties ?env full_config ''r1'' full_context demo_client s1 = (Inr ?p, s2)"
    using full_parties [OF l(2,3), of full_config] by (auto simp: full_config_def)
  have ct: "responseContentType http_header_ops full_response = (''text/plain'', full_response)"
    by (simp add: responseContentType_def full_response_def vars_differ)
  obtain s3 where a: "ask_resolver ?env full_config full_context ''text/plain'' ?p ''[1]'' s2
      = (Inr \<lparr>ConsentRequired = True, Claims = ?found\<rparr>, s3)" using full_ask [OF answers_resolver_full] by blast
  have b: "rr_body full_response = Inr ''[1]''" by (simp add: full_response_def)
  have cl: "distinctClaims ?found = Inr [demo_claim]" by (simp add: distinctClaims_def demo_claim_def)
  have caps: "int (length ''[1]'') \<le> MaxResolveBodyBytes full_config" "int (length [demo_claim]) \<le> MaxOwnersPerResponse full_config"
    "RequirePurpose full_config \<longrightarrow> (\<forall>c\<in>set [demo_claim]. ow_purpose c \<noteq> [])"
    by (simp_all add: full_config_def zero_config_def)
  have a': "ask_resolver ?env full_config full_context (fst (responseContentType http_header_ops full_response)) ?p ''[1]'' s2
      = (Inr \<lparr>ConsentRequired = True, Claims = ?found\<rparr>, s3)" using a by (simp add: ct)
  have r: "ConsentRequired \<lparr>ConsentRequired = True, Claims = ?found\<rparr>" "Claims \<lparr>ConsentRequired = True, Claims = ?found\<rparr> \<noteq> []"
    "distinctClaims (Claims \<lparr>ConsentRequired = True, Claims = ?found\<rparr>) = Inr [demo_claim]" using cl by simp_all
  from expired_phase_releases [OF full_correlation l(1) b caps(1), unfolded full_client, OF i a' r caps(2,3)]
  obtain s' where "ResponseFilter ?env http_header_ops [Expire, Give_Up 0] (Some full_config) full_response full_state
      = Some (full_response, s')" "calls s' = calls s3" by (auto simp: ct)
  with a full_closed show ?thesis by blast
qed

section \<open>What the audit log says\<close>

lemma fail_outcome_mode: "oc_failMode (failOutcome cfg mode reason key req) \<noteq> []"
  by (cases mode) (simp_all add: failOutcome_def Let_def fail_mode_text_def split: option.split)

lemma checkOwners_records:
  assumes "checkOwners env ops cfg key ctx client claims sd s = (oc, s')" and named: "\<forall>c\<in>set claims. ow_owner c \<noteq> []"
  shows "(\<forall>k\<in>set (oc_checked oc). ck_decision k = decisionAllow) \<longleftrightarrow> oc_decision oc = decisionAllow \<or> oc_failMode oc \<noteq> []"
proof -
  obtain r s1 where "check_reach env key ctx client sd claims s (ops @ remaining_steps (length claims)) (r, s1)"
    and "goroutines r = replicate (length claims) Finished" and len: "length (results r) = length claims"
    and ok: "\<And>i. i < length claims \<Longrightarrow> result_ok key ctx sd (claims ! i) Finished (results r ! i)"
    and red: "reduceOwnerResults env cfg key ctx (phase_done r) (results r) s1 = (oc, s')"
    using checkOwners_run [OF assms(1)] by blast
  show ?thesis
  proof (cases "first_denial (results r)")
    case None
    have "ck_decision (or_record x) = decisionAllow" if x: "x \<in> set (results r)" "ck_subject (or_record x) \<noteq> []" for x
    proof -
      obtain i where i: "i < length claims" "x = results r ! i" using x(1) len by (auto simp: in_set_conv_nth)
      from result_ok_facts(2) [OF ok [OF i(1)]] None x show ?thesis unfolding i(2) [symmetric] by (auto simp: first_denial_None)
    qed
    then have "\<forall>k\<in>set (oc_checked oc). ck_decision k = decisionAllow" by (auto simp: reduce_checked [OF red] consulted_def)
    moreover have "oc_decision oc = decisionAllow \<or> oc_failMode oc \<noteq> []"
      using red None fail_outcome_mode
      by (cases "first_failure (phase_done r) (results r)") (auto simp: reduceOwnerResults_def)
    ultimately show ?thesis by blast
  next
    case (Some d)
    from first_denial_Some [OF Some] obtain x where y: "x \<in> set (results r)" "or_problem x" "or_err x = None" "d = or_outcome x"
      by blast
    moreover from y(1) len obtain i where "i < length claims" "x = results r ! i" by (auto simp: in_set_conv_nth)
    ultimately have x: "x \<in> set (results r)" "or_problem x" "or_err x = None" "d = or_outcome x" "i < length claims" "x = results r ! i"
      by blast+
    have rec: "or_attempted x \<and> ck_subject (or_record x) \<noteq> [] \<and> ck_decision (or_record x) = decisionDeny"
      using ok [OF x(5)] named x(2,3,5) unfolding x(6) [symmetric]
      by (auto elim!: result_ok_consider simp: result_defs split: if_splits)
    have "oc_decision oc = decisionDeny" "oc_failMode oc = []"
      using red Some result_ok_facts(1) [OF ok [OF x(5)]] ok_denial_mode [OF ok len Some] x by (auto simp: reduceOwnerResults_def)
    moreover have "or_record x \<in> set (oc_checked oc)" using rec x(1) by (auto simp: reduce_checked [OF red] consulted_def)
    ultimately show ?thesis using rec by (metis allow_not_deny(1))
  qed
qed

definition honest :: "response_outcome \<Rightarrow> bool" where
  "honest oc \<longleftrightarrow> oc_checked oc = [] \<or>
     ((\<forall>k\<in>set (oc_checked oc). ck_decision k = decisionAllow) \<longleftrightarrow> oc_decision oc = decisionAllow \<or> oc_failMode oc \<noteq> [])"

lemma fail_honest [simp]: "honest (failOutcome cfg mode reason key req)"
  by (simp add: honest_def failOutcome_def Let_def zero_outcome_def split: option.split)

lemma zero_honest [simp]: "oc_checked oc = [] \<Longrightarrow> honest oc"
  by (simp add: honest_def)

lemma decide_honest:
  assumes "decide_claims env ops cfg key ctx client sd found s = (oc, s')"
  shows "honest oc"
proof -
  have c: "honest oc" if d: "distinctClaims found = Inr claims" and c: "checkOwners env ops cfg key ctx client claims sd t = (oc, s')" for claims t
  proof -
    have "\<forall>c\<in>set (first_by claim_pair found). cl_OwnerID c \<noteq> []"
      using distinctClaims_Inr [OF d] first_by_subset [of claim_pair found] by blast
    then have "\<forall>c\<in>set claims. ow_owner c \<noteq> []" using distinctClaims_Inr [OF d] by (auto simp: to_owner_claim_def)
    from checkOwners_records [OF c this] show ?thesis by (simp add: honest_def)
  qed
  show ?thesis using assms
    by (auto simp: decide_claims_def split: if_splits sum.splits option.splits prod.splits dest: checkPurposeScoping_Some c)
qed

lemma identify_honest: "identify_parties env cfg key ctx client t = (Inl oc, t') \<Longrightarrow> honest oc"
  by (auto simp: identify_parties_def split: sum.splits prod.splits)

lemma evaluateWithResolver_honest:
  "evaluateWithResolver env hops ops cfg w key ctx client t = (oc, w', t') \<Longrightarrow> honest oc"
  by (auto simp: evaluateWithResolver_def zero_outcome_def split: sum.splits prod.splits if_splits dest: decide_honest identify_honest)

lemma evaluate_honest: "evaluate env hops ops cfg w s = (oc, w', s') \<Longrightarrow> honest oc"
  by (auto simp: evaluate_def split: option.splits prod.splits dest: evaluateWithResolver_honest)

text \<open>Every outcome carries the correlation id of its response.\<close>

lemma fail_requestID [simp]: "oc_requestID (failOutcome cfg m reason key req) = key"
  by (simp add: failOutcome_def Let_def split: option.split)

lemma checkOwners_requestID:
  assumes "checkOwners env ops cfg key ctx client claims sd s = (oc, s')"
  shows "oc_requestID oc = key"
proof -
  obtain r :: check_run and s1 where len: "length (results r) = length claims"
    and ok: "\<And>i. i < length claims \<Longrightarrow> result_ok key ctx sd (claims ! i) Finished (results r ! i)"
    and red: "reduceOwnerResults env cfg key ctx (phase_done r) (results r) s1 = (oc, s')"
    using checkOwners_run [OF assms] by blast
  show ?thesis
  proof (cases "first_denial (results r)")
    case None
    with red show ?thesis by (auto simp: reduceOwnerResults_def split: option.splits)
  next
    case (Some d)
    from first_denial_Some [OF Some] len obtain i where i: "i < length claims" "or_problem (results r ! i)"
      "or_err (results r ! i) = None" "d = or_outcome (results r ! i)" by (auto simp: in_set_conv_nth)
    from ok [OF i(1)] i(2-4) have "oc_requestID d = key"
      by (auto elim!: result_ok_consider simp: result_defs split: if_splits)
    with red Some show ?thesis by (auto simp: reduceOwnerResults_def)
  qed
qed

lemma decide_requestID: "decide_claims env ops cfg key ctx client sd found s = (oc, s') \<Longrightarrow> oc_requestID oc = key"
  by (auto simp: decide_claims_def split: if_splits sum.splits option.splits prod.splits
      dest: checkOwners_requestID dest!: checkPurposeScoping_Some)

lemma evaluateWithResolver_requestID:
  "evaluateWithResolver env hops ops cfg w key ctx client s = (oc, w', s') \<Longrightarrow> oc_requestID oc = key"
  by (auto simp: evaluateWithResolver_def identify_parties_def split: sum.splits prod.splits if_splits dest: decide_requestID)

lemma evaluate_requestID:
  "evaluate env hops ops cfg w s = (oc, w', s') \<Longrightarrow> oc_requestID oc = (case correlationKey (rr_var w) of None \<Rightarrow> [] | Some k \<Rightarrow> k)"
  by (auto simp: evaluate_def split: option.splits prod.splits dest: evaluateWithResolver_requestID)

text \<open>
  C32.  When the audit log tells the verdict: with auditing enabled, an evaluated response hands at least one event
  to the emitter of its configuration, stamped with the clock; every event carries the response's own
  correlation id (the empty one when the response has none), and the events all say allow exactly when the
  response was allowed or when the checks failed after some owner had answered; only the latter hides a denial.
  With auditing disabled nothing is emitted.
\<close>

theorem audit_tells_verdict:
  assumes "evaluate env hops ops cfg w s = (oc, w', s')"
  shows "(AuditEnabled cfg \<longrightarrow> (\<exists>i t1 now t2. Get (audit_config_of cfg) t = (i, t1) \<and> time_now env t1 = (now, t2)
        \<and> recordAudit env cfg oc t = foldl (\<lambda>u ev. Emit i ev u) t2 (audit_events now oc)
        \<and> (\<forall>ev\<in>set (audit_events now oc). ev_Time ev = now)))
    \<and> (\<not> AuditEnabled cfg \<longrightarrow> recordAudit env cfg oc t = t)
    \<and> (\<forall>now. audit_events now oc \<noteq> []
        \<and> (\<forall>ev\<in>set (audit_events now oc). ev_RequestID ev = (case correlationKey (rr_var w) of None \<Rightarrow> [] | Some k \<Rightarrow> k))
        \<and> ((\<forall>ev\<in>set (audit_events now oc). ev_Decision ev = decisionAllow)
            \<longleftrightarrow> oc_decision oc = decisionAllow \<or> (oc_failMode oc \<noteq> [] \<and> oc_checked oc \<noteq> [])))"
proof (intro conjI impI allI)
  assume "AuditEnabled cfg"
  obtain i t1 where g: "Get (audit_config_of cfg) t = (i, t1)" by fastforce
  obtain now t2 where n: "time_now env t1 = (now, t2)" by fastforce
  have "recordAudit env cfg oc t = foldl (\<lambda>u ev. Emit i ev u) t2 (audit_events now oc)"
    using \<open>AuditEnabled cfg\<close> g n by (simp add: recordAudit_def)
  moreover have "\<forall>ev\<in>set (audit_events now oc). ev_Time ev = now" by (auto simp: audit_events_def)
  ultimately show "\<exists>i t1 now t2. Get (audit_config_of cfg) t = (i, t1) \<and> time_now env t1 = (now, t2)
      \<and> recordAudit env cfg oc t = foldl (\<lambda>u ev. Emit i ev u) t2 (audit_events now oc)
      \<and> (\<forall>ev\<in>set (audit_events now oc). ev_Time ev = now)" using g n by blast
next
  fix now
  show "audit_events now oc \<noteq> []" by (simp add: audit_events_def)
  show "\<forall>ev\<in>set (audit_events now oc). ev_RequestID ev = (case correlationKey (rr_var w) of None \<Rightarrow> [] | Some k \<Rightarrow> k)"
    using evaluate_requestID [OF assms] by (auto simp: audit_events_def)
  show "(\<forall>ev\<in>set (audit_events now oc). ev_Decision ev = decisionAllow)
      \<longleftrightarrow> oc_decision oc = decisionAllow \<or> (oc_failMode oc \<noteq> [] \<and> oc_checked oc \<noteq> [])"
    using evaluate_honest [OF assms] by (auto simp: audit_events_def honest_def)
qed (simp add: recordAudit_def)

theorem audit_tells_verdict_witness:
  "\<exists>oc s1. evaluate (traced (scripted_env full_reply)) http_header_ops [] full_config full_response full_state = (oc, full_response, s1)
     \<and> (\<forall>ev\<in>set (audit_events 0 oc). ev_RequestID ev = ''r1'' \<and> ev_Decision ev = decisionAllow)"
proof -
  obtain oc s1 where e: "evaluate (traced (scripted_env full_reply)) http_header_ops [] full_config full_response full_state
      = (oc, full_response, s1)" "oc_decision oc = decisionAllow" using full_evaluate by blast
  from audit_tells_verdict [OF e(1), of full_state] e show ?thesis by (auto simp: full_correlation)
qed

end
