(* ===== verification/Plugin_Main.thy ===== *)
theory Plugin_Main
  imports Consent_Filter
begin

text \<open>
  The process, \<open>main.go\<close>: what the packages register when they are initialised, the metrics endpoint, and the
  runner's lifetime with the flush of the audit queue behind it.  The runner is a parameter that transforms
  the state (it calls the two phases of the filter); the HTTP server is one that says how serving ended, if
  it did.
\<close>

definition EnvMetricsAddress :: string where "EnvMetricsAddress = ''CONSENT_METRICS_ADDRESS''"
definition metricsPath :: string where "metricsPath = ''/metrics''"
definition metricsServerTimeout :: duration where "metricsServerTimeout = 10 * second"

section \<open>Initialisation\<close>

text \<open>A plugin that cannot be registered is a panic, \<open>None\<close>.\<close>

definition init_plugin :: "(string \<Rightarrow> gerror option) \<Rightarrow> 's \<Rightarrow> 's option" where
  "init_plugin register s = (case register pluginName of Some e \<Rightarrow> None | None \<Rightarrow> Some s)"

definition init_process :: "(string \<Rightarrow> gerror option) \<Rightarrow> ('w, 'z) audit_proc_scheme \<Rightarrow> ('w, 'z) audit_proc_scheme option" where
  "init_process register s =
     (case init_plugin register (init_audit_metrics s) of
        None \<Rightarrow> None
      | Some s1 \<Rightarrow> Some (init_context_metrics s1))"

section \<open>The metrics endpoint\<close>

record metrics_reply =
  mr_header :: "(string \<times> string) list"
  mr_body :: string

text \<open>What a scrape gets; a failing write changes nothing.\<close>

definition metrics_Handler :: "'w env \<Rightarrow> (rat \<Rightarrow> string) \<Rightarrow> ('w, 'z) audit_proc_scheme \<Rightarrow> metrics_reply" where
  "metrics_Handler env fmt s =
     \<lparr>mr_header = [(''Content-Type'', ''text/plain; version=0.0.4; charset=utf-8'')],
      mr_body = render env fmt (Dropped s) s\<rparr>"

record http_server =
  sv_Addr :: string
  sv_routes :: "string list"
  sv_ReadHeaderTimeout :: duration
  sv_ReadTimeout :: duration
  sv_WriteTimeout :: duration

definition metrics_server :: "string \<Rightarrow> http_server" where
  "metrics_server address =
     \<lparr>sv_Addr = address, sv_routes = [metricsPath], sv_ReadHeaderTimeout = metricsServerTimeout,
      sv_ReadTimeout = metricsServerTimeout, sv_WriteTimeout = metricsServerTimeout\<rparr>"

datatype serving = Still_Serving | Ended_Without_Error | Server_Closed | Listen_Failed gerror

definition serveMetrics :: "'w env \<Rightarrow> (http_server \<Rightarrow> serving) \<Rightarrow> ('w, 'z) log_proc_scheme \<Rightarrow> ('w, 'z) log_proc_scheme" where
  "serveMetrics env listen s =
     (let address = getenv env EnvMetricsAddress
      in if address = [] then s
         else
           let s1 = logf Info (''serving metrics on '' @ address @ metricsPath) s
           in (case listen (metrics_server address) of
                 Listen_Failed e \<Rightarrow> logf Error (''metrics endpoint stopped: '' @ Sanitize (err_text e)) s1
               | _ \<Rightarrow> s1))"

section \<open>The process\<close>

definition runAndFlush :: "('s \<Rightarrow> 's) \<Rightarrow> ('s \<Rightarrow> 's) \<Rightarrow> 's \<Rightarrow> 's" where
  "runAndFlush run after s = after (run s)"

text \<open>
  The endpoint's goroutine only writes the log; here it does so before the runner starts.
\<close>

definition plugin_main :: "'w env \<Rightarrow> (http_server \<Rightarrow> serving) \<Rightarrow> (('w, 'z) audit_proc_scheme \<Rightarrow> ('w, 'z) audit_proc_scheme)
    \<Rightarrow> (nat \<Rightarrow> wake list) \<Rightarrow> ('w, 'z) audit_proc_scheme \<Rightarrow> ('w, 'z) audit_proc_scheme" where
  "plugin_main env listen runner ws s = runAndFlush runner (ShutdownAll env ws) (serveMetrics env listen s)"

end
