(* ===== verification/Main_Props.thy ===== *)
theory Main_Props
  imports Plugin_Main Audit_Props
begin

text \<open>What the process guarantees at its end: the audit queues are flushed after the runner, all of them.\<close>

lemma Shutdown_keeps_other: "i \<noteq> j \<Longrightarrow> i < length (emitter_heap s) \<Longrightarrow> emitter_heap (Shutdown env ws i s) ! j = emitter_heap s ! j"
  by (simp add: Shutdown_heap)

lemma Shutdown_length: "i < length (emitter_heap s) \<Longrightarrow> length (emitter_heap (Shutdown env ws i s)) = length (emitter_heap s)"
  by (simp add: Shutdown_heap)

text \<open>The emitter's pending events went out in these calls, in nonempty batches, and it is empty and stopped.\<close>

definition exported_in :: "exchange list \<Rightarrow> emitter \<Rightarrow> bool" where
  "exported_in es e \<longleftrightarrow> (\<exists>batches. [] \<notin> set batches \<and> concat batches = em_pending e
     \<and> set (map (export_request e) batches) \<subseteq> fst ` set es)"

definition live_emitter :: "'w env \<Rightarrow> emitter \<Rightarrow> bool" where
  "live_emitter env e \<longleftrightarrow> \<not> em_stopped e \<and> url_error env (em_endpoint e) = None"

lemma exported_in_mono: "exported_in es e \<Longrightarrow> set es \<subseteq> set fs \<Longrightarrow> exported_in fs e"
  unfolding exported_in_def by (meson image_mono order_trans)

lemma shutdown_list:
  "distinct (map snd l) \<Longrightarrow> \<forall>i\<in>set (map snd l). i < length (emitter_heap s) \<and> live_emitter env (emitter_heap s ! i) \<Longrightarrow>
   \<exists>es. calls (foldl (\<lambda>s (k, i). Shutdown (traced env) (ws i) i s) s l) = calls s @ es
     \<and> (\<forall>i\<in>set (map snd l). exported_in es (emitter_heap s ! i)
           \<and> flushed (emitter_heap (foldl (\<lambda>s (k, i). Shutdown (traced env) (ws i) i s) s l) ! i))
     \<and> (\<forall>j. j \<notin> set (map snd l) \<longrightarrow> emitter_heap (foldl (\<lambda>s (k, i). Shutdown (traced env) (ws i) i s) s l) ! j = emitter_heap s ! j)"
proof (induction l arbitrary: s)
  case Nil
  show ?case by simp
next
  case (Cons x l)
  obtain k i where x: "x = (k, i)" by fastforce
  let ?t = "Shutdown (traced env) (ws i) i s"
  have i: "i < length (emitter_heap s)" "live_emitter env (emitter_heap s ! i)" "i \<notin> set (map snd l)" using Cons.prems x by auto
  have live: "\<not> em_stopped (emitter_heap s ! i)" "url_error env (em_endpoint (emitter_heap s ! i)) = None"
    using i(2) by (simp_all add: live_emitter_def)
  obtain es1 batches where c: "calls ?t = calls s @ es1" "[] \<notin> set batches" "concat batches = em_pending (emitter_heap s ! i)"
    "map fst es1 = map (export_request (emitter_heap s ! i)) batches"
    using Shutdown_calls [OF i(1) live, of "ws i"] by blast
  have ex: "exported_in es1 (emitter_heap s ! i)"
    unfolding exported_in_def using c(2-4) by (metis image_set order_refl)
  have same: "emitter_heap ?t ! j = emitter_heap s ! j" if "j \<noteq> i" for j using that i(1) by (simp add: Shutdown_keeps_other)
  have "\<forall>j\<in>set (map snd l). j < length (emitter_heap ?t) \<and> live_emitter env (emitter_heap ?t ! j)"
  proof
    fix j assume j: "j \<in> set (map snd l)"
    with i(3) have "emitter_heap ?t ! j = emitter_heap s ! j" by (intro same) auto
    moreover have "j < length (emitter_heap s) \<and> live_emitter env (emitter_heap s ! j)" using j Cons.prems(2) by auto
    ultimately show "j < length (emitter_heap ?t) \<and> live_emitter env (emitter_heap ?t ! j)"
      using i(1) by (simp add: Shutdown_length)
  qed
  from Cons.IH [OF _ this] Cons.prems(1) x obtain es2 where
    r: "calls (foldl (\<lambda>s (k, i). Shutdown (traced env) (ws i) i s) ?t l) = calls ?t @ es2"
      "\<forall>j\<in>set (map snd l). exported_in es2 (emitter_heap ?t ! j)
           \<and> flushed (emitter_heap (foldl (\<lambda>s (k, i). Shutdown (traced env) (ws i) i s) ?t l) ! j)"
      "\<forall>j. j \<notin> set (map snd l) \<longrightarrow> emitter_heap (foldl (\<lambda>s (k, i). Shutdown (traced env) (ws i) i s) ?t l) ! j = emitter_heap ?t ! j"
    by auto
  have fl: "flushed (emitter_heap ?t ! i)" using Shutdown_flushed i(1) live(1) by blast
  show ?case
  proof (intro exI [of _ "es1 @ es2"] conjI ballI allI impI)
    show "calls (foldl (\<lambda>s (k, i). Shutdown (traced env) (ws i) i s) s (x # l)) = calls s @ es1 @ es2"
      using r(1) c(1) by (simp add: x)
  next
    fix j assume "j \<in> set (map snd (x # l))"
    then consider "j = i" | "j \<in> set (map snd l)" "j \<noteq> i" using x i(3) by auto
    then show "exported_in (es1 @ es2) (emitter_heap s ! j)"
    proof cases
      case 1
      with ex show ?thesis by (auto intro: exported_in_mono)
    next
      case 2
      with r(2) have "exported_in es2 (emitter_heap ?t ! j)" by blast
      with same [OF 2(2)] show ?thesis by (auto intro: exported_in_mono)
    qed
  next
    fix j assume "j \<in> set (map snd (x # l))"
    then consider "j = i" | "j \<in> set (map snd l)" using x by auto
    then show "flushed (emitter_heap (foldl (\<lambda>s (k, i). Shutdown (traced env) (ws i) i s) s (x # l)) ! j)"
      using fl r(2,3) i(3) x by cases auto
  next
    fix j assume "j \<notin> set (map snd (x # l))"
    then show "emitter_heap (foldl (\<lambda>s (k, i). Shutdown (traced env) (ws i) i s) s (x # l)) ! j = emitter_heap s ! j"
      using r(3) same x by auto
  qed
qed

text \<open>
  C29.  The process does not exit with audit records unsent: when the runner has returned, every event an
  emitter still holds is handed to the exporter, in nonempty batches addressed to that emitter's endpoint, and
  every emitter is empty and stopped before \<open>main\<close> returns; nothing is sent before the runner returns.
\<close>

theorem main_flushes_audit:
  assumes "runner (serveMetrics (traced env) listen s) = s1" and "audit_inv s1"
    and "\<forall>i\<in>snd ` set (emitters s1). live_emitter env (emitter_heap s1 ! i)"
  shows "\<exists>es. calls (plugin_main (traced env) listen runner ws s) = calls s1 @ es
    \<and> (\<forall>i\<in>snd ` set (emitters s1). exported_in es (emitter_heap s1 ! i)
          \<and> flushed (emitter_heap (plugin_main (traced env) listen runner ws s) ! i))"
proof -
  let ?s = "s1\<lparr>emitters := []\<rparr>"
  have "distinct (emitters s1)" using assms(2) by (auto simp: audit_inv_def wf_map_def distinct_map)
  with assms(2) have d: "distinct (map snd (emitters s1))" by (simp add: audit_inv_def distinct_map)
  have "\<forall>i\<in>set (map snd (emitters s1)). i < length (emitter_heap ?s) \<and> live_emitter env (emitter_heap ?s ! i)"
    using assms(2,3) by (auto simp: audit_inv_def)
  from shutdown_list [OF d this, of ws] show ?thesis
    by (auto simp: plugin_main_def runAndFlush_def ShutdownAll_def assms(1) calls_def)
qed

theorem main_flushes_audit_witness:
  "\<exists>es. calls (plugin_main (traced (scripted_env demo_reply)) (\<lambda>_. Still_Serving) id (\<lambda>_. []) demo_audit_proc) = es
     \<and> exported_in es (offer demo_event (newEmitter demo_audit)) \<and> es \<noteq> []"
proof -
  let ?env = "scripted_env demo_reply"
  have run: "id (serveMetrics (traced ?env) (\<lambda>_. Still_Serving) demo_audit_proc) = demo_audit_proc"
    by (simp add: serveMetrics_def traced_def scripted_env_def)
  have live: "\<forall>i\<in>snd ` set (emitters demo_audit_proc). live_emitter ?env (emitter_heap demo_audit_proc ! i)"
    by (simp add: demo_audit_proc_def live_emitter_def demo_offer scripted_env_def)
  from main_flushes_audit [where runner = id, OF run audit_inv_demo live, of "\<lambda>_. []"] obtain es where
    e: "calls (plugin_main (traced ?env) (\<lambda>_. Still_Serving) id (\<lambda>_. []) demo_audit_proc) = es"
      "exported_in es (offer demo_event (newEmitter demo_audit))"
    by (auto simp: demo_audit_proc_def calls_def)
  from e(2) have "es \<noteq> []" by (auto simp: exported_in_def demo_offer)
  with e show ?thesis by blast
qed

end
