(* ===== verification/Footprint.thy ===== *)
theory Footprint
  imports Consent_Filter
begin

text \<open>
  What the operations leave alone.  An operation of the consent client or of the logger does not touch the
  state that other packages add (\<open>client_frame\<close>: the extension of the record is the same), keeps the limiter's
  map bounded and removes nothing from a cache; an operation of the response phase (\<open>phase_frame\<close>) does not touch
  the context store, the decision counters and the audit emitters, and counts calls only under the two
  dependencies.  There is one rule per operation: its proof unfolds the operation, takes the rules of what it
  calls as destruction rules and chains the steps by transitivity.
\<close>

section \<open>The client\<close>

abbreviation keys :: "('k \<times> 'v) list \<Rightarrow> 'k set" where
  "keys m \<equiv> fst ` set m"

definition supp_bounded :: "('w, 'z) log_proc_scheme \<Rightarrow> bool" where
  "supp_bounded s \<longleftrightarrow> wf_map (supp s) \<and> length (supp s) \<le> suppression_key_cap"

definition client_frame :: "('w, 'z) client_proc_scheme \<Rightarrow> ('w, 'z) client_proc_scheme \<Rightarrow> bool" where
  "client_frame s s' \<longleftrightarrow> client_proc.more s' = client_proc.more s \<and> (supp_bounded s \<longrightarrow> supp_bounded s')
     \<and> keys (credCache s) \<subseteq> keys (credCache s') \<and> keys (participantSDCache s) \<subseteq> keys (participantSDCache s')
     \<and> keys (identifierCache s) \<subseteq> keys (identifierCache s')"

lemma client_frame_refl [simp, intro]: "client_frame s s"
  by (simp add: client_frame_def)

lemma client_frame_trans [trans]: "client_frame s t \<Longrightarrow> client_frame t u \<Longrightarrow> client_frame s u"
  unfolding client_frame_def by (elim conjE, intro conjI) (simp, simp, (erule (1) order_trans)+)

lemma keys_gset_subset: "keys m \<subseteq> keys (gset k v m)"
proof -
  have "set (map fst m) \<subseteq> set (map fst (gset k v m))" by (auto simp: gset_def update_keys)
  then show ?thesis by simp
qed

lemma frame_caches [intro]:
  assumes "client_frame s t"
  shows "client_frame s (t\<lparr>credCache := gset k v (credCache t)\<rparr>)"
    and "client_frame s (t\<lparr>participantSDCache := gset k' v' (participantSDCache t)\<rparr>)"
    and "client_frame s (t\<lparr>identifierCache := gset k'' v'' (identifierCache t)\<rparr>)"
proof -
  have t: "client_frame t (t\<lparr>credCache := gset k v (credCache t)\<rparr>)"
    "client_frame t (t\<lparr>participantSDCache := gset k' v' (participantSDCache t)\<rparr>)"
    "client_frame t (t\<lparr>identifierCache := gset k'' v'' (identifierCache t)\<rparr>)"
    by (simp_all add: client_frame_def supp_bounded_def keys_gset_subset)
  show "client_frame s (t\<lparr>credCache := gset k v (credCache t)\<rparr>)"
    and "client_frame s (t\<lparr>participantSDCache := gset k' v' (participantSDCache t)\<rparr>)"
    and "client_frame s (t\<lparr>identifierCache := gset k'' v'' (identifierCache t)\<rparr>)"
    by (rule client_frame_trans [OF assms] t)+
qed

lemma frame_set_entry [intro]: "client_frame s t \<Longrightarrow> client_frame s (set_entry k e t)"
  by (auto simp: set_entry_def)

lemma frame_get_or_create [intro]: "client_frame s t \<Longrightarrow> client_frame s (get_or_create k t)"
  by (auto simp: get_or_create_def)

lemma frame_world [intro]: "client_frame s t \<Longrightarrow> client_frame s (t\<lparr>world := w\<rparr>)"
  by (simp add: client_frame_def supp_bounded_def)

lemma frame_log_lines: "client_frame s t \<Longrightarrow> client_frame s (logf l m t)"
  by (simp add: client_frame_def supp_bounded_def logf_def)

lemma frame_time_now: "time_now env s = (t, s') \<Longrightarrow> client_frame s s'"
  by (auto dest!: time_now_split)

lemma frame_http_do: "http_do env rq s = (r, s') \<Longrightarrow> client_frame s s'"
  by (auto dest!: http_do_split)

lemma frame_log_every [intro]:
  fixes s t :: "('w, 'z) client_proc_scheme"
  assumes "client_frame s t"
  shows "client_frame s (log_every env l k m t)"
proof -
  have a: "client_frame t t'" if "allow env k t = (x, t')" for x t'
  proof (cases "untracked k (supp t)")
    case False
    obtain now t1 where n: "time_now env t = (now, t1)" by fastforce
    then have t1: "client_frame t t1" "supp t1 = supp t" using frame_time_now [OF n] by (auto dest!: time_now_split)
    with that False n have "t' = t1\<lparr>supp := snd (allow_at k now (supp t))\<rparr>" by (auto simp: allow_def split: prod.splits)
    with t1 allow_at_bounded [of "supp t" k now] show ?thesis by (auto simp: client_frame_def supp_bounded_def)
  qed (use that in \<open>simp add: allow_def\<close>)
  obtain ok n t' where x: "allow env k t = ((ok, n), t')" by (metis prod.exhaust)
  from client_frame_trans [OF assms a [OF x]] x show ?thesis by (auto simp: log_every_def intro: frame_log_lines)
qed

lemma frame_client_do: "client_do env c rq s = (r, s') \<Longrightarrow> client_frame s s'"
  by (auto simp: client_do_def split: prod.splits http_result.splits dest: frame_http_do)

lemma frame_unexpectedStatus: "unexpectedStatus env op st b s = (e, s') \<Longrightarrow> client_frame s s'"
  by (auto simp: unexpectedStatus_def)

lemmas frame_calls = frame_time_now frame_http_do frame_client_do frame_unexpectedStatus

lemma frame_fetchToken: "fetchToken env c s = (r, s') \<Longrightarrow> client_frame s s'"
  by (auto simp: fetchToken_def split: sum.splits prod.splits http_result.splits if_splits
      dest!: frame_calls intro: client_frame_trans)

lemma frame_fetchProviderSD: "fetchProviderSD env c tok s = (r, s') \<Longrightarrow> client_frame s s'"
  by (auto simp: fetchProviderSD_def split: sum.splits prod.splits if_splits dest!: frame_calls intro: client_frame_trans)

lemma frame_refresh_token: "refresh_token env c s = (r, s') \<Longrightarrow> client_frame s s'"
  by (auto simp: refresh_token_def split: sum.splits prod.splits
      dest!: frame_calls frame_fetchToken intro: client_frame_trans)

lemma frame_participant_token: "participant_token env c f s = (r, s') \<Longrightarrow> client_frame s s'"
  by (auto simp: participant_token_def Let_def split: if_splits prod.splits
      dest!: frame_calls frame_refresh_token intro: client_frame_trans
        client_frame_trans [OF frame_set_entry [OF client_frame_refl]])

lemma frame_provider_sd: "provider_sd env c tok s = (r, s') \<Longrightarrow> client_frame s s'"
  by (auto simp: provider_sd_def Let_def split: if_splits sum.splits prod.splits
      dest!: frame_calls frame_fetchProviderSD intro: client_frame_trans)

lemma frame_credentials: "credentials env c f s = (r, s') \<Longrightarrow> client_frame s s'"
  by (auto simp: credentials_def split: if_splits sum.splits prod.splits
      dest!: frame_participant_token frame_provider_sd
      intro: client_frame_trans [OF frame_get_or_create [OF client_frame_refl]] client_frame_trans)

lemma frame_search: "search_identifier env c sub sd tok s = (r, s') \<Longrightarrow> client_frame s s'"
  by (auto simp: search_identifier_def id_put_def split: sum.splits prod.splits if_splits
      dest!: frame_calls intro: client_frame_trans)

lemma frame_resolveUserIdentifier: "resolveUserIdentifier env c sub sd tok s = (r, s') \<Longrightarrow> client_frame s s'"
  by (auto simp: resolveUserIdentifier_def split: option.splits prod.splits
      dest!: frame_search frame_calls intro: client_frame_trans)

lemma frame_hasGrantedConsent: "hasGrantedConsent env c tok u req s = (r, s') \<Longrightarrow> client_frame s s'"
  by (auto simp: hasGrantedConsent_def split: sum.splits prod.splits if_splits dest!: frame_calls intro: client_frame_trans)

lemma frame_check: "check env c req f s = (r, s') \<Longrightarrow> client_frame s s'"
  by (auto simp: check_def split: sum.splits prod.splits option.splits bool.splits
      dest!: frame_credentials frame_resolveUserIdentifier frame_hasGrantedConsent intro: client_frame_trans)

lemma frame_check_with_retry: "check_with_retry env c req s = (r, s') \<Longrightarrow> client_frame s s'"
  by (auto simp: check_with_retry_def split: sum.splits prod.splits if_splits dest!: frame_check intro: client_frame_trans)

lemma frame_CheckConsent: "CheckConsent env c req s = (r, s') \<Longrightarrow> client_frame s s'"
  by (auto simp: CheckConsent_def split: sum.splits prod.splits if_splits dest!: frame_check_with_retry intro: client_frame_trans)

lemma frame_lookup: "lookupParticipantSD env c did f s = (r, s') \<Longrightarrow> client_frame s s'"
  by (auto simp: lookupParticipantSD_def split: sum.splits prod.splits if_splits
      dest!: frame_credentials frame_calls intro: client_frame_trans)

lemma frame_lookup_with_retry: "lookup_with_retry env c did s = (r, s') \<Longrightarrow> client_frame s s'"
  by (auto simp: lookup_with_retry_def split: sum.splits prod.splits if_splits dest!: frame_lookup intro: client_frame_trans)

lemma frame_fill: "fill_participant_sd env c did s = (r, s') \<Longrightarrow> client_frame s s'"
  by (auto simp: fill_participant_sd_def sd_put_def Let_def split: sum.splits prod.splits if_splits option.splits
      dest!: frame_lookup_with_retry frame_calls intro: client_frame_trans)

lemma frame_ParticipantSD: "ParticipantSelfDescriptionByDID env c did s = (r, s') \<Longrightarrow> client_frame s s'"
  by (auto simp: ParticipantSelfDescriptionByDID_def split: option.splits prod.splits if_splits
      dest!: frame_fill frame_calls intro: client_frame_trans)

lemma frame_ProviderSD: "ProviderSelfDescription env c s = (r, s') \<Longrightarrow> client_frame s s'"
  by (auto simp: ProviderSelfDescription_def split: sum.splits prod.splits dest!: frame_credentials)

lemma frame_Resolve: "Resolve env c res p payload s = (r, s') \<Longrightarrow> client_frame s s'"
  by (auto simp: Resolve_def split: sum.splits prod.splits http_result.splits if_splits dest!: frame_calls)

lemma frame_captured_claims: "captured_claims env cfg header s = (r, s') \<Longrightarrow> client_frame s s'"
  by (auto simp: captured_claims_def split: sum.splits if_splits)

lemma frame_ParseConf: "ParseConf env input s = (r, s') \<Longrightarrow> client_frame s s'"
  by (auto simp: ParseConf_def ParseConfig_def Let_def split: if_splits sum.splits option.splits intro: frame_log_lines)

section \<open>The response phase\<close>

definition grows :: "('w, 'z) client_proc_scheme \<Rightarrow> ('w, 'z) client_proc_scheme \<Rightarrow> bool" where
  "grows s s' \<longleftrightarrow> (supp_bounded s \<longrightarrow> supp_bounded s') \<and> keys (credCache s) \<subseteq> keys (credCache s')
     \<and> keys (participantSDCache s) \<subseteq> keys (participantSDCache s') \<and> keys (identifierCache s) \<subseteq> keys (identifierCache s')"

lemma grows_refl [simp, intro]: "grows s s"
  by (simp add: grows_def)

lemma grows_trans: "grows s t \<Longrightarrow> grows t u \<Longrightarrow> grows s u"
  unfolding grows_def by (elim conjE, intro conjI) (simp, (erule (1) order_trans)+)

lemma client_frame_grows: "client_frame s s' \<Longrightarrow> grows s s'"
  by (simp add: client_frame_def grows_def)

definition dependency_labels :: "label_pair set" where
  "dependency_labels = {Label_Pair d o' |d o'. d \<in> {DependencyConsentManager, DependencyOwnerResolver} \<and> o' \<in> {OutcomeSuccess, OutcomeError}}"

definition phase_frame :: "('w, 'z) metrics_proc_scheme \<Rightarrow> ('w, 'z) metrics_proc_scheme \<Rightarrow> bool" where
  "phase_frame s s' \<longleftrightarrow> grows s s' \<and> store s' = store s \<and> decisions s' = decisions s \<and> metrics_proc.more s' = metrics_proc.more s
     \<and> (wf_map (dependencyCalls s) \<longrightarrow> wf_map (dependencyCalls s'))
     \<and> keys (dependencyCalls s') \<subseteq> keys (dependencyCalls s) \<union> dependency_labels"

lemma phase_frame_refl [simp, intro]: "phase_frame s s"
  by (simp add: phase_frame_def)

lemma phase_frame_trans: "phase_frame s t \<Longrightarrow> phase_frame t u \<Longrightarrow> phase_frame s u"
  unfolding phase_frame_def using grows_trans by (elim conjE, intro conjI) (blast, simp, simp, simp, simp, fast)

lemma phase_of_client:
  fixes s s' :: "('w, 'z) metrics_proc_scheme"
  assumes "client_frame s s'"
  shows "phase_frame s s'"
proof -
  have "client_proc.more s' = client_proc.more s" using assms by (simp add: client_frame_def)
  then have "store s' = store s \<and> decisions s' = decisions s \<and> dependencyCalls s' = dependencyCalls s
      \<and> metrics_proc.more s' = metrics_proc.more s"
    by (cases s; cases s') simp
  with client_frame_grows [OF assms] show ?thesis by (simp add: phase_frame_def)
qed

lemma phase_log_every [intro]: "phase_frame s t \<Longrightarrow> phase_frame s (log_every env l k m t)"
  by (rule phase_frame_trans) (auto intro: phase_of_client)

lemma keys_increment: "keys (increment k m) = insert k (keys m)"
proof -
  have "set (map fst (increment k m)) = insert k (set (map fst m))" by (auto simp: increment_def gset_def update_keys)
  then show ?thesis by simp
qed

lemma phase_RecordDependencyCall [intro]:
  assumes "phase_frame s t" and "d \<in> {DependencyConsentManager, DependencyOwnerResolver}"
  shows "phase_frame s (RecordDependencyCall d (outcomeOf err) x t)"
proof (rule phase_frame_trans [OF assms(1)])
  have "outcomeOf err \<in> {OutcomeSuccess, OutcomeError}" by (simp add: outcomeOf_def split: option.split)
  with assms(2) have "Label_Pair d (outcomeOf err) \<in> dependency_labels" unfolding dependency_labels_def by blast
  moreover have "wf_map (increment l m)" if "wf_map m" for l and m :: "(label_pair \<times> 64 word) list"
    using that by (simp add: increment_def)
  ultimately show "phase_frame t (RecordDependencyCall d (outcomeOf err) x t)"
    by (auto simp: phase_frame_def grows_def supp_bounded_def RecordDependencyCall_def keys_increment)
qed

lemma phase_RecordPurposeUnconstrained [intro]: "phase_frame s t \<Longrightarrow> phase_frame s (RecordPurposeUnconstrained t)"
  by (rule phase_frame_trans) (auto simp: phase_frame_def grows_def supp_bounded_def RecordPurposeUnconstrained_def)

lemma phase_checkPurposeScoping: "checkPurposeScoping env cfg key cs s = (r, s') \<Longrightarrow> phase_frame s s'"
proof (induction env cfg key cs s rule: checkPurposeScoping.induct)
  case (2 env cfg key c cs s)
  let ?t = "log_every env Warn ''purpose-unconstrained''
      ''ResponseFilter: the resolver named no processing purpose, so consent is matched on the consumer alone; set require_purpose once the resolver emits one''
      (RecordPurposeUnconstrained s)"
  have "phase_frame s ?t" by auto
  with 2 show ?case by (auto split: if_splits intro: phase_frame_trans)
qed auto

lemma phase_owner_step:
  assumes "owner_step env key ctx client sd claims p (r, s) = (r', s')"
  shows "phase_frame s s'"
proof (cases p)
  case (Start i)
  then show ?thesis using assms
    by (auto simp: owner_step_def start_check_def split: if_splits prod.splits dest!: frame_time_now intro: phase_of_client)
next
  case (Finish i bites)
  show ?thesis
  proof (cases "i < length (goroutines r) \<and> is_running (goroutines r ! i)")
    case True
    then obtain started where g: "goroutines r ! i = Running started" by (auto simp: is_running_def split: goroutine.splits)
    obtain a s1 where c: "CheckConsent (cut_env (checks_done r) bites env) client (owner_request ctx sd (claims ! i)) s = (a, s1)" by fastforce
    obtain now s2 where t: "time_now env s1 = (now, s2)" by fastforce
    have f: "phase_frame s s2"
      using phase_frame_trans [OF phase_of_client [OF frame_CheckConsent [OF c]] phase_of_client [OF frame_time_now [OF t]]] .
    from assms Finish True g c t show ?thesis
      by (auto simp: owner_step_def finish_check_def Let_def intro!: phase_RecordDependencyCall [OF f])
  next
    case False
    then show ?thesis using assms Finish by (auto simp: owner_step_def is_running_def split: goroutine.splits if_splits)
  qed
qed (use assms in \<open>auto simp: owner_step_def split: if_splits\<close>)

lemma phase_run_steps: "run_steps env key ctx client sd claims ops (r, s) = (r', s') \<Longrightarrow> phase_frame s s'"
proof (induction ops arbitrary: r s)
  case (Cons p ops)
  obtain r1 s1 where p: "owner_step env key ctx client sd claims p (r, s) = (r1, s1)" by fastforce
  with Cons.prems have "run_steps env key ctx client sd claims ops (r1, s1) = (r', s')" by (simp add: run_steps_def)
  from phase_frame_trans [OF phase_owner_step [OF p] Cons.IH [OF this]] show ?case .
qed (simp add: run_steps_def)

lemma phase_checkOwners: "checkOwners env ops cfg key ctx client claims sd s = (oc, s') \<Longrightarrow> phase_frame s s'"
  by (auto simp: checkOwners_def reduceOwnerResults_def split: prod.splits option.splits dest!: phase_run_steps)

lemma phase_decide_claims: "decide_claims env ops cfg key ctx client sd found s = (oc, s') \<Longrightarrow> phase_frame s s'"
  by (auto simp: decide_claims_def split: if_splits sum.splits prod.splits option.splits
      dest!: phase_checkPurposeScoping phase_checkOwners intro: phase_frame_trans)

lemma phase_ask_resolver:
  assumes "ask_resolver env cfg ctx ct p body s = (a, s')"
  shows "phase_frame s s'"
proof -
  obtain t0 s1 where t0: "time_now env s = (t0, s1)" by fastforce
  obtain b s2 where b: "Resolve env (resolver_NewClient (OwnerResolverURL cfg) (OwnerResolverTimeout cfg))
      \<lparr>rs_Service = Service cfg, rs_Method = rc_Method ctx, rs_Path = rc_Path ctx, rs_ContentType = ct\<rparr> p body s1 = (b, s2)" by fastforce
  obtain t1 s3 where t1: "time_now env s2 = (t1, s3)" by fastforce
  have f: "phase_frame s s3"
    using frame_time_now [OF t0] frame_Resolve [OF b] frame_time_now [OF t1] by (blast intro: phase_of_client client_frame_trans)
  from assms t0 b t1 show ?thesis by (auto simp: ask_resolver_def intro!: phase_RecordDependencyCall [OF f])
qed

lemma frame_identify_parties: "identify_parties env cfg key ctx client s = (p, s') \<Longrightarrow> client_frame s s'"
  by (auto simp: identify_parties_def split: sum.splits prod.splits
      dest!: frame_ParticipantSD frame_ProviderSD intro: client_frame_trans)

lemma phase_evaluateWithResolver:
  assumes "evaluateWithResolver env hops ops cfg w key ctx client s = (oc, w', s')"
  shows "phase_frame s s'"
  using assms
  by (auto simp: evaluateWithResolver_def split: sum.splits if_splits prod.splits
      dest!: phase_of_client [OF frame_identify_parties] phase_ask_resolver phase_decide_claims intro: phase_frame_trans)

end
