(* ===== verification/Plugin_Process.thy ===== *)
theory Plugin_Process
  imports Footprint Plugin_Main Audit_Props Filter_Claims
begin

text \<open>
  The running process: any interleaving of loaded routes, request phases, response phases, ticks of the
  janitor, turns of the audit workers and the final shutdown, from the state in which the packages were
  initialised.  One invariant over the whole state collects what each component promises, and every step
  keeps it; a phase is one step.
\<close>

section \<open>The invariant\<close>

definition decision_labels :: "label_pair set" where
  "decision_labels = {Label_Pair d m |d m. d \<in> {decisionAllow, decisionDeny} \<and> m \<in> {''none'', ''by_policy'', ''always_closed''}}"

definition process_inv :: "('w, 'z) audit_proc_scheme \<Rightarrow> bool" where
  "process_inv s \<longleftrightarrow> supp_bounded s \<and> store_inv (store s)
     \<and> wf_map (decisions s) \<and> keys (decisions s) \<subseteq> decision_labels
     \<and> wf_map (dependencyCalls s) \<and> keys (dependencyCalls s) \<subseteq> dependency_labels
     \<and> audit_inv s \<and> (\<forall>e\<in>set (emitter_heap s). emitter_inv e)"

text \<open>A step keeps the invariant and removes nothing from the client's caches.\<close>

definition good_step :: "('w, 'z) audit_proc_scheme \<Rightarrow> ('w, 'z) audit_proc_scheme \<Rightarrow> bool" where
  "good_step s s' \<longleftrightarrow> grows s s' \<and> (process_inv s \<longrightarrow> process_inv s')"

lemma good_refl [simp, intro]: "good_step s s"
  by (simp add: good_step_def)

lemma good_trans: "good_step s t \<Longrightarrow> good_step t u \<Longrightarrow> good_step s u"
  unfolding good_step_def using grows_trans by blast

lemma good_phase:
  fixes s s' :: "('w, 'z) audit_proc_scheme"
  assumes "phase_frame s s'"
  shows "good_step s s'"
proof -
  have "metrics_proc.more s' = metrics_proc.more s" using assms by (simp add: phase_frame_def)
  then have e: "emitters s' = emitters s \<and> emitter_heap s' = emitter_heap s" by (cases s; cases s') simp
  from assms have p: "grows s s'" "store s' = store s" "decisions s' = decisions s"
    "wf_map (dependencyCalls s) \<Longrightarrow> wf_map (dependencyCalls s')"
    "keys (dependencyCalls s') \<subseteq> keys (dependencyCalls s) \<union> dependency_labels"
    by (auto simp: phase_frame_def)
  have "process_inv s'" if i: "process_inv s"
    unfolding process_inv_def
  proof (intro conjI)
    show "supp_bounded s'" using i p(1) by (simp add: process_inv_def grows_def)
    show "keys (dependencyCalls s') \<subseteq> dependency_labels" using i p(5) by (simp add: process_inv_def) (meson Un_least order_refl order_trans)
  qed (use i p(2-4) e in \<open>simp_all add: process_inv_def audit_inv_def\<close>)
  with p(1) show ?thesis by (simp add: good_step_def)
qed

lemma good_client: "client_frame s s' \<Longrightarrow> good_step s s'"
  by (intro good_phase phase_of_client)

section \<open>The steps\<close>

lemma good_store: "(store_inv (store s) \<Longrightarrow> store_inv st) \<Longrightarrow> good_step s (s\<lparr>store := st\<rparr>)"
  by (simp add: good_step_def grows_def process_inv_def supp_bounded_def audit_inv_def)

lemma good_StoreRequestContext: "good_step s (StoreRequestContext env key ctx s)"
proof -
  obtain now s1 where t: "time_now env (s\<lparr>janitorStarted := True\<rparr>) = (now, s1)" by fastforce
  obtain ev st where p: "store_put key ctx now (store s1) = (ev, st)" by fastforce
  have a: "good_step s (s\<lparr>janitorStarted := True\<rparr>)"
    by (simp add: good_step_def grows_def process_inv_def supp_bounded_def audit_inv_def)
  have b: "good_step (s\<lparr>janitorStarted := True\<rparr>) s1" using frame_time_now [OF t] by (rule good_client)
  have c: "good_step s1 (s1\<lparr>store := st\<rparr>)" using store_put_facts(1) [OF p] by (rule good_store)
  have d: "good_step (s1\<lparr>store := st\<rparr>) (log_eviction env ev (s1\<lparr>store := st\<rparr>))"
    by (rule good_client) (auto simp: log_eviction_def split: eviction.split)
  from good_trans [OF good_trans [OF good_trans [OF a b] c] d] show ?thesis using t p by (simp add: StoreRequestContext_def)
qed

lemma good_LoadAndDelete:
  assumes "LoadAndDeleteRequestContext env key s = (r, s')"
  shows "good_step s s'"
proof -
  obtain now s1 where t: "time_now env s = (now, s1)" by fastforce
  have a: "good_step s s1" using frame_time_now [OF t] by (rule good_client)
  have b: "good_step s1 (s1\<lparr>store := snd (store_take key now (store s1))\<rparr>)" by (rule good_store) (rule store_inv_take)
  from assms t good_trans [OF a b] show ?thesis by (auto simp: LoadAndDeleteRequestContext_def split: if_splits prod.splits)
qed

lemma good_janitor: "good_step s (janitor_tick env s)"
proof (cases "janitorStarted s")
  case True
  obtain now s1 where t: "time_now env s = (now, s1)" by fastforce
  have a: "good_step s s1" using frame_time_now [OF t] by (rule good_client)
  have b: "good_step s1 (s1\<lparr>store := snd (sweepLocked now (store s1))\<rparr>)" by (rule good_store) (rule sweep_inv)
  have c: "good_step t' (logf l m t')" for l m t' by (intro good_client frame_log_lines) simp
  from True t good_trans [OF a b] show ?thesis
    by (auto simp: janitor_tick_def sweepRequestContexts_def split: prod.splits intro: good_trans [OF _ c])
qed (simp add: janitor_tick_def)

lemma good_RequestFilter: "good_step s (RequestFilter env conf r s)"
proof (cases conf)
  case None
  then show ?thesis by (auto simp: RequestFilter_def intro: good_client frame_log_lines)
next
  case (Some cfg)
  obtain claims s1 where c: "captured_claims env cfg (nr_header r (JWTHeaderName cfg)) s = (claims, s1)" by fastforce
  have a: "good_step s s1" using frame_captured_claims [OF c] by (rule good_client)
  have l: "good_step s1 (log_every env lv k m s1)" for lv k m by (rule good_client) auto
  from Some c show ?thesis
    by (auto simp: RequestFilter_def split: option.splits intro: good_trans [OF a l] good_trans [OF a good_StoreRequestContext])
qed

lemma good_RecordDecision:
  assumes "two_valued oc"
  shows "good_step s (RecordDecision (oc_decision oc) (oc_failMode oc) s)"
proof -
  let ?m = "if oc_failMode oc = [] then ''none'' else oc_failMode oc"
  have "oc_decision oc \<in> {decisionAllow, decisionDeny}" "?m \<in> {''none'', ''by_policy'', ''always_closed''}"
    using assms by (auto simp: two_valued_def)
  then have "Label_Pair (oc_decision oc) ?m \<in> decision_labels" unfolding decision_labels_def by blast
  moreover have "wf_map (increment l m)" if "wf_map m" for l and m :: "(label_pair \<times> 64 word) list"
    using that by (simp add: increment_def)
  ultimately show ?thesis
    by (simp add: good_step_def grows_def process_inv_def supp_bounded_def audit_inv_def RecordDecision_def keys_increment)
qed

section \<open>The audit log\<close>

lemma good_audit:
  assumes "audit_inv s \<Longrightarrow> audit_inv (s\<lparr>emitter_heap := hp, emitters := m\<rparr>)"
    and "(\<And>e. e \<in> set (emitter_heap s) \<Longrightarrow> emitter_inv e) \<Longrightarrow> \<forall>e\<in>set hp. emitter_inv e"
  shows "good_step s (s\<lparr>emitter_heap := hp, emitters := m\<rparr>)"
proof -
  have "process_inv (s\<lparr>emitter_heap := hp, emitters := m\<rparr>)" if "process_inv s"
    unfolding process_inv_def
  proof (intro conjI)
    show "audit_inv (s\<lparr>emitter_heap := hp, emitters := m\<rparr>)" using that by (intro assms(1)) (simp add: process_inv_def)
    show "\<forall>e\<in>set (emitter_heap (s\<lparr>emitter_heap := hp, emitters := m\<rparr>)). emitter_inv e"
      using assms(2) that by (simp add: process_inv_def)
  qed (use that in \<open>simp_all add: process_inv_def supp_bounded_def\<close>)
  then show ?thesis by (simp add: good_step_def grows_def supp_bounded_def)
qed

lemma good_heap_update:
  assumes "i < length (emitter_heap s)" and "emitter_inv (emitter_heap s ! i) \<Longrightarrow> emitter_inv e"
  shows "good_step s (s\<lparr>emitter_heap := (emitter_heap s)[i := e]\<rparr>)"
proof -
  have "good_step s (s\<lparr>emitter_heap := (emitter_heap s)[i := e], emitters := emitters s\<rparr>)"
    using assms by (intro good_audit) (auto simp: audit_inv_def dest!: set_update_subset_insert [THEN subsetD])
  then show ?thesis by simp
qed

lemma good_Get:
  assumes "Get cfg s = (i, s')"
  shows "good_step s s'"
proof (cases "map_of (emitters s) (audit_key cfg)")
  case None
  with assms have "s' = s\<lparr>emitter_heap := emitter_heap s @ [newEmitter cfg],
      emitters := gset (audit_key cfg) (length (emitter_heap s)) (emitters s)\<rparr>" by (auto simp: Get_def)
  with Get_facts(1) [OF _ assms] show ?thesis by (auto intro!: good_audit simp: newEmitter_inv)
qed (use assms in \<open>simp add: Get_def\<close>)

lemma good_Emit:
  assumes "i < length (emitter_heap s)"
  shows "good_step s (Emit i ev s)"
proof -
  have u: "good_step s (s\<lparr>emitter_heap := (emitter_heap s)[i := offer ev (emitter_heap s ! i)]\<rparr>)"
    using assms offer_inv by (rule good_heap_update)
  have "good_step t (logf l m t)" for l m and t :: "('a, 'b) audit_proc_scheme" by (intro good_client frame_log_lines) simp
  with u show ?thesis by (auto simp: Emit_def Let_def intro: good_trans)
qed

lemma frame_heap:
  fixes s s' :: "('w, 'z) audit_proc_scheme"
  assumes "client_frame s s'"
  shows "emitter_heap s' = emitter_heap s"
proof -
  have "client_proc.more s' = client_proc.more s" using assms by (simp add: client_frame_def)
  then show ?thesis by (cases s; cases s') simp
qed

lemma Emit_length [simp]: "length (emitter_heap (Emit i ev s)) = length (emitter_heap s)"
  by (simp add: Emit_def Let_def logf_def)

lemma good_Emits: "i < length (emitter_heap s) \<Longrightarrow> good_step s (foldl (\<lambda>s ev. Emit i ev s) s evs)"
proof (induction evs arbitrary: s)
  case (Cons ev evs)
  from good_trans [OF good_Emit [OF Cons.prems, of ev] Cons.IH [of "Emit i ev s"]] Cons.prems show ?case by simp
qed simp

lemma good_recordAudit: "process_inv s \<Longrightarrow> good_step s (recordAudit env cfg oc s)"
proof (cases "AuditEnabled cfg")
  case True
  assume inv: "process_inv s"
  obtain i s1 where g: "Get (audit_config_of cfg) s = (i, s1)" by fastforce
  obtain now s2 where t: "time_now env s1 = (now, s2)" by fastforce
  have "i < length (emitter_heap s1)" using Get_facts(4) [OF _ g] inv by (simp add: process_inv_def)
  moreover have "emitter_heap s2 = emitter_heap s1" using frame_heap [OF frame_time_now [OF t]] .
  ultimately have e: "good_step s2 (foldl (\<lambda>s ev. Emit i ev s) s2 (audit_events now oc))" by (intro good_Emits) simp
  have "good_step s s2" using good_trans [OF good_Get [OF g] good_client [OF frame_time_now [OF t]]] .
  from good_trans [OF this e] True g t show ?thesis by (simp add: recordAudit_def)
qed (simp add: recordAudit_def)

lemma frame_export: "client_frame s (export env e batch s)"
proof (cases "new_request env ''POST'' (em_endpoint e) (Some (buildPayload e batch))")
  case (Inr rq)
  have h: "client_frame s s1 \<Longrightarrow> client_frame s (log_every env l k m s1)" for l k m and s1 :: "('a, 'b) audit_proc_scheme"
    by (rule frame_log_every)
  from Inr show ?thesis by (auto simp: export_def split: prod.splits http_result.splits dest!: frame_http_do intro: h)
qed (auto simp: export_def intro: frame_log_lines)

lemma good_worker_turn:
  assumes "i < length (emitter_heap s)"
  shows "good_step s (worker_turn env i k s)"
proof -
  obtain out e where w: "worker k (emitter_heap s ! i) = (out, e)" by fastforce
  have u: "good_step s (s\<lparr>emitter_heap := (emitter_heap s)[i := e]\<rparr>)"
    using assms worker_inv [OF _ w] by (rule good_heap_update)
  from w show ?thesis
    using u good_trans [OF u good_client [OF frame_export]] by (simp add: worker_turn_def Let_def)
qed

lemma worker_turn_length [simp]: "length (emitter_heap (worker_turn env i k s)) = length (emitter_heap s)"
  by (auto simp: worker_turn_def Let_def frame_heap [OF frame_export] split: prod.splits)

lemma good_turns: "i < length (emitter_heap s) \<Longrightarrow> good_step s (foldl (\<lambda>s k. worker_turn env i k s) s ks)"
proof (induction ks arbitrary: s)
  case (Cons k ks)
  from good_trans [OF good_worker_turn [OF Cons.prems, of env k] Cons.IH [of "worker_turn env i k s"]] Cons.prems show ?case by simp
qed simp

lemma good_Shutdown: "i < length (emitter_heap s) \<Longrightarrow> good_step s (Shutdown env ws i s)"
proof -
  assume i: "i < length (emitter_heap s)"
  let ?t = "s\<lparr>emitter_heap := (emitter_heap s)[i := (emitter_heap s ! i)\<lparr>em_done := True\<rparr>]\<rparr>"
  have "good_step s ?t" using i by (rule good_heap_update) (auto simp: emitter_inv_def)
  moreover have "good_step ?t (foldl (\<lambda>s k. worker_turn env i k s) ?t (ws @ [Done]))" using i by (intro good_turns) simp
  ultimately show ?thesis unfolding Shutdown_def Let_def by (rule good_trans)
qed

lemma turns_length [simp]: "length (emitter_heap (foldl (\<lambda>s k. worker_turn env i k s) s ks)) = length (emitter_heap s)"
  by (induction ks arbitrary: s) simp_all

lemma good_ShutdownAll:
  assumes "process_inv s"
  shows "good_step s (ShutdownAll env ws s)"
proof -
  have *: "good_step t (foldl (\<lambda>s (_, i). Shutdown env (ws i) i s) t l)" if "\<forall>i\<in>snd ` set l. i < length (emitter_heap t)"
    for l :: "(string \<times> nat) list" and t :: "('a, 'b) audit_proc_scheme"
    using that
  proof (induction l arbitrary: t)
    case (Cons x l)
    obtain k i where x: "x = (k, i)" by fastforce
    have len: "length (emitter_heap (Shutdown env (ws i) i t)) = length (emitter_heap t)" by (simp add: Shutdown_def Let_def)
    have "good_step t (Shutdown env (ws i) i t)" using Cons.prems x by (intro good_Shutdown) simp
    moreover have "good_step (Shutdown env (ws i) i t) (foldl (\<lambda>s (_, i). Shutdown env (ws i) i s) (Shutdown env (ws i) i t) l)"
      using Cons.prems x len by (intro Cons.IH) simp
    ultimately show ?case using x by (auto intro: good_trans)
  qed simp
  have "good_step s (s\<lparr>emitters := []\<rparr>)"
    by (simp add: good_step_def grows_def process_inv_def supp_bounded_def audit_inv_def)
  moreover have "\<forall>i\<in>snd ` set (emitters s). i < length (emitter_heap (s\<lparr>emitters := []\<rparr>))"
    using assms by (simp add: process_inv_def audit_inv_def)
  ultimately show ?thesis unfolding ShutdownAll_def using * good_trans by blast
qed

section \<open>A response phase\<close>

lemma good_evaluate:
  assumes "evaluate env hops ops cfg w s = (oc, w', s')"
  shows "good_step s s'"
proof (cases "correlationKey (rr_var w)")
  case None
  with assms show ?thesis by (auto simp: evaluate_def intro: good_client)
next
  case (Some key)
  obtain r s1 where l: "LoadAndDeleteRequestContext env key s = (r, s1)" by fastforce
  have g: "good_step s1 (log_every env lv k m s1)" for lv k m by (rule good_client) auto
  from assms Some l good_trans [OF good_LoadAndDelete [OF l]] show ?thesis
    by (auto simp: evaluate_def split: option.splits intro: g good_phase phase_evaluateWithResolver)
qed

lemma good_denyResponse: "denyResponse hops w cfg s = Some (w', s') \<Longrightarrow> good_step s s'"
  by (auto simp: denyResponse_def Let_def split: option.splits intro: good_client frame_log_lines)

lemma ResponseFilter_keeps:
  assumes "ResponseFilter env hops ops conf w s = Some (w', s')" and inv: "process_inv s"
  shows "good_step s s'"
proof (cases conf)
  case None
  then show ?thesis using assms(1) by (auto simp: ResponseFilter_def intro: good_client frame_log_lines)
next
  case (Some cfg)
  obtain oc w1 s1 where e: "evaluate env hops ops cfg w s = (oc, w1, s1)" by (metis prod.exhaust)
  let ?s2 = "RecordDecision (oc_decision oc) (oc_failMode oc) s1"
  have "good_step s ?s2" using good_trans [OF good_evaluate [OF e] good_RecordDecision [OF evaluate_decision [OF e]]] .
  moreover from this inv have "process_inv ?s2" by (simp add: good_step_def)
  ultimately have g: "good_step s (recordAudit env cfg oc ?s2)" using good_trans good_recordAudit by blast
  from assms(1) Some e good_trans [OF g] g show ?thesis
    by (auto simp: ResponseFilter_def Let_def split: if_splits intro: good_denyResponse)
qed

lemma good_serveMetrics: "good_step s (serveMetrics env listen s)"
  by (auto simp: serveMetrics_def Let_def split: serving.split intro: good_client frame_log_lines)

section \<open>The running process\<close>

text \<open>
  What the process does, in any order: the runner has a route's configuration parsed and calls the two
  phases, the janitor ticks, an audit worker wakes up, the metrics endpoint starts or stops, the runner's
  shutdown flushes; and the clock and the services move on by themselves.
\<close>

inductive process_step :: "'w env \<Rightarrow> 'h header_ops \<Rightarrow> 'w audit_proc \<Rightarrow> 'w audit_proc \<Rightarrow> bool" for env hops where
  configure: "ParseConf env input s = (r, s') \<Longrightarrow> process_step env hops s s'"
| request: "process_step env hops s (RequestFilter env conf rq s)"
| response: "ResponseFilter env hops ops conf w s = Some (w', s') \<Longrightarrow> process_step env hops s s'"
| tick: "process_step env hops s (janitor_tick env s)"
| work: "i < length (emitter_heap s) \<Longrightarrow> process_step env hops s (worker_turn env i k s)"
| serve: "process_step env hops s (serveMetrics env listen s)"
| shutdown: "process_step env hops s (ShutdownAll env ws s)"
| surroundings: "process_step env hops s (s\<lparr>world := w\<rparr>)"

inductive_cases process_stepE: "process_step env hops s s'"

lemma process_step_good: "process_step env hops s s' \<Longrightarrow> process_inv s \<Longrightarrow> good_step s s'"
proof (induction rule: process_step.induct)
  case (configure input s r s')
  then show ?case by (blast intro: good_client frame_ParseConf)
next
  case (request s conf rq)
  show ?case by (rule good_RequestFilter)
next
  case (response ops conf w s w' s')
  then show ?case by (rule ResponseFilter_keeps)
next
  case (tick s)
  show ?case by (rule good_janitor)
next
  case (work i s k)
  then show ?case by (intro good_worker_turn)
next
  case (serve s listen)
  show ?case by (rule good_serveMetrics)
next
  case (shutdown s ws)
  then show ?case by (rule good_ShutdownAll)
next
  case (surroundings s w)
  show ?case by (auto intro: good_client)
qed

lemma process_steps_good:
  assumes "(process_step env hops)\<^sup>*\<^sup>* s s'" and "process_inv s"
  shows "good_step s s' \<and> process_inv s'"
  using assms
proof (induction rule: rtranclp_induct)
  case (step t u)
  then have t: "good_step s t" "process_inv t" by auto
  from process_step_good [OF step.hyps(2) t(2)] t show ?case by (auto simp: good_step_def intro: grows_trans)
qed auto

text \<open>The state a fresh process has before its packages are initialised.\<close>

definition empty_process :: "'w \<Rightarrow> 'w audit_proc" where
  "empty_process w =
     \<lparr>world = w, supp = [], log_lines = [], credCache = [], participantSDCache = [], identifierCache = [],
      store = empty_store, janitorStarted = False, decisions = [], dependencyCalls = [], latency = [],
      purposeUnconstrained = 0, callbacks = [], emitter_heap = [], emitters = []\<rparr>"

lemma init_inv: "init_process register (empty_process w) = Some s \<Longrightarrow> process_inv s"
  by (auto simp: init_process_def init_plugin_def init_audit_metrics_def init_context_metrics_def RegisterCounter_def
      RegisterGauge_def registerCallback_def empty_process_def process_inv_def supp_bounded_def store_inv_def empty_store_def audit_inv_def
      split: option.splits)

text \<open>No step, shutdown included, ever removes an entry from a cache of the consent client.\<close>

lemma caches_never_shrink:
  assumes "process_inv s" and "(process_step env hops)\<^sup>*\<^sup>* s s'"
  shows "keys (credCache s) \<subseteq> keys (credCache s') \<and> keys (participantSDCache s) \<subseteq> keys (participantSDCache s')
    \<and> keys (identifierCache s) \<subseteq> keys (identifierCache s')"
  using process_steps_good [OF assms(2,1)] by (simp add: good_step_def grows_def)

lemma length_by_keys:
  assumes "wf_map m" and "keys m \<subseteq> K" and "finite K"
  shows "length m \<le> card K"
proof -
  have "length m = card (keys m)" using distinct_card [of "map fst m"] assms(1) by (simp add: wf_map_def)
  with card_mono [OF assms(3,2)] show ?thesis by simp
qed

lemma labels_card: "finite decision_labels" "card decision_labels \<le> 6" "finite dependency_labels" "card dependency_labels \<le> 4"
proof -
  have d: "decision_labels = (\<lambda>(d, m). Label_Pair d m) ` ({decisionAllow, decisionDeny} \<times> {''none'', ''by_policy'', ''always_closed''})"
    unfolding decision_labels_def by auto
  have e: "dependency_labels = (\<lambda>(d, m). Label_Pair d m) `
      ({DependencyConsentManager, DependencyOwnerResolver} \<times> {OutcomeSuccess, OutcomeError})"
    unfolding dependency_labels_def by auto
  show "finite decision_labels" "finite dependency_labels" unfolding d e by (rule finite_imageI, simp)+
  show "card decision_labels \<le> 6" unfolding d
    by (rule order_trans [OF card_image_le]) (simp_all add: card_cartesian_product decisionAllow_def decisionDeny_def)
  show "card dependency_labels \<le> 4" unfolding e
    by (rule order_trans [OF card_image_le])
      (simp_all add: card_cartesian_product DependencyConsentManager_def DependencyOwnerResolver_def OutcomeSuccess_def OutcomeError_def)
qed

section \<open>Claims\<close>

text \<open>
  C13.  A running plugin is bounded in everything but its consent caches and its log: whatever the interleaving
  of configuration, requests, responses, janitor ticks, audit work, shutdown and the surroundings, from its
  initialisation on, at most a hundred thousand contexts are stored, one per key, the limiter tracks at most
  1024 keys, there are at most six decision and four dependency counters, and every audit emitter queues at most
  2048 events with fewer than 64 in its batch.
\<close>

theorem process_bounded:
  assumes "init_process register (empty_process w) = Some s0" and "(process_step env hops)\<^sup>*\<^sup>* s0 s"
  shows "wf_map (requestContextStore (store s)) \<and> RequestContextStoreSize s \<le> 100000 \<and> length (supp s) \<le> 1024
    \<and> length (decisions s) \<le> 6 \<and> length (dependencyCalls s) \<le> 4
    \<and> (\<forall>e\<in>set (emitter_heap s). length (em_queue e) \<le> 2048 \<and> length (em_batch e) < 64)"
proof -
  have inv: "process_inv s" using process_steps_good [OF assms(2) init_inv [OF assms(1)]] by simp
  then have "length (decisions s) \<le> card decision_labels" "length (dependencyCalls s) \<le> card dependency_labels"
    using labels_card by (auto simp: process_inv_def intro: length_by_keys)
  then have "length (decisions s) \<le> 6" "length (dependencyCalls s) \<le> 4" using labels_card by linarith+
  with inv show ?thesis
    by (auto simp: process_inv_def store_inv_def supp_bounded_def emitter_inv_def RequestContextStoreSize_def
        MaxRequestContexts_def suppression_key_cap_def)
qed

text \<open>
  A request that is stored, then a response of an unknown request, which is denied, counted and audited.
\<close>

definition audited_config :: config where
  "audited_config = full_config\<lparr>AuditEnabled := True, AuditOTLPEndpoint := ''http://a''\<rparr>"

definition anonymous_request :: runner_request where
  "anonymous_request = \<lparr>nr_ID = 1, nr_Method = ''GET'', nr_Path = ''/a'', nr_header = (\<lambda>_. []), nr_var = (\<lambda>_. Inr ''r1'')\<rparr>"

lemma lost_run:
  fixes s :: "(int \<times> exchange list) audit_proc"
  assumes "decisions s = []" and "emitters s = []" and "emitter_heap s = []"
  shows "\<exists>w' s'. ResponseFilter (traced (scripted_env full_reply)) http_header_ops [] (Some audited_config) lost_response s = Some (w', s')
    \<and> store s' = store s \<and> length (decisions s') = 1 \<and> map (\<lambda>e. length (em_queue e)) (emitter_heap s') = [1]"
proof -
  let ?env = "traced (scripted_env full_reply)"
  obtain s1 where e: "evaluate ?env http_header_ops [] audited_config lost_response s
      = (failOutcome audited_config FailAlwaysClosed ''no request correlation id'' [] None, lost_response, s1)"
    and f: "client_frame s s1"
    by (auto simp: evaluate_def correlationKey_def lost_response_def)
  have "client_proc.more s1 = client_proc.more s" using f by (simp add: client_frame_def)
  then have same: "store s1 = store s" "decisions s1 = []" "emitters s1 = []" "emitter_heap s1 = []"
    using assms by (cases s; cases s1; simp)+
  let ?oc = "failOutcome audited_config FailAlwaysClosed ''no request correlation id'' [] None"
  have c: "oc_decision ?oc = decisionDeny" "oc_checked ?oc = []" by (simp_all add: failOutcome_def Let_def zero_outcome_def)
  let ?s2 = "RecordDecision (oc_decision ?oc) (oc_failMode ?oc) s1" and ?cfg = "audit_config_of audited_config"
  let ?g = "?s2\<lparr>emitter_heap := [newEmitter ?cfg], emitters := gset (audit_key ?cfg) 0 []\<rparr>"
  let ?s3 = "recordAudit ?env audited_config ?oc ?s2"
  have s2: "store ?s2 = store s" "length (decisions ?s2) = 1" "emitters ?s2 = []" "emitter_heap ?s2 = []"
    using same by (simp_all add: RecordDecision_def increment_def gset_def)
  then have g: "Get ?cfg ?s2 = (0, ?g)" by (simp add: Get_def)
  obtain now s4 where t: "time_now ?env ?g = (now, s4)" by fastforce
  then have s4: "store s4 = store s" "length (decisions s4) = 1" "emitter_heap s4 = [newEmitter ?cfg]"
    using s2 by (auto dest!: time_now_split)
  obtain ev where ev: "audit_events now ?oc = [ev]" by (simp add: audit_events_def c)
  have a: "AuditEnabled audited_config" by (simp add: audited_config_def)
  have "?s3 = Emit 0 ev s4" by (simp add: recordAudit_def a g t ev)
  then have r: "store ?s3 = store s \<and> length (decisions ?s3) = 1 \<and> map (\<lambda>e. length (em_queue e)) (emitter_heap ?s3) = [1]"
    using s4 by (simp add: Emit_def offer_def newEmitter_def Let_def defaultQueueSize_def)
  have "\<exists>w'. denyResponse http_header_ops lost_response audited_config ?s3 = Some (w', ?s3)"
    by (simp add: denyResponse_def lost_response_def full_response_def Let_def)
  with e c r show ?thesis by (auto simp: ResponseFilter_def Let_def)
qed

theorem process_bounded_witness:
  "\<exists>s. (process_step (traced (scripted_env full_reply)) http_header_ops)\<^sup>*\<^sup>* (the (init_process (\<lambda>_. None) (empty_process (0, [])))) s
     \<and> RequestContextStoreSize s = 1 \<and> map (\<lambda>e. length (em_queue e)) (emitter_heap s) = [1] \<and> length (decisions s) = 1
     \<and> length (supp s) \<le> 1024 \<and> (\<forall>e\<in>set (emitter_heap s). length (em_batch e) < 64)"
proof -
  let ?env = "traced (scripted_env full_reply)" and ?s0 = "the (init_process (\<lambda>_. None) (empty_process (0::int, [] :: exchange list)))"
  let ?s1 = "RequestFilter ?env (Some audited_config) anonymous_request ?s0"
  have i: "init_process (\<lambda>_. None) (empty_process (0, [])) = Some ?s0" by (simp add: init_process_def init_plugin_def)
  have s1: "RequestContextStoreSize ?s1 = 1" "decisions ?s1 = []" "emitters ?s1 = []" "emitter_heap ?s1 = []"
    by (simp_all add: init_process_def init_plugin_def init_audit_metrics_def init_context_metrics_def RegisterCounter_def RegisterGauge_def
        registerCallback_def empty_process_def RequestFilter_def captured_claims_def anonymous_request_def correlationKey_def
        StoreRequestContext_def time_now_def traced_def scripted_env_def store_put_def empty_store_def MaxRequestContexts_def
        log_eviction_def gset_def RequestContextStoreSize_def)
  from lost_run [OF s1(2-4)] obtain w' s2 where r: "ResponseFilter ?env http_header_ops [] (Some audited_config) lost_response ?s1 = Some (w', s2)"
    and s2: "store s2 = store ?s1" "length (decisions s2) = 1" "map (\<lambda>e. length (em_queue e)) (emitter_heap s2) = [1]"
    by (elim exE conjE)
  have steps: "(process_step ?env http_header_ops)\<^sup>*\<^sup>* ?s0 s2"
    using process_step.request [of ?env http_header_ops ?s0 "Some audited_config" anonymous_request] process_step.response [OF r]
    by (meson converse_rtranclp_into_rtranclp r_into_rtranclp)
  from process_bounded [OF i steps] steps s1 s2 show ?thesis by (auto simp: RequestContextStoreSize_def intro!: exI [of _ s2])
qed

end
