(* ===== verification/Spec2Isabelle.thy ===== *)
theory Spec2Isabelle
  imports Metrics_Props Owners_Limits Filter_Claims Release_Claims Main_Props Plugin_Process
begin

text \<open>
  The consent plugin, \<open>src/main.go\<close> and \<open>src/internal\<close>: an APISIX plugin that releases an upstream response
  only when every data owner in it has consented to the consumer that asked.  This development models the
  whole program and proves what makes it correct; every theory opens with what it holds.

  The program.  APISIX calls the plugin twice per request, in two RPCs of the plugin runner.  The request phase
  (\<open>RequestFilter\<close>) decodes the claims of the bearer token (\<open>internal/jwt\<close>) and stores method, path and claims under
  nginx's request id (\<open>internal/plugin/context.go\<close>).  The response phase (\<open>ResponseFilter\<close>) takes that context, finds the
  consumer in the claims, maps it to a registered participant (\<open>internal/consent\<close>), asks an owner resolver who
  owns the body (\<open>internal/ownerresolver\<close>), checks every owner's consent with the consent-manager, up to eight at a
  time, and reduces the answers to one verdict (\<open>internal/plugin/consent.go\<close>).  A verdict is counted
  (\<open>internal/metrics\<close>) and audited (\<open>internal/audit\<close>); a denial replaces status, headers and body.  The process flushes
  the audit queues after the runner has returned (\<open>main.go\<close>).

  State.  The process state is a chain of records, each extending the one before by the package variables of
  one package: \<open>world\<close> (the surroundings), the log with its rate limiter, the three caches of the consent
  client, the context store, the metrics, the audit emitters.  An operation is polymorphic in what extends
  its record, so packages compose without lifting.  The surroundings are a parameter \<open>env\<close>: clock, network,
  environment variables, the verdict of \<open>net/url\<close> on a string and the texts of library errors.  Errors are values
  (\<open>gerror\<close>: a text and the chain of sentinels \<open>errors.Is\<close> sees), results are sums, a panic is \<open>None\<close>.  Go maps are
  association lists with distinct keys, \<open>int\<close> values are bounded where they can wrap (\<open>i64\<close>), counters are 64-bit
  words, strings are byte lists, a slice that JSON is decoded into is a list with what its array holds behind it, and
  a \<open>float64\<close> is the rational it denotes.

  The theories, by part of the program.
  \<^item> Library: \<open>Prelude\<close>; \<open>Go_Strings\<close>, \<open>Go_Json\<close>, \<open>Go_Crypto\<close>, \<open>Headers\<close> (what is used of \<open>strings\<close>, \<open>utf8\<close>, \<open>strconv\<close>,
    \<open>encoding/json\<close>, \<open>sha256\<close>, \<open>base64\<close>, \<open>net/http\<close> header names); \<open>Runtime\<close> (environment, requests, \<open>quote\<close>); \<open>Calls\<close> (an
    environment that records its exchanges, which statements about calls use); \<open>Go_Float\<close> (\<open>float64\<close> as rounded
    rationals, for the latency metrics); \<open>Sample_Runs\<close>.
  \<^item> \<open>logging.go\<close>: \<open>Logging\<close>.  \<open>models.go\<close> and the receipts of \<open>client.go\<close>: \<open>Consent_Match\<close>.
  \<^item> \<open>consent/client.go\<close>: \<open>Consent_Client\<close>; its lemmas by kind in \<open>Client_Calls\<close> (number and form of the calls),
    \<open>Client_Errors\<close> (error classes, cached tokens, caches), \<open>Client_Props\<close>; \<open>Provenance\<close> (a cached identifier comes
    from a search in the trace, and every operation keeps that).
  \<^item> \<open>plugin/context.go\<close>: \<open>Context_Store\<close>, \<open>Context_Props\<close>.  \<open>jwt/extractor.go\<close>: \<open>Jwt\<close>.  \<open>plugin/config.go\<close>: \<open>Config\<close>, \<open>Config_Props\<close>.
  \<^item> \<open>ownerresolver/client.go\<close>: \<open>Owner_Resolver\<close>.  \<open>metrics/metrics.go\<close>: \<open>Metrics\<close>, \<open>Metrics_Props\<close>.  \<open>audit/audit.go\<close>: \<open>Audit_Log\<close>,
    \<open>Audit_Props\<close>.
  \<^item> \<open>plugin/consent.go\<close>: \<open>Claim_Path\<close> and \<open>Claim_Props\<close> (claim paths); \<open>Owners\<close> (fail policy, claims, concurrent checks,
    reduction) with \<open>Owners_Props\<close>, \<open>Owner_Claims\<close> and \<open>Owners_Limits\<close>; \<open>Consent_Filter\<close> (both phases, audit record, denial)
    with \<open>Filter_Props\<close>, \<open>Filter_Runs\<close>, \<open>Filter_Claims\<close> and \<open>Release_Claims\<close>.
  \<^item> \<open>main.go\<close>: \<open>Plugin_Main\<close>, \<open>Main_Props\<close>.
  \<^item> The whole process: \<open>Footprint\<close> (what each operation leaves alone) and \<open>Plugin_Process\<close> (every interleaving of the
    entry points with the background work, and the invariant of all state).

  Interfaces.  Four contracts are locales, each interpreted on the model's own definitions: \<open>ttl_cache\<close> (the
  identifier and the participant cache), \<open>phase_store\<close> (the context store), \<open>bounded_sink\<close> (the audit emitter with its
  worker) and \<open>header_object\<close> (the header of a response, by the header map of \<open>net/http\<close>).

  What is proved.  The groups of properties follow the flow of a request.
  \<^item> The verdict: a release rests on the stored context, the identified consumer, the resolver's answer about this
    body and, if the resolver requires consent, an identifier search for the very owner and a granted lookup of that
    identifier for every claim (\<open>released_only_with_consent\<close>, over \<open>release_needs_every_consent\<close> and
    \<open>allow_is_authorized\<close>); this holds without a fail-open policy, within the budget of the phase and without
    cancelled calls, and \<open>expired_phase_releases\<close> and \<open>verdict_depends_on_schedule\<close> show what happens otherwise.  A
    refusal is enforced under every policy and schedule; some failures are denied even by a policy that fails open
    (\<open>structural_failures_deny\<close>); unanimous consent does release; the checks are bounded and end.
  \<^item> The two phases: what the response takes is what its own request stored; the store is bounded and implements a
    map with expiry.
  \<^item> The client: number, form and errors of the calls, separation and freshness of the caches, tokens.
  \<^item> Configuration, claims of the token, the resolver's answer; metrics, logging; the audit log, what it
    says of a verdict, its accounting and its flush at the end of the process.
  \<^item> The process: whatever runs in whatever order, every store, counter and queue but the consent client's caches is
    within a fixed bound (\<open>process_bounded\<close>); the caches only grow (\<open>caches_never_shrink\<close>).
  \<^item> Where the code does not do what it says: an expired phase can release, a verdict can depend on the schedule,
    a second purpose of an owner is not checked, a failure after a consent is not audited, a mistyped claim path is
    accepted.

  Concurrency.  A section under a mutex, and one check's effect on the shared caches, is one step.  The
  goroutines of \<open>checkOwners\<close> are a vector of states and the scheduler is a list of steps, followed by the steps that let every
  goroutine end; the properties hold for all lists.  The deadline of the response phase is the step \<open>Expire\<close>, and before
  the checks it is a call that fails.  The audit worker is a function of what wakes it up.  In \<open>process_step\<close> a whole phase is one step;
  the state it shares with others is only touched by its atomic sections.

  Bounds and fuel.  The only fuel is that of the JSON parser: two units per byte and two more, proved to be enough
  for every input (\<open>p_val_fuel\<close>); its nesting limit is Go's own.  Every other loop is structural recursion, a fold,
  or terminates by a measure on its input.

  Not modelled.  The runner, zap and the HTTP server are third-party code: what the program relies on is a
  parameter.  Overflow, subnormal numbers and special values of \<open>float64\<close> are left out, and the text of a
  float is a parameter.  Timers, goroutine start-up and mutexes appear only as the atomic steps above.  The order of
  the metrics endpoint's log lines among the others is fixed to come first.  The Go tests and the files for
  development and CI are left out.
\<close>

end
